(* ===== verification/Js_Prelude.thy ===== *)
theory Js_Prelude
  imports Main "HOL-Library.Sublist"
begin

text \<open>
  Shared vocabulary of the development: the JavaScript string and array operations the
  front end uses, and the list lemmas about them.

  A JavaScript string is a list of code units; here \<^typ>\<open>string\<close>, whose characters
  are the code units below 256 (Latin-1). White space is what \<open>String.prototype.trim\<close>
  and the regular-expression class \<open>\s\<close> recognise in that range, and line
  terminators are what \<open>^\<close>, \<open>$\<close> and \<open>.\<close> recognise there.
\<close>

named_theorems js_string \<open>characteristic facts of the string operations\<close>

section \<open>Characters\<close>

abbreviation code :: "char \<Rightarrow> nat" where
  "code c \<equiv> of_char c"

definition is_line_end :: "char \<Rightarrow> bool" where
  "is_line_end c \<longleftrightarrow> code c = 10 \<or> code c = 13"

definition is_ws :: "char \<Rightarrow> bool" where
  "is_ws c \<longleftrightarrow> (9 \<le> code c \<and> code c \<le> 13) \<or> code c = 32 \<or> code c = 160"

definition is_digit :: "char \<Rightarrow> bool" where
  "is_digit c \<longleftrightarrow> 48 \<le> code c \<and> code c \<le> 57"

definition is_upper :: "char \<Rightarrow> bool" where
  "is_upper c \<longleftrightarrow> 65 \<le> code c \<and> code c \<le> 90"

definition is_lower :: "char \<Rightarrow> bool" where
  "is_lower c \<longleftrightarrow> 97 \<le> code c \<and> code c \<le> 122"

abbreviation is_alnum :: "char \<Rightarrow> bool" where
  "is_alnum c \<equiv> is_upper c \<or> is_lower c \<or> is_digit c"

lemmas char_class_defs = is_line_end_def is_ws_def is_digit_def is_upper_def is_lower_def

text \<open>
  \<open>toLowerCase\<close> and \<open>toUpperCase\<close>. In Latin-1 the letters 192 to 222 and 224 to
  254 pair up (215 and 247 are not letters), the sharp s (223) upper-cases to two
  letters, and 181 and 255 upper-case to code units above 255; these two stay
  themselves here, so that they remain non-ASCII as in JavaScript.
\<close>

definition lower_char :: "char \<Rightarrow> char" where
  "lower_char c = (if is_upper c \<or> (192 \<le> code c \<and> code c \<le> 222 \<and> code c \<noteq> 215)
     then char_of (code c + 32) else c)"

definition upper_char :: "char \<Rightarrow> string" where
  "upper_char c =
     (if code c = 223 then ''SS''
      else if is_lower c \<or> (224 \<le> code c \<and> code c \<le> 254 \<and> code c \<noteq> 247)
        then [char_of (code c - 32)] else [c])"

definition to_lower :: "string \<Rightarrow> string" where
  "to_lower s = map lower_char s"

definition to_upper :: "string \<Rightarrow> string" where
  "to_upper s = concat (map upper_char s)"

lemma code_less_256 [simp]: "code c < 256"
  using of_char_mod_256 [of c] by (metis mod_less_divisor zero_less_numeral)

lemma code_char_of [simp]: "n < 256 \<Longrightarrow> code (char_of n) = n"
  by simp

lemma lower_char_idem [simp]: "lower_char (lower_char c) = lower_char c"
  by (auto simp: lower_char_def is_upper_def)

lemma to_lower_idem [simp]: "to_lower (to_lower s) = to_lower s"
  by (simp add: to_lower_def)

lemma length_to_lower [simp]: "length (to_lower s) = length s"
  by (simp add: to_lower_def)

lemma lower_char_fixed: "\<not> is_upper c \<Longrightarrow> code c < 128 \<Longrightarrow> lower_char c = c"
  by (simp add: lower_char_def)

lemma to_lower_fixed: "\<forall>c \<in> set s. \<not> is_upper c \<and> code c < 128 \<Longrightarrow> to_lower s = s"
  by (induction s) (auto simp: to_lower_def lower_char_fixed)

section \<open>Trimming\<close>

definition trim_start :: "string \<Rightarrow> string" where
  "trim_start s = dropWhile is_ws s"

definition trim_end :: "string \<Rightarrow> string" where
  "trim_end s = rev (dropWhile is_ws (rev s))"

definition trim :: "string \<Rightarrow> string" where
  "trim s = trim_end (trim_start s)"

lemma trim_end_fixed: "s = [] \<or> \<not> is_ws (last s) \<Longrightarrow> trim_end s = s"
  by (cases s rule: rev_cases) (auto simp: trim_end_def)

lemma trim_end_last: "trim_end s \<noteq> [] \<Longrightarrow> \<not> is_ws (last (trim_end s))"
  by (simp add: trim_end_def last_rev hd_dropWhile)

lemma trim_start_hd: "trim_start s \<noteq> [] \<Longrightarrow> \<not> is_ws (hd (trim_start s))"
  by (simp add: trim_start_def hd_dropWhile)

lemma prefix_trim_end: "prefix (trim_end s) s"
  using suffix_dropWhile [of is_ws "rev s"] by (simp add: trim_end_def suffix_to_prefix)

lemma trim_hd: "trim s \<noteq> [] \<Longrightarrow> \<not> is_ws (hd (trim s))"
proof -
  assume ne: "trim s \<noteq> []"
  then obtain us where "trim_start s = trim s @ us"
    using prefix_trim_end [of "trim_start s"] by (auto simp: trim_def prefix_def)
  with ne show ?thesis using trim_start_hd [of s] by simp
qed

lemma trim_last: "trim s \<noteq> [] \<Longrightarrow> \<not> is_ws (last (trim s))"
  by (simp add: trim_def trim_end_last)

lemma trim_fixed: "s = [] \<or> (\<not> is_ws (hd s) \<and> \<not> is_ws (last s)) \<Longrightarrow> trim s = s"
  by (cases s) (auto simp: trim_def trim_start_def trim_end_fixed)

lemma trim_idem [simp]: "trim (trim s) = trim s"
  using trim_fixed trim_hd trim_last by blast

lemma trim_Nil [simp]: "trim [] = []"
  by (simp add: trim_def trim_start_def trim_end_def)

lemma trim_end_eq_Nil: "trim_end s = [] \<longleftrightarrow> (\<forall>c \<in> set s. is_ws c)"
  by (simp add: trim_end_def dropWhile_eq_Nil_conv)

lemma trim_start_eq_Nil: "trim_start s = [] \<longleftrightarrow> (\<forall>c \<in> set s. is_ws c)"
  by (simp add: trim_start_def dropWhile_eq_Nil_conv)

lemma trim_eq_Nil [js_string]: "trim s = [] \<longleftrightarrow> (\<forall>c \<in> set s. is_ws c)"
proof
  assume "trim s = []"
  then have all: "\<forall>c \<in> set (trim_start s). is_ws c"
    by (simp add: trim_def trim_end_eq_Nil)
  have "trim_start s = []"
  proof (rule ccontr)
    assume "trim_start s \<noteq> []"
    with all trim_start_hd [of s] show False by (simp add: hd_in_set)
  qed
  then show "\<forall>c \<in> set s. is_ws c" by (simp add: trim_start_eq_Nil)
next
  assume "\<forall>c \<in> set s. is_ws c"
  then have "trim_start s = []" by (simp add: trim_start_eq_Nil)
  then show "trim s = []" by (simp add: trim_def trim_end_def)
qed

lemma trim_no_ws: "\<forall>c \<in> set s. \<not> is_ws c \<Longrightarrow> trim s = s"
  by (cases "s = []") (auto intro!: trim_fixed)

lemma sublist_trim: "sublist (trim s) s"
proof -
  have "sublist (trim_end (trim_start s)) (trim_start s)"
    using prefix_trim_end by (rule prefix_imp_sublist)
  moreover have "sublist (trim_start s) s"
    unfolding trim_start_def by (rule suffix_imp_sublist) (rule suffix_dropWhile)
  ultimately show ?thesis unfolding trim_def by (rule sublist_order.order_trans)
qed

lemma set_trim: "set (trim s) \<subseteq> set s"
  using sublist_trim by (rule set_mono_sublist)

lemma length_trim: "length (trim s) \<le> length s"
  using sublist_trim by (rule sublist_length_le)

section \<open>Searching\<close>

text \<open>\<open>s.indexOf(p)\<close>, with \<^const>\<open>None\<close> for -1, and \<open>s.indexOf(p, i)\<close>.\<close>

fun index_of :: "'a list \<Rightarrow> 'a list \<Rightarrow> nat option" where
  "index_of p s = (if prefix p s then Some 0
     else case s of [] \<Rightarrow> None | _ # t \<Rightarrow> map_option Suc (index_of p t))"

declare index_of.simps [simp del]

definition index_of_from :: "'a list \<Rightarrow> 'a list \<Rightarrow> nat \<Rightarrow> nat option" where
  "index_of_from p s i = map_option (\<lambda>n. i + n) (index_of p (drop i s))"

definition contains :: "'a list \<Rightarrow> 'a list \<Rightarrow> bool" where
  "contains s p \<longleftrightarrow> index_of p s \<noteq> None"

definition slice :: "nat \<Rightarrow> nat \<Rightarrow> 'a list \<Rightarrow> 'a list" where
  "slice i j s = drop i (take j s)"

fun join :: "string \<Rightarrow> string list \<Rightarrow> string" where
  "join sep [] = []"
| "join sep [x] = x"
| "join sep (x # xs) = x @ sep @ join sep xs"

lemma length_join_member: "x \<in> set xs \<Longrightarrow> length x \<le> length (join sep xs)"
  by (induction sep xs rule: join.induct) auto

lemma join_Cons: "xs \<noteq> [] \<Longrightarrow> join sep (x # xs) = x @ sep @ join sep xs"
  by (cases xs) simp_all

lemma index_of_Nil [simp]: "index_of p [] = (if p = [] then Some 0 else None)"
  by (simp add: index_of.simps)

lemma index_of_Cons:
  "index_of p (x # t) = (if prefix p (x # t) then Some 0 else map_option Suc (index_of p t))"
  by (simp add: index_of.simps)

lemma index_of_SomeE:
  assumes "index_of p s = Some n"
  obtains pre suf where "s = pre @ p @ suf" and "length pre = n"
  using assms
proof (induction s arbitrary: n thesis)
  case Nil
  then show ?case by (auto split: if_splits)
next
  case (Cons x t)
  show ?case
  proof (cases "prefix p (x # t)")
    case True
    with Cons.prems show ?thesis by (auto simp: index_of_Cons prefix_def)
  next
    case False
    with Cons.prems obtain m where m: "index_of p t = Some m" "n = Suc m"
      by (auto simp: index_of_Cons)
    from Cons.IH [OF _ m(1)] obtain pre suf where "t = pre @ p @ suf" "length pre = m" by blast
    with m(2) Cons.prems(1) [of "x # pre" suf] show ?thesis by simp
  qed
qed

lemma index_of_None [js_string]: "index_of p s = None \<longleftrightarrow> \<not> sublist p s"
  by (induction s) (auto simp: index_of_Cons sublist_Cons_right)

lemma contains_iff_sublist [js_string]: "contains s p \<longleftrightarrow> sublist p s"
  by (simp add: contains_def index_of_None)

lemma index_of_bound: "index_of p s = Some n \<Longrightarrow> n + length p \<le> length s"
  by (erule index_of_SomeE) simp

lemma index_of_SomeD: "index_of p s = Some n \<Longrightarrow> s = take n s @ p @ drop (n + length p) s"
  by (erule index_of_SomeE) auto

lemma index_of_least:
  "index_of p s = Some n \<Longrightarrow> prefix p (drop j s) \<Longrightarrow> j \<le> length s \<Longrightarrow> n \<le> j"
proof (induction s arbitrary: n j)
  case Nil
  then show ?case by (auto split: if_splits)
next
  case (Cons x s)
  then show ?case by (cases j) (auto simp: index_of_Cons split: if_splits)
qed

lemma index_of_decomp:
  assumes "index_of p s = Some n" and "p \<noteq> []"
  obtains v rest where "s = v @ p @ rest" and "\<not> sublist p v" and "length v = n"
proof -
  from assms(1) obtain v rest where s: "s = v @ p @ rest" and n: "length v = n"
    by (rule index_of_SomeE)
  have "\<not> sublist p v"
  proof
    assume "sublist p v"
    then obtain v' rest' where v: "v = v' @ p @ rest'" by (auto simp: sublist_def)
    then have "prefix p (drop (length v') s)" by (simp add: s)
    from index_of_least [OF assms(1) this] have "n \<le> length v'" by (simp add: s v)
    moreover have "n = length v' + length p + length rest'" using n by (simp add: v)
    ultimately show False using assms(2) by (cases p) simp_all
  qed
  with s n that show ?thesis by blast
qed

text \<open>
  A pattern whose first character does not recur in it cannot overlap an occurrence of
  itself, so the first occurrence after a text free of it is at the end of that text.
\<close>

lemma prefix_before:
  assumes "c \<notin> set p" and "prefix (c # p) (v @ (c # p) @ rest)" and "v \<noteq> []"
  shows "prefix (c # p) v"
proof -
  from assms(2,3) obtain v' where v: "v = c # v'" and p: "prefix p (v' @ (c # p) @ rest)"
    by (cases v) auto
  from p obtain zs where zs: "v' @ (c # p) @ rest = p @ zs" by (auto simp: prefix_def)
  have "length p \<le> length v'"
  proof (rule ccontr)
    assume "\<not> length p \<le> length v'"
    then have len: "length v' < length p" by simp
    have "(v' @ (c # p) @ rest) ! length v' = c" by simp
    with zs len have "p ! length v' = c" by (simp add: nth_append)
    with len have "c \<in> set p" by (auto simp: in_set_conv_nth)
    with assms(1) show False by simp
  qed
  with zs have "prefix p v'" by (metis prefixI prefix_length_prefix)
  then show ?thesis by (simp add: v)
qed

lemma index_of_append [js_string]:
  assumes "c \<notin> set p" and "\<not> sublist (c # p) v"
  shows "index_of (c # p) (v @ (c # p) @ rest) = Some (length v)"
  using assms(2)
proof (induction v)
  case Nil
  then show ?case by (simp add: index_of_Cons)
next
  case (Cons x v)
  then have "\<not> sublist (c # p) v" by (auto simp: sublist_Cons_right)
  then have IH: "index_of (c # p) (v @ (c # p) @ rest) = Some (length v)" by (rule Cons.IH)
  have "\<not> prefix (c # p) ((x # v) @ (c # p) @ rest)"
    using prefix_before [OF assms(1), of "x # v" rest] Cons.prems prefix_imp_sublist by blast
  then show ?case using IH by (simp add: index_of_Cons)
qed

lemma slice_append:
  assumes "i \<le> j" "j \<le> k"
  shows "slice i j xs @ slice j k xs = slice i k xs"
proof -
  let ?ys = "take k xs"
  have t: "take j xs = take j ?ys" using assms(2) by (simp add: min_absorb1)
  have "drop i ?ys = drop i (take j ?ys @ drop j ?ys)" by (simp only: append_take_drop_id)
  also have "\<dots> = drop i (take j ?ys) @ drop (i - length (take j ?ys)) (drop j ?ys)"
    by (rule drop_append)
  also have "drop (i - length (take j ?ys)) (drop j ?ys) = drop j ?ys"
    using assms(1) by (cases "j \<le> length ?ys") auto
  finally show ?thesis by (simp only: slice_def t)
qed

section \<open>Integers in decimal\<close>

fun string_of_nat :: "nat \<Rightarrow> string" where
  "string_of_nat n =
     (if n < 10 then [char_of (48 + n)]
      else string_of_nat (n div 10) @ [char_of (48 + n mod 10)])"

declare string_of_nat.simps [simp del]

definition string_of_int :: "int \<Rightarrow> string" where
  "string_of_int i = (if i < 0 then ''-'' @ string_of_nat (nat (- i)) else string_of_nat (nat i))"

section \<open>Values present in a list\<close>

fun somes :: "'a option list \<Rightarrow> 'a list" where
  "somes [] = []"
| "somes (None # xs) = somes xs"
| "somes (Some x # xs) = x # somes xs"

lemma somes_append [simp]: "somes (xs @ ys) = somes xs @ somes ys"
  by (induction xs rule: somes.induct) simp_all

section \<open>Exceptions\<close>

text \<open>The exceptions the modelled code can raise, the left of a result.\<close>

datatype js_error = TypeError | SyntaxError | QuotaExceeded | UrlError | ApiError string

section \<open>Arrays\<close>

text \<open>\<open>findIndex\<close> (with \<^const>\<open>None\<close> for -1) and \<open>at(-1)\<close>.\<close>

fun find_index :: "('a \<Rightarrow> bool) \<Rightarrow> 'a list \<Rightarrow> nat option" where
  "find_index P [] = None"
| "find_index P (x # xs) = (if P x then Some 0 else map_option Suc (find_index P xs))"

definition last_opt :: "'a list \<Rightarrow> 'a option" where
  "last_opt xs = (if xs = [] then None else Some (last xs))"

lemma find_index_None: "find_index P xs = None \<longleftrightarrow> (\<forall>x \<in> set xs. \<not> P x)"
  by (induction xs) auto

lemma find_index_SomeD:
  "find_index P xs = Some i \<Longrightarrow> i < length xs \<and> P (xs ! i) \<and> (\<forall>j < i. \<not> P (xs ! j))"
proof (induction xs arbitrary: i)
  case Nil
  then show ?case by simp
next
  case (Cons x xs)
  then show ?case by (auto split: if_splits simp: nth_Cons split: nat.splits)
qed

lemma find_index_append:
  "\<forall>x \<in> set xs. \<not> P x \<Longrightarrow>
   find_index P (xs @ ys) = map_option (\<lambda>i. length xs + i) (find_index P ys)"
  by (cases "find_index P ys"; induction xs; simp)

lemma last_opt_snoc [simp]: "last_opt (xs @ [x]) = Some x"
  by (simp add: last_opt_def)

lemma last_opt_None [simp]: "last_opt xs = None \<longleftrightarrow> xs = []"
  by (simp add: last_opt_def)

text \<open>\<open>||\<close> on strings and on optional strings: an empty string is falsy.\<close>

definition or_str :: "string \<Rightarrow> string \<Rightarrow> string" where
  "or_str a b = (if a = [] then b else a)"

definition or_opt :: "string option \<Rightarrow> string \<Rightarrow> string" where
  "or_opt a b = (case a of Some s \<Rightarrow> or_str s b | None \<Rightarrow> b)"

definition truthy_str :: "string option \<Rightarrow> bool" where
  "truthy_str a \<longleftrightarrow> (case a of Some s \<Rightarrow> s \<noteq> [] | None \<Rightarrow> False)"

text \<open>\<open>??\<close> on optional values, two of them in a row.\<close>

definition coalesce :: "'a option \<Rightarrow> 'a option \<Rightarrow> 'a option" where
  "coalesce a b = (case a of Some x \<Rightarrow> Some x | None \<Rightarrow> b)"

lemma coalesce_simps [simp]:
  "coalesce (Some x) b = Some x"
  "coalesce None b = b"
  by (simp_all add: coalesce_def)

text \<open>Suffixes: what \<open>slice(-n)\<close> and the loops that walk an array from its end keep.\<close>

definition take_last :: "nat \<Rightarrow> 'a list \<Rightarrow> 'a list" where
  "take_last n xs = drop (length xs - n) xs"

lemma suffix_take_last: "suffix (take_last n xs) xs"
  by (simp add: take_last_def suffix_drop)

lemma length_take_last [simp]: "length (take_last n xs) = min n (length xs)"
  by (simp add: take_last_def)

end
