(* ===== verification/Pg_Message.thy ===== *)
theory Pg_Message
  imports Complex_Main Js_Prelude
begin

text \<open>
  The playground's messages: the types and constants of \<open>types.ts\<close> and
  \<open>constants.ts\<close>, and the message helpers of \<open>lib/message/message-utils.ts\<close>.

  Optional properties are options; \<open>errorCode\<close>, which may also be \<open>null\<close>, is an
  option of an option. Time stamps and durations are \<^typ>\<open>rat\<close>: they come from
  \<open>Date.now()\<close> or from storage and are only subtracted, compared and divided by
  1000. The clock (\<open>Date.now()\<close>) and the identifier generator (\<open>nanoid\<close>, a
  package) are arguments: one reading of the clock per call of a function, one fresh
  string per call of the generator.
\<close>

section \<open>Data\<close>

type_synonym number = rat

datatype MessageRole = User | Assistant | System

datatype MessageStatus = Loading | Streaming | Complete | Error

record MessageVersion =
  v_id :: string
  v_content :: string

record Source =
  s_href :: string
  s_title :: string

record Reasoning =
  r_content :: string
  r_duration :: number
  r_startedAt :: "number option"
  r_completedAt :: "number option"
  r_durationMs :: "number option"

record Message =
  m_key :: string
  m_from :: MessageRole
  m_versions :: "MessageVersion list"
  m_createdAt :: "number option"
  m_startedAt :: "number option"
  m_completedAt :: "number option"
  m_durationMs :: "number option"
  m_sources :: "Source list option"
  m_reasoning :: "Reasoning option"
  m_isReasoningStreaming :: "bool option"
  m_isReasoningComplete :: "bool option"
  m_isContentComplete :: "bool option"
  m_status :: "MessageStatus option"
  m_errorCode :: "string option option"

datatype PartType = TextPart | ImagePart

record ContentPart =
  p_type :: PartType
  p_text :: "string option"
  p_image_url :: "string option"

datatype MessageContent = StringContent string | PartsContent "ContentPart list"

record ChatCompletionMessage =
  c_role :: MessageRole
  c_content :: MessageContent

definition API_REQUEST_ERROR :: string where
  "API_REQUEST_ERROR = ''Request error occurred''"

definition NETWORK_ERROR :: string where
  "NETWORK_ERROR = ''Network connection failed or server not responding''"

definition PARSE_ERROR :: string where
  "PARSE_ERROR = ''Error parsing response data''"

definition STREAM_START_ERROR :: string where
  "STREAM_START_ERROR = ''Error establishing connection''"

definition CONNECTION_CLOSED :: string where
  "CONNECTION_CLOSED = ''Connection closed''"

definition INTERRUPTED :: string where
  "INTERRUPTED = ''Generation was interrupted''"

definition ERROR_MESSAGES :: "string list" where
  "ERROR_MESSAGES =
     [API_REQUEST_ERROR, NETWORK_ERROR, PARSE_ERROR, STREAM_START_ERROR, CONNECTION_CLOSED,
      INTERRUPTED]"

section \<open>Operations\<close>

definition createMessageVersion :: "string \<Rightarrow> string \<Rightarrow> MessageVersion" where
  "createMessageVersion nanoid content = \<lparr>v_id = nanoid, v_content = content\<rparr>"

definition getCurrentVersion :: "Message \<Rightarrow> MessageVersion" where
  "getCurrentVersion message =
     (case m_versions message of
        v # _ \<Rightarrow> v
      | [] \<Rightarrow> \<lparr>v_id = ''default'', v_content = []\<rparr>)"

definition getMessageContent :: "Message \<Rightarrow> string" where
  "getMessageContent message = v_content (getCurrentVersion message)"

definition hasMessageContent :: "Message \<Rightarrow> bool" where
  "hasMessageContent message \<longleftrightarrow> trim (getMessageContent message) \<noteq> []"

definition updateCurrentVersionContent :: "Message \<Rightarrow> string \<Rightarrow> Message" where
  "updateCurrentVersionContent message content =
     message\<lparr>m_versions := [(getCurrentVersion message)\<lparr>v_content := content\<rparr>]\<rparr>"

definition createUserMessage :: "string \<Rightarrow> string \<Rightarrow> string \<Rightarrow> number \<Rightarrow> Message" where
  "createUserMessage key_id version_id content createdAt =
     \<lparr>m_key = key_id, m_from = User, m_versions = [createMessageVersion version_id content],
      m_createdAt = Some createdAt, m_startedAt = None, m_completedAt = None,
      m_durationMs = None, m_sources = None, m_reasoning = None,
      m_isReasoningStreaming = None, m_isReasoningComplete = None,
      m_isContentComplete = None, m_status = None, m_errorCode = None\<rparr>"

definition createLoadingAssistantMessage :: "string \<Rightarrow> string \<Rightarrow> number \<Rightarrow> Message" where
  "createLoadingAssistantMessage key_id version_id startedAt =
     \<lparr>m_key = key_id, m_from = Assistant, m_versions = [createMessageVersion version_id []],
      m_createdAt = Some startedAt, m_startedAt = Some startedAt, m_completedAt = None,
      m_durationMs = None, m_sources = None, m_reasoning = None,
      m_isReasoningStreaming = Some False, m_isReasoningComplete = Some False,
      m_isContentComplete = Some False, m_status = Some Loading, m_errorCode = None\<rparr>"

definition buildMessageContent :: "string \<Rightarrow> string list \<Rightarrow> MessageContent" where
  "buildMessageContent text_in imageUrls =
     (let validImages = filter (\<lambda>url. trim url \<noteq> []) imageUrls
      in if validImages = [] then StringContent text_in
         else PartsContent
           (\<lparr>p_type = TextPart, p_text = Some text_in, p_image_url = None\<rparr>
            # map (\<lambda>url. \<lparr>p_type = ImagePart, p_text = None, p_image_url = Some (trim url)\<rparr>)
                validImages))"

fun getTextContent :: "MessageContent \<Rightarrow> string" where
  "getTextContent (StringContent s) = s"
| "getTextContent (PartsContent parts) =
     (case find (\<lambda>part. p_type part = TextPart) parts of
        Some textPart \<Rightarrow> or_opt (p_text textPart) []
      | None \<Rightarrow> [])"

definition formatMessageForAPI :: "Message \<Rightarrow> ChatCompletionMessage" where
  "formatMessageForAPI message =
     \<lparr>c_role = m_from message,
      c_content = StringContent (v_content (getCurrentVersion message))\<rparr>"

definition isValidMessage :: "Message \<Rightarrow> bool" where
  "isValidMessage message =
     (if m_versions message = [] then False
      else if m_from message = Assistant \<and> \<not> hasMessageContent message then False
      else True)"

section \<open>Facts\<close>

named_theorems message_simps \<open>what the message helpers do to each field\<close>

lemma updateCurrentVersionContent_fields [message_simps]:
  "m_key (updateCurrentVersionContent m c) = m_key m"
  "m_from (updateCurrentVersionContent m c) = m_from m"
  "m_createdAt (updateCurrentVersionContent m c) = m_createdAt m"
  "m_startedAt (updateCurrentVersionContent m c) = m_startedAt m"
  "m_completedAt (updateCurrentVersionContent m c) = m_completedAt m"
  "m_durationMs (updateCurrentVersionContent m c) = m_durationMs m"
  "m_sources (updateCurrentVersionContent m c) = m_sources m"
  "m_reasoning (updateCurrentVersionContent m c) = m_reasoning m"
  "m_isReasoningStreaming (updateCurrentVersionContent m c) = m_isReasoningStreaming m"
  "m_status (updateCurrentVersionContent m c) = m_status m"
  "m_errorCode (updateCurrentVersionContent m c) = m_errorCode m"
  by (simp_all add: updateCurrentVersionContent_def)

lemma getCurrentVersion_update [message_simps]:
  "getCurrentVersion (updateCurrentVersionContent m c) = (getCurrentVersion m)\<lparr>v_content := c\<rparr>"
  by (simp add: getCurrentVersion_def updateCurrentVersionContent_def)

lemma getMessageContent_update [message_simps]:
  "getMessageContent (updateCurrentVersionContent m c) = c"
  by (simp add: getMessageContent_def getCurrentVersion_update)

lemma getCurrentVersion_cong:
  "m_versions m = m_versions m' \<Longrightarrow> getCurrentVersion m = getCurrentVersion m'"
  by (simp add: getCurrentVersion_def)

lemma getMessageContent_fields [message_simps]:
  "getMessageContent (m\<lparr>m_status := s\<rparr>) = getMessageContent m"
  "getMessageContent (m\<lparr>m_reasoning := r\<rparr>) = getMessageContent m"
  "getMessageContent (m\<lparr>m_isReasoningStreaming := b\<rparr>) = getMessageContent m"
  "getMessageContent (m\<lparr>m_errorCode := e\<rparr>) = getMessageContent m"
  "getMessageContent (m\<lparr>m_createdAt := x\<rparr>) = getMessageContent m"
  "getMessageContent (m\<lparr>m_startedAt := x\<rparr>) = getMessageContent m"
  "getMessageContent (m\<lparr>m_completedAt := x\<rparr>) = getMessageContent m"
  "getMessageContent (m\<lparr>m_durationMs := x\<rparr>) = getMessageContent m"
  by (simp_all add: getMessageContent_def getCurrentVersion_def)

lemma getTextContent_build: "getTextContent (buildMessageContent t urls) = t"
  by (simp add: buildMessageContent_def Let_def or_opt_def or_str_def)

end
