(* ===== verification/Pg_Reasoning.thy ===== *)
theory Pg_Reasoning
  imports Js_Prelude
begin

text \<open>
  \<open>lib/message/message-reasoning-utils.ts\<close>: separating the reasoning between
  \<open><think>\<close> tags from the visible text. The scanner is the source's loop over
  positions; \<open>tagged\<close> is the text a model would have produced from visible pieces
  and reasoning blocks, and the lemmas say that the scanner inverts it.
\<close>

section \<open>The scanner\<close>

record ParsedThinkTags =
  t_visibleContent :: string
  t_reasoning :: string
  t_hasUnclosedTag :: bool

definition OPEN_TAG :: string where
  "OPEN_TAG = ''<think>''"

definition CLOSE_TAG :: string where
  "CLOSE_TAG = ''</think>''"

lemma index_of_from_bound:
  "index_of_from p s i = Some n \<Longrightarrow> i \<le> n \<and> n + length p \<le> max i (length s)"
  by (auto simp: index_of_from_def dest: index_of_bound)

function parse_loop ::
  "string \<Rightarrow> nat \<Rightarrow> string list \<Rightarrow> string list \<Rightarrow> string list \<times> string list \<times> bool"
where
  "parse_loop content currentPos visibleParts reasoningParts =
     (case index_of_from OPEN_TAG content currentPos of
        None \<Rightarrow>
          (if currentPos < length content
           then visibleParts @ [drop currentPos content] else visibleParts,
           reasoningParts, False)
      | Some openPos \<Rightarrow>
          let visibleParts' =
            (if openPos > currentPos
             then visibleParts @ [slice currentPos openPos content] else visibleParts)
          in (case index_of_from CLOSE_TAG content (openPos + 7) of
                None \<Rightarrow> (visibleParts', reasoningParts @ [drop (openPos + 7) content], True)
              | Some closePos \<Rightarrow>
                  parse_loop content (closePos + 8) visibleParts'
                    (reasoningParts @ [slice (openPos + 7) closePos content])))"
  by pat_completeness auto
termination
proof (relation "measure (\<lambda>(content, pos, _, _). length content - pos)", goal_cases)
  case 1
  show ?case by simp
next
  case (2 content pos vis rea openPos vis' closePos)
  have "openPos + 7 \<le> max pos (length content)" and "pos \<le> openPos"
    using index_of_from_bound [OF 2(1)] by (simp_all add: OPEN_TAG_def)
  moreover have "closePos + 8 \<le> max (openPos + 7) (length content)" and "openPos + 7 \<le> closePos"
    using index_of_from_bound [OF 2(3)] by (simp_all add: CLOSE_TAG_def)
  ultimately show ?case by auto
qed

declare parse_loop.simps [simp del]

definition parseThinkTags :: "string \<Rightarrow> ParsedThinkTags" where
  "parseThinkTags content =
     (if \<not> contains content OPEN_TAG
      then \<lparr>t_visibleContent = content, t_reasoning = [], t_hasUnclosedTag = False\<rparr>
      else let (visibleParts, reasoningParts, hasUnclosedTag) = parse_loop content 0 [] []
           in \<lparr>t_visibleContent = trim (join [] visibleParts),
               t_reasoning = trim (join [CHR 0x0A, CHR 0x0A] reasoningParts),
               t_hasUnclosedTag = hasUnclosedTag\<rparr>)"

section \<open>Texts with reasoning blocks\<close>

text \<open>
  A text is a sequence of blocks (a visible piece, then a reasoning piece between the
  tags) and a visible rest; the last block may be left open.
\<close>

definition tagged :: "(string \<times> string) list \<Rightarrow> string \<Rightarrow> string" where
  "tagged blocks rest = concat (map (\<lambda>(v, r). v @ OPEN_TAG @ r @ CLOSE_TAG) blocks) @ rest"

definition clean_blocks :: "(string \<times> string) list \<Rightarrow> bool" where
  "clean_blocks blocks \<longleftrightarrow>
     (\<forall>(v, r) \<in> set blocks. \<not> contains v OPEN_TAG \<and> \<not> contains r CLOSE_TAG)"

lemma tagged_simps [simp]:
  "tagged [] rest = rest"
  "tagged ((v, r) # blocks) rest = v @ OPEN_TAG @ r @ CLOSE_TAG @ tagged blocks rest"
  by (simp_all add: tagged_def)

lemma clean_blocks_simps [simp]:
  "clean_blocks []"
  "clean_blocks ((v, r) # blocks) \<longleftrightarrow>
     \<not> contains v OPEN_TAG \<and> \<not> contains r CLOSE_TAG \<and> clean_blocks blocks"
  by (auto simp: clean_blocks_def)

lemma length_tags [simp]: "length OPEN_TAG = 7" "length CLOSE_TAG = 8"
  by (simp_all add: OPEN_TAG_def CLOSE_TAG_def)

lemma join_Nil [simp]: "join [] xs = concat xs"
  by (induction "[] :: string" xs rule: join.induct) auto

lemma index_of_open:
  "\<not> contains v OPEN_TAG \<Longrightarrow> index_of OPEN_TAG (v @ OPEN_TAG @ rest) = Some (length v)"
  unfolding OPEN_TAG_def contains_iff_sublist by (rule index_of_append) simp_all

lemma index_of_close:
  "\<not> contains r CLOSE_TAG \<Longrightarrow> index_of CLOSE_TAG (r @ CLOSE_TAG @ rest) = Some (length r)"
  unfolding CLOSE_TAG_def contains_iff_sublist by (rule index_of_append) simp_all

text \<open>One turn of the loop, at the start of each kind of remaining text.\<close>

lemma parse_loop_block:
  assumes "\<not> contains v OPEN_TAG" and "\<not> contains r CLOSE_TAG"
    and s: "s = pre @ v @ OPEN_TAG @ r @ CLOSE_TAG @ rest"
  shows "parse_loop s (length pre) vis rea =
    parse_loop s (length (pre @ v @ OPEN_TAG @ r @ CLOSE_TAG))
      (if v = [] then vis else vis @ [v]) (rea @ [r])"
proof -
  let ?open = "length pre + length v"
  let ?close = "?open + 7 + length r"
  have "drop (?open + 7) s = r @ CLOSE_TAG @ rest" by (simp add: s)
  then have "index_of_from CLOSE_TAG s (?open + 7) = Some ?close"
    using index_of_close [OF assms(2)] by (simp add: index_of_from_def)
  moreover have "index_of_from OPEN_TAG s (length pre) = Some ?open"
    using index_of_open [OF assms(1)] by (simp add: index_of_from_def s)
  moreover have "slice (length pre) ?open s = v" and "slice (?open + 7) ?close s = r"
    by (simp_all add: slice_def s)
  ultimately show ?thesis
    by (subst parse_loop.simps) (simp add: add.commute add.left_commute)
qed

lemma parse_loop_rest:
  assumes "\<not> contains v OPEN_TAG"
  shows "parse_loop (pre @ v) (length pre) vis rea =
    (if v = [] then vis else vis @ [v], rea, False)"
  using assms by (subst parse_loop.simps) (simp add: index_of_from_def contains_def)

lemma parse_loop_open:
  assumes "\<not> contains v OPEN_TAG" and "\<not> contains r CLOSE_TAG"
    and s: "s = pre @ v @ OPEN_TAG @ r"
  shows "parse_loop s (length pre) vis rea = (if v = [] then vis else vis @ [v], rea @ [r], True)"
proof -
  let ?open = "length pre + length v"
  have "index_of_from OPEN_TAG s (length pre) = Some ?open"
    using index_of_open [OF assms(1)] by (simp add: index_of_from_def s)
  moreover have "drop (?open + 7) s = r" by (simp add: s)
  moreover have "index_of_from CLOSE_TAG s (?open + 7) = None"
    using assms(2) \<open>drop (?open + 7) s = r\<close> by (simp add: index_of_from_def contains_def)
  moreover have "slice (length pre) ?open s = v" by (simp add: slice_def s)
  ultimately show ?thesis by (subst parse_loop.simps) simp
qed

lemma parse_loop_tagged:
  assumes "clean_blocks blocks" and s: "s = pre @ tagged blocks rest"
  shows "\<exists>vis'. parse_loop s (length pre) vis rea =
      parse_loop s (length (pre @ tagged blocks [])) vis' (rea @ map snd blocks)
    \<and> concat vis' = concat vis @ concat (map fst blocks)"
  using assms
proof (induction blocks arbitrary: pre vis rea)
  case Nil
  then show ?case by auto
next
  case (Cons b blocks)
  obtain v r where b: "b = (v, r)" by (cases b)
  let ?pre = "pre @ v @ OPEN_TAG @ r @ CLOSE_TAG"
  let ?vis = "if v = [] then vis else vis @ [v]"
  from Cons.prems b have "clean_blocks blocks" and s: "s = ?pre @ tagged blocks rest" by auto
  from Cons.IH [OF this, of ?vis "rea @ [r]"]
  obtain vis' where "parse_loop s (length ?pre) ?vis (rea @ [r]) =
      parse_loop s (length (?pre @ tagged blocks [])) vis' ((rea @ [r]) @ map snd blocks)"
    and "concat vis' = concat ?vis @ concat (map fst blocks)" by blast
  moreover have "parse_loop s (length pre) vis rea = parse_loop s (length ?pre) ?vis (rea @ [r])"
    using Cons.prems b by (intro parse_loop_block) auto
  ultimately show ?case by (intro exI [of _ vis']) (simp add: b)
qed

section \<open>The scanner inverts the tagging\<close>

lemma contains_tagged: "blocks \<noteq> [] \<Longrightarrow> contains (tagged blocks rest) OPEN_TAG"
  by (cases blocks) (auto simp: contains_iff_sublist sublist_appendI split: prod.splits)

lemma parse_closed:
  assumes "clean_blocks blocks" and "blocks \<noteq> []" and "\<not> contains rest OPEN_TAG"
  shows "parseThinkTags (tagged blocks rest) =
    \<lparr>t_visibleContent = trim (concat (map fst blocks) @ rest),
     t_reasoning = trim (join [CHR 0x0A, CHR 0x0A] (map snd blocks)),
     t_hasUnclosedTag = False\<rparr>"
proof -
  let ?s = "tagged blocks rest"
  obtain vis' where loop: "parse_loop ?s 0 [] [] =
      parse_loop ?s (length (tagged blocks [])) vis' (map snd blocks)"
    and vis': "concat vis' = concat (map fst blocks)"
    using parse_loop_tagged [OF assms(1), of ?s "[]" rest "[]" "[]"] by auto
  have "?s = tagged blocks [] @ rest" by (simp add: tagged_def)
  then have "parse_loop ?s (length (tagged blocks [])) vis' (map snd blocks) =
      (if rest = [] then vis' else vis' @ [rest], map snd blocks, False)"
    using parse_loop_rest [OF assms(3)] by metis
  then show ?thesis
    using loop vis' contains_tagged [OF assms(2)] by (simp add: parseThinkTags_def)
qed

lemma parse_unclosed:
  assumes "clean_blocks blocks" and "\<not> contains v OPEN_TAG" and "\<not> contains r CLOSE_TAG"
  shows "parseThinkTags (tagged blocks (v @ OPEN_TAG @ r)) =
    \<lparr>t_visibleContent = trim (concat (map fst blocks) @ v),
     t_reasoning = trim (join [CHR 0x0A, CHR 0x0A] (map snd blocks @ [r])),
     t_hasUnclosedTag = True\<rparr>"
proof -
  let ?s = "tagged blocks (v @ OPEN_TAG @ r)"
  obtain vis' where loop: "parse_loop ?s 0 [] [] =
      parse_loop ?s (length (tagged blocks [])) vis' (map snd blocks)"
    and vis': "concat vis' = concat (map fst blocks)"
    using parse_loop_tagged [OF assms(1), of ?s "[]" "v @ OPEN_TAG @ r" "[]" "[]"] by auto
  have s: "?s = tagged blocks [] @ v @ OPEN_TAG @ r" by (simp add: tagged_def)
  have "contains ?s OPEN_TAG"
    unfolding s contains_iff_sublist by (metis append.assoc sublist_appendI)
  then show ?thesis
    using loop vis' parse_loop_open [OF assms(2,3) s, of vis' "map snd blocks"]
    by (simp add: parseThinkTags_def)
qed

text \<open>Every text is of one of the two forms, so the two lemmas describe every result.\<close>

lemma split_open:
  assumes "contains s OPEN_TAG"
  obtains v rest where "s = v @ OPEN_TAG @ rest" and "\<not> contains v OPEN_TAG"
proof -
  from assms obtain n where "index_of OPEN_TAG s = Some n" by (auto simp: contains_def)
  then show ?thesis
    by (rule index_of_decomp) (use that in \<open>auto simp: contains_iff_sublist OPEN_TAG_def\<close>)
qed

lemma split_close:
  assumes "contains s CLOSE_TAG"
  obtains r rest where "s = r @ CLOSE_TAG @ rest" and "\<not> contains r CLOSE_TAG"
proof -
  from assms obtain n where "index_of CLOSE_TAG s = Some n" by (auto simp: contains_def)
  then show ?thesis
    by (rule index_of_decomp) (use that in \<open>auto simp: contains_iff_sublist CLOSE_TAG_def\<close>)
qed

lemma tagged_exhaust:
  "(\<exists>blocks rest. clean_blocks blocks \<and> \<not> contains rest OPEN_TAG \<and> s = tagged blocks rest)
   \<or> (\<exists>blocks v r. clean_blocks blocks \<and> \<not> contains v OPEN_TAG \<and> \<not> contains r CLOSE_TAG
        \<and> s = tagged blocks (v @ OPEN_TAG @ r))"
proof (induction "length s" arbitrary: s rule: less_induct)
  case less
  show ?case
  proof (cases "contains s OPEN_TAG")
    case False
    then show ?thesis by (intro disjI1 exI [of _ "[]"] exI [of _ s]) simp
  next
    case True
    then obtain v t where s: "s = v @ OPEN_TAG @ t" and v: "\<not> contains v OPEN_TAG"
      by (rule split_open)
    show ?thesis
    proof (cases "contains t CLOSE_TAG")
      case False
      with s v show ?thesis
        by (intro disjI2 exI [of _ "[] :: (string \<times> string) list"] exI [of _ v] exI [of _ t]) simp
    next
      case True
      then obtain r u where t: "t = r @ CLOSE_TAG @ u" and r: "\<not> contains r CLOSE_TAG"
        by (rule split_close)
      have "length u < length s" by (simp add: s t)
      from less [OF this] show ?thesis
      proof (elim disjE exE conjE)
        fix blocks rest
        assume "clean_blocks blocks" "\<not> contains rest OPEN_TAG" "u = tagged blocks rest"
        with s t v r show ?thesis
          by (intro disjI1 exI [of _ "(v, r) # blocks"] exI [of _ rest]) simp
      next
        fix blocks v' r'
        assume "clean_blocks blocks" "\<not> contains v' OPEN_TAG" "\<not> contains r' CLOSE_TAG"
          "u = tagged blocks (v' @ OPEN_TAG @ r')"
        with s t v r show ?thesis
          by (intro disjI2 exI [of _ "(v, r) # blocks"] exI [of _ v'] exI [of _ r']) simp
      qed
    qed
  qed
qed

section \<open>Properties\<close>

text \<open>
  (C17) Parsing inverts tagging. For a text built from visible pieces without an opening tag
  and reasoning pieces without a closing tag, \<open>parseThinkTags\<close> returns the visible pieces
  concatenated and the reasoning pieces joined by blank lines, both trimmed, and says
  whether the last block was left open.
\<close>

theorem parseThinkTags_inverts_tagging:
  assumes "clean_blocks blocks" and "\<not> contains v OPEN_TAG" and "\<not> contains r CLOSE_TAG"
  shows "(blocks \<noteq> [] \<longrightarrow> parseThinkTags (tagged blocks v) =
      \<lparr>t_visibleContent = trim (concat (map fst blocks) @ v),
       t_reasoning = trim (join [CHR 0x0A, CHR 0x0A] (map snd blocks)),
       t_hasUnclosedTag = False\<rparr>)
    \<and> parseThinkTags (tagged blocks (v @ OPEN_TAG @ r)) =
      \<lparr>t_visibleContent = trim (concat (map fst blocks) @ v),
       t_reasoning = trim (join [CHR 0x0A, CHR 0x0A] (map snd blocks @ [r])),
       t_hasUnclosedTag = True\<rparr>"
  using parse_closed [OF assms(1) _ assms(2)] parse_unclosed [OF assms] by simp

theorem parseThinkTags_inverts_tagging_witness:
  "clean_blocks [(''a '', ''why'')]
   \<and> parseThinkTags ''a <think>why</think> b'' =
      \<lparr>t_visibleContent = ''a  b'', t_reasoning = ''why'', t_hasUnclosedTag = False\<rparr>
   \<and> parseThinkTags ''a <think>why</think> b<think>so'' =
      \<lparr>t_visibleContent = ''a  b'', t_reasoning = ''why'' @ [CHR 0x0A, CHR 0x0A] @ ''so'',
       t_hasUnclosedTag = True\<rparr>"
proof -
  have clean: "clean_blocks [(''a '', ''why'')]" "\<not> contains '' b'' OPEN_TAG"
    "\<not> contains ''so'' CLOSE_TAG"
    by code_simp+
  have trims: "trim ''a  b'' = ''a  b''" "trim ''why'' = ''why''"
    "trim (''why'' @ [CHR 0x0A, CHR 0x0A] @ ''so'') = ''why'' @ [CHR 0x0A, CHR 0x0A] @ ''so''"
    by code_simp+
  show ?thesis
    using parseThinkTags_inverts_tagging [OF clean] clean(1) trims
    by (simp add: OPEN_TAG_def CLOSE_TAG_def)
qed

text \<open>
  (C20) The two shapes of (C1) and the tag-free text, which is returned untouched, are all
  there is: every text falls under one of them, so the result of \<open>parseThinkTags\<close> is
  determined for every input.
\<close>

theorem parseThinkTags_characterised:
  "(parseThinkTags s = \<lparr>t_visibleContent = s, t_reasoning = [], t_hasUnclosedTag = False\<rparr>
      \<and> s = tagged [] s \<and> contains s OPEN_TAG = False)
   \<or> (\<exists>blocks v. clean_blocks blocks \<and> blocks \<noteq> [] \<and> s = tagged blocks v
        \<and> contains v OPEN_TAG = False \<and> parseThinkTags s =
          \<lparr>t_visibleContent = trim (concat (map fst blocks) @ v),
           t_reasoning = trim (join [CHR 0x0A, CHR 0x0A] (map snd blocks)),
           t_hasUnclosedTag = False\<rparr>)
   \<or> (\<exists>blocks v r. clean_blocks blocks \<and> s = tagged blocks (v @ OPEN_TAG @ r)
        \<and> contains v OPEN_TAG = False \<and> contains r CLOSE_TAG = False \<and> parseThinkTags s =
          \<lparr>t_visibleContent = trim (concat (map fst blocks) @ v),
           t_reasoning = trim (join [CHR 0x0A, CHR 0x0A] (map snd blocks @ [r])),
           t_hasUnclosedTag = True\<rparr>)"
  using tagged_exhaust [of s]
proof (elim disjE exE conjE)
  fix blocks rest
  assume *: "clean_blocks blocks" "\<not> contains rest OPEN_TAG" "s = tagged blocks rest"
  show ?thesis
  proof (cases "blocks = []")
    case True
    with * show ?thesis by (simp add: parseThinkTags_def)
  next
    case False
    with * parse_closed [OF *(1) False *(2)] show ?thesis by blast
  qed
next
  fix blocks v r
  assume *: "clean_blocks blocks" "\<not> contains v OPEN_TAG" "\<not> contains r CLOSE_TAG"
    "s = tagged blocks (v @ OPEN_TAG @ r)"
  with parse_unclosed [OF *(1-3)] show ?thesis by blast
qed

end
