(* ===== verification/Pg_Streaming.thy ===== *)
theory Pg_Streaming
  imports Pg_Message Pg_Reasoning
begin

text \<open>
  How an assistant message grows while a reply arrives and how it is closed:
  \<open>lib/message/message-timing-utils.ts\<close>, \<open>message-streaming-utils.ts\<close> and
  \<open>message-update-utils.ts\<close>. The argument \<open>now\<close> is the value \<open>Date.now()\<close>
  returns during the call and \<open>t\<close> the translation function of \<open>i18next\<close>.
\<close>

section \<open>Timing\<close>

definition completeAssistantTiming :: "Message \<Rightarrow> number \<Rightarrow> Message" where
  "completeAssistantTiming message completedAt =
     (if m_from message \<noteq> Assistant then message
      else let startedAt = (case m_startedAt message of Some x \<Rightarrow> x
             | None \<Rightarrow> (case m_createdAt message of Some x \<Rightarrow> x | None \<Rightarrow> completedAt))
           in message\<lparr>m_startedAt := Some startedAt,
                m_completedAt := Some completedAt,
                m_durationMs := Some (max 0 (completedAt - startedAt))\<rparr>)"

definition startReasoningTiming :: "Message \<Rightarrow> number \<Rightarrow> Reasoning" where
  "startReasoningTiming message startedAt =
     (case m_reasoning message of
        None \<Rightarrow> \<lparr>r_content = [], r_duration = 0, r_startedAt = Some startedAt,
                 r_completedAt = None, r_durationMs = None\<rparr>
      | Some r \<Rightarrow> \<lparr>r_content = r_content r, r_duration = r_duration r,
                 r_startedAt = Some (case r_startedAt r of Some x \<Rightarrow> x | None \<Rightarrow> startedAt),
                 r_completedAt = r_completedAt r, r_durationMs = r_durationMs r\<rparr>)"

definition completeReasoningTiming :: "Message \<Rightarrow> number \<Rightarrow> Message" where
  "completeReasoningTiming message completedAt =
     (case m_reasoning message of
        None \<Rightarrow> message
      | Some r \<Rightarrow>
          if r_durationMs r \<noteq> None then message
          else let startedAt = (case r_startedAt r of Some x \<Rightarrow> x
                 | None \<Rightarrow> (case m_startedAt message of Some x \<Rightarrow> x | None \<Rightarrow> completedAt));
                 durationMs = max 0 (completedAt - startedAt)
               in message\<lparr>m_reasoning := Some (r\<lparr>r_startedAt := Some startedAt,
                    r_completedAt := Some completedAt,
                    r_durationMs := Some durationMs,
                    r_duration := of_int \<lceil>durationMs / 1000\<rceil>\<rparr>)\<rparr>)"

section \<open>Streaming\<close>

definition processStreamingContent :: "number \<Rightarrow> Message \<Rightarrow> string option \<Rightarrow> Message" where
  "processStreamingContent now message contentChunk =
     (let currentVersion = getCurrentVersion message;
          fullContent = (if truthy_str contentChunk
            then v_content currentVersion @ the contentChunk else v_content currentVersion)
      in if m_reasoning message = None \<and> \<not> contains fullContent OPEN_TAG
         then (updateCurrentVersionContent message fullContent)
                \<lparr>m_isReasoningStreaming := Some False\<rparr>
         else let parsed = parseThinkTags fullContent;
                  finalReasoning = (if t_reasoning parsed \<noteq> []
                    then Some ((startReasoningTiming message now)
                                 \<lparr>r_content := t_reasoning parsed\<rparr>)
                    else m_reasoning message)
              in (updateCurrentVersionContent message fullContent)
                   \<lparr>m_reasoning := finalReasoning,
                    m_isReasoningStreaming := Some (t_hasUnclosedTag parsed)\<rparr>)"

datatype StreamChunkType = ReasoningChunk | ContentChunk

definition getAppendableChunk :: "string \<Rightarrow> string \<Rightarrow> string" where
  "getAppendableChunk currentContent chunk =
     (if currentContent = [] \<or> \<not> prefix currentContent chunk then chunk
      else drop (length currentContent) chunk)"

definition applyStreamingChunk ::
  "number \<Rightarrow> Message \<Rightarrow> StreamChunkType \<Rightarrow> string \<Rightarrow> Message"
where
  "applyStreamingChunk now message type chunk =
     (if m_status message = Some Error then message
      else if type = ReasoningChunk
      then let reasoning = startReasoningTiming message now;
               appendableChunk = getAppendableChunk (r_content reasoning) chunk
           in message\<lparr>m_reasoning :=
                  Some (reasoning\<lparr>r_content := r_content reasoning @ appendableChunk\<rparr>),
                m_isReasoningStreaming := Some True,
                m_status := Some Streaming\<rparr>
      else let currentVersion = getCurrentVersion message;
               appendableChunk = getAppendableChunk (v_content currentVersion) chunk;
               contentMessage = processStreamingContent now message (Some appendableChunk)
           in (if m_isReasoningStreaming contentMessage = Some True then contentMessage
               else completeReasoningTiming contentMessage now)
                \<lparr>m_status := Some Streaming\<rparr>)"

definition finalizeMessage :: "number \<Rightarrow> Message \<Rightarrow> string option \<Rightarrow> Message" where
  "finalizeMessage now message apiReasoningContent =
     (let currentVersion = getCurrentVersion message;
          parsedThinkTags = (if contains (v_content currentVersion) OPEN_TAG
            then Some (parseThinkTags (v_content currentVersion)) else None);
          visibleContent = (case parsedThinkTags of Some p \<Rightarrow> t_visibleContent p
            | None \<Rightarrow> v_content currentVersion);
          finalReasoning = or_opt apiReasoningContent
            (or_opt (map_option r_content (m_reasoning message))
              (or_opt (map_option t_reasoning parsedThinkTags) []));
          finalized = (updateCurrentVersionContent message visibleContent)
            \<lparr>m_reasoning := (if finalReasoning \<noteq> []
                then Some ((startReasoningTiming message now)\<lparr>r_content := finalReasoning\<rparr>)
                else None),
             m_isReasoningStreaming := Some False\<rparr>
      in completeReasoningTiming finalized now)"

definition completeAssistantMessage :: "number \<Rightarrow> Message \<Rightarrow> Message" where
  "completeAssistantMessage now message =
     completeAssistantTiming ((finalizeMessage now message None)\<lparr>m_status := Some Complete\<rparr>) now"

definition isAssistantMessageFinal :: "Message \<Rightarrow> bool" where
  "isAssistantMessageFinal message \<longleftrightarrow>
     m_status message = Some Complete \<or> m_status message = Some Error"

definition isAssistantMessagePending :: "Message \<Rightarrow> bool" where
  "isAssistantMessagePending message \<longleftrightarrow>
     m_status message = Some Loading \<or> m_status message = Some Streaming"

definition isPendingAssistantMessage :: "Message option \<Rightarrow> bool" where
  "isPendingAssistantMessage message \<longleftrightarrow>
     (case message of None \<Rightarrow> False
      | Some m \<Rightarrow> m_from m = Assistant \<and> isAssistantMessagePending m)"

text \<open>
  A completion response: its choices, each with an optional message (the code guards
  against its absence) of a content and an optional reasoning.
\<close>

record ChoiceMessage =
  cm_content :: "string option"
  cm_reasoning_content :: "string option"

record ChatCompletionChoice =
  cc_message :: "ChoiceMessage option"

record ChatCompletionResponse =
  cr_choices :: "ChatCompletionChoice list option"

definition first_choice :: "ChatCompletionResponse \<Rightarrow> ChatCompletionChoice option" where
  "first_choice response =
     (case cr_choices response of Some (c # _) \<Rightarrow> Some c | _ \<Rightarrow> None)"

definition hasChatCompletionChoice :: "ChatCompletionResponse \<Rightarrow> bool" where
  "hasChatCompletionChoice response \<longleftrightarrow> first_choice response \<noteq> None"

definition applyChatCompletionChoice ::
  "number \<Rightarrow> Message \<Rightarrow> ChatCompletionChoice \<Rightarrow> Message"
where
  "applyChatCompletionChoice now message choice =
     completeAssistantTiming
       ((finalizeMessage now
          (updateCurrentVersionContent message
            (or_opt (Option.bind (cc_message choice) cm_content) []))
          (Option.bind (cc_message choice) cm_reasoning_content))
        \<lparr>m_status := Some Complete\<rparr>) now"

definition applyChatCompletionResponse ::
  "number \<Rightarrow> Message \<Rightarrow> ChatCompletionResponse \<Rightarrow> Message option"
where
  "applyChatCompletionResponse now message response =
     (case first_choice response of
        None \<Rightarrow> None
      | Some choice \<Rightarrow> Some (applyChatCompletionChoice now message choice))"

text \<open>The backwards search of \<open>sanitizeMessagesOnLoad\<close>.\<close>

definition find_last_index :: "('a \<Rightarrow> bool) \<Rightarrow> 'a list \<Rightarrow> nat option" where
  "find_last_index P xs = map_option (\<lambda>i. length xs - 1 - i) (find_index P (rev xs))"

definition sanitizeMessage :: "(string \<Rightarrow> string) \<Rightarrow> number \<Rightarrow> Message \<Rightarrow> Message" where
  "sanitizeMessage t now message =
     (let finalized = finalizeMessage now message None;
          hasContent = hasMessageContent finalized;
          hasReasoning = (case m_reasoning finalized of None \<Rightarrow> False
            | Some r \<Rightarrow> trim (r_content r) \<noteq> [])
      in if hasContent \<or> hasReasoning
         then completeAssistantTiming
                (finalized\<lparr>m_status := Some Complete, m_isReasoningStreaming := Some False\<rparr>) now
         else completeAssistantTiming
                ((updateCurrentVersionContent finalized
                    (t API_REQUEST_ERROR @ '': '' @ t INTERRUPTED))
                 \<lparr>m_status := Some Error, m_isReasoningStreaming := Some False\<rparr>) now)"

definition sanitizeMessagesOnLoad ::
  "(string \<Rightarrow> string) \<Rightarrow> number \<Rightarrow> Message list \<Rightarrow> Message list"
where
  "sanitizeMessagesOnLoad t now messages =
     (case find_last_index (\<lambda>m. isPendingAssistantMessage (Some m)) messages of
        None \<Rightarrow> messages
      | Some targetIndex \<Rightarrow>
          messages[targetIndex := sanitizeMessage t now (messages ! targetIndex)])"

section \<open>Updating the last assistant message\<close>

definition updateLastAssistantMessage ::
  "Message list \<Rightarrow> (Message \<Rightarrow> Message) \<Rightarrow> Message list"
where
  "updateLastAssistantMessage messages updater =
     (case last_opt messages of
        None \<Rightarrow> messages
      | Some lst \<Rightarrow>
          if m_from lst \<noteq> Assistant then messages
          else messages[length messages - 1 := updater lst])"

definition errorUpdate :: "number \<Rightarrow> string \<Rightarrow> string option \<Rightarrow> string \<Rightarrow> Message \<Rightarrow> Message" where
  "errorUpdate now errorMessage errorCode title message =
     completeAssistantTiming
       ((updateCurrentVersionContent message (title @ '': '' @ errorMessage))
        \<lparr>m_status := Some Error, m_isReasoningStreaming := Some False,
         m_errorCode := Some (if truthy_str errorCode then errorCode else None)\<rparr>) now"

definition updateAssistantMessageWithError ::
  "number \<Rightarrow> Message list \<Rightarrow> string \<Rightarrow> string option \<Rightarrow> string \<Rightarrow> Message list"
where
  "updateAssistantMessageWithError now messages errorMessage errorCode title =
     updateLastAssistantMessage messages (errorUpdate now errorMessage errorCode title)"

text \<open>A message just sent, used by the examples.\<close>

definition example_assistant :: Message where
  "example_assistant = createLoadingAssistantMessage ''k'' ''v'' 0"

section \<open>What each operation keeps\<close>

lemma completeAssistantTiming_fields [message_simps]:
  "m_key (completeAssistantTiming m c) = m_key m"
  "m_from (completeAssistantTiming m c) = m_from m"
  "m_versions (completeAssistantTiming m c) = m_versions m"
  "m_createdAt (completeAssistantTiming m c) = m_createdAt m"
  "m_reasoning (completeAssistantTiming m c) = m_reasoning m"
  "m_isReasoningStreaming (completeAssistantTiming m c) = m_isReasoningStreaming m"
  "m_status (completeAssistantTiming m c) = m_status m"
  "m_errorCode (completeAssistantTiming m c) = m_errorCode m"
  by (simp_all add: completeAssistantTiming_def Let_def)

lemma completeReasoningTiming_fields [message_simps]:
  "m_key (completeReasoningTiming m c) = m_key m"
  "m_from (completeReasoningTiming m c) = m_from m"
  "m_versions (completeReasoningTiming m c) = m_versions m"
  "m_createdAt (completeReasoningTiming m c) = m_createdAt m"
  "m_isReasoningStreaming (completeReasoningTiming m c) = m_isReasoningStreaming m"
  "m_status (completeReasoningTiming m c) = m_status m"
  "m_errorCode (completeReasoningTiming m c) = m_errorCode m"
  by (simp_all add: completeReasoningTiming_def Let_def split: option.splits)

lemma completeReasoningTiming_content [message_simps]:
  "map_option r_content (m_reasoning (completeReasoningTiming m c)) =
   map_option r_content (m_reasoning m)"
  by (simp add: completeReasoningTiming_def Let_def split: option.splits)

lemma getMessageContent_timing [message_simps]:
  "getMessageContent (completeAssistantTiming m c) = getMessageContent m"
  "getMessageContent (completeReasoningTiming m c) = getMessageContent m"
  by (simp_all add: getMessageContent_def getCurrentVersion_def message_simps)

lemma processStreamingContent_fields [message_simps]:
  "m_key (processStreamingContent now m c) = m_key m"
  "m_from (processStreamingContent now m c) = m_from m"
  "m_status (processStreamingContent now m c) = m_status m"
  by (simp_all add: processStreamingContent_def Let_def message_simps)

lemma processStreamingContent_content [message_simps]:
  "getMessageContent (processStreamingContent now m (Some c)) = getMessageContent m @ c"
  by (auto simp: processStreamingContent_def Let_def message_simps truthy_str_def
      getMessageContent_def [of m])

lemma applyStreamingChunk_fields [message_simps]:
  "m_key (applyStreamingChunk now m ty c) = m_key m"
  "m_from (applyStreamingChunk now m ty c) = m_from m"
  by (simp_all add: applyStreamingChunk_def Let_def message_simps)

lemma finalizeMessage_fields [message_simps]:
  "m_key (finalizeMessage now m r) = m_key m"
  "m_from (finalizeMessage now m r) = m_from m"
  "m_status (finalizeMessage now m r) = m_status m"
  "m_isReasoningStreaming (finalizeMessage now m r) = Some False"
  by (simp_all add: finalizeMessage_def Let_def message_simps)

lemma completeAssistantMessage_fields [message_simps]:
  "m_key (completeAssistantMessage now m) = m_key m"
  "m_from (completeAssistantMessage now m) = m_from m"
  "m_status (completeAssistantMessage now m) = Some Complete"
  "m_isReasoningStreaming (completeAssistantMessage now m) = Some False"
  by (simp_all add: completeAssistantMessage_def message_simps)

lemma applyChatCompletionChoice_fields [message_simps]:
  "m_key (applyChatCompletionChoice now m c) = m_key m"
  "m_from (applyChatCompletionChoice now m c) = m_from m"
  "m_status (applyChatCompletionChoice now m c) = Some Complete"
  by (simp_all add: applyChatCompletionChoice_def message_simps)

lemma sanitizeMessage_fields [message_simps]:
  "m_key (sanitizeMessage t now m) = m_key m"
  "m_from (sanitizeMessage t now m) = m_from m"
  "m_isReasoningStreaming (sanitizeMessage t now m) = Some False"
  by (simp_all add: sanitizeMessage_def Let_def message_simps)

lemma sanitizeMessage_final: "isAssistantMessageFinal (sanitizeMessage t now m)"
  by (simp add: sanitizeMessage_def Let_def message_simps isAssistantMessageFinal_def)

lemma errorUpdate_fields [message_simps]:
  "m_key (errorUpdate now e c title m) = m_key m"
  "m_from (errorUpdate now e c title m) = m_from m"
  "m_status (errorUpdate now e c title m) = Some Error"
  "m_isReasoningStreaming (errorUpdate now e c title m) = Some False"
  "getMessageContent (errorUpdate now e c title m) = title @ '': '' @ e"
  by (simp_all add: errorUpdate_def message_simps)

lemma versions_kept [message_simps]:
  "m_versions (updateCurrentVersionContent m c) \<noteq> []"
  by (simp add: updateCurrentVersionContent_def)

lemma processing_keeps_versions [message_simps]:
  "m_versions m \<noteq> [] \<Longrightarrow> m_versions (processStreamingContent now m c) \<noteq> []"
  "m_versions m \<noteq> [] \<Longrightarrow> m_versions (applyStreamingChunk now m ty d) \<noteq> []"
  by (auto simp: processStreamingContent_def applyStreamingChunk_def Let_def message_simps
      split: StreamChunkType.splits)

lemma finishing_keeps_versions [message_simps]:
  "m_versions (finalizeMessage now m r) \<noteq> []"
  "m_versions (completeAssistantMessage now m) \<noteq> []"
  "m_versions (applyChatCompletionChoice now m choice) \<noteq> []"
  "m_versions (sanitizeMessage t now m) \<noteq> []"
  "m_versions (errorUpdate now e c title m) \<noteq> []"
  by (simp_all add: finalizeMessage_def completeAssistantMessage_def applyChatCompletionChoice_def
      sanitizeMessage_def errorUpdate_def Let_def message_simps)

section \<open>The interface of a message update\<close>

text \<open>
  Every function handed to \<open>updateLastAssistantMessage\<close> keeps the key and the role of
  the message it rewrites. Under this contract the list keeps its keys, its roles and
  everything before its last element.
\<close>

locale message_update =
  fixes f :: "Message \<Rightarrow> Message"
  assumes keeps_key: "m_key (f m) = m_key m"
    and keeps_from: "m_from (f m) = m_from m"
    and keeps_versions: "m_versions m \<noteq> [] \<Longrightarrow> m_versions (f m) \<noteq> []"
begin

lemma update_last_keys:
  "map m_key (updateLastAssistantMessage ms f) = map m_key ms"
  by (cases ms rule: rev_cases)
    (simp_all add: updateLastAssistantMessage_def last_opt_def keeps_key list_update_append)

lemma update_last_roles:
  "map m_from (updateLastAssistantMessage ms f) = map m_from ms"
  by (cases ms rule: rev_cases)
    (simp_all add: updateLastAssistantMessage_def last_opt_def keeps_from list_update_append)

lemma update_last_butlast:
  "butlast (updateLastAssistantMessage ms f) = butlast ms"
  by (cases ms rule: rev_cases)
    (simp_all add: updateLastAssistantMessage_def last_opt_def list_update_append)

lemma update_last_versions:
  "\<forall>m \<in> set ms. m_versions m \<noteq> [] \<Longrightarrow>
   \<forall>m \<in> set (updateLastAssistantMessage ms f). m_versions m \<noteq> []"
  by (cases ms rule: rev_cases)
    (auto simp: updateLastAssistantMessage_def last_opt_def keeps_versions list_update_append)

lemma update_last_length:
  "length (updateLastAssistantMessage ms f) = length ms"
  by (metis length_map update_last_keys)

end

lemma updateLastAssistantMessage_snoc:
  "updateLastAssistantMessage (ms @ [m]) f = ms @ [if m_from m = Assistant then f m else m]"
  by (simp add: updateLastAssistantMessage_def last_opt_def list_update_append)

lemma updateLastAssistantMessage_Nil: "updateLastAssistantMessage [] f = []"
  by (simp add: updateLastAssistantMessage_def last_opt_def)

interpretation chunk_update: message_update "\<lambda>m. applyStreamingChunk now m ty c" for now ty c
  by unfold_locales (simp_all add: message_simps)

interpretation complete_update: message_update "completeAssistantMessage now" for now
  by unfold_locales (simp_all add: message_simps)

interpretation choice_update: message_update "\<lambda>m. applyChatCompletionChoice now m c" for now c
  by unfold_locales (simp_all add: message_simps)

interpretation error_update: message_update "errorUpdate now e c title" for now e c title
  by unfold_locales (simp_all add: message_simps)

section \<open>Chunks\<close>

text \<open>The text a chunk of each type goes to, and what one chunk does to it.\<close>

definition chunk_text :: "StreamChunkType \<Rightarrow> Message \<Rightarrow> string" where
  "chunk_text ty m = (case ty of
     ContentChunk \<Rightarrow> getMessageContent m
   | ReasoningChunk \<Rightarrow> (case m_reasoning m of None \<Rightarrow> [] | Some r \<Rightarrow> r_content r))"

definition absorb :: "string \<Rightarrow> string \<Rightarrow> string" where
  "absorb cur c = cur @ getAppendableChunk cur c"

lemma absorb_alt: "absorb cur c = (if cur \<noteq> [] \<and> prefix cur c then c else cur @ c)"
  by (auto simp: absorb_def getAppendableChunk_def prefix_def)

lemma chunk_text_apply:
  "m_status m \<noteq> Some Error \<Longrightarrow>
   chunk_text ty (applyStreamingChunk now m ty c) = absorb (chunk_text ty m) c"
  by (cases ty)
    (simp_all add: chunk_text_def applyStreamingChunk_def Let_def message_simps absorb_def
      startReasoningTiming_def getMessageContent_def [of m] split: option.splits)

lemma status_apply [message_simps]:
  "m_status (applyStreamingChunk now m ty c) =
   (if m_status m = Some Error then Some Error else Some Streaming)"
  by (simp add: applyStreamingChunk_def Let_def message_simps)

lemma apply_error: "m_status m = Some Error \<Longrightarrow> applyStreamingChunk now m ty c = m"
  by (simp add: applyStreamingChunk_def)

lemma absorb_appends_iff: "absorb cur c = cur @ c \<longleftrightarrow> cur = [] \<or> \<not> prefix cur c"
  by (auto simp: absorb_alt)

abbreviation apply_chunks :: "StreamChunkType \<Rightarrow> (number \<times> string) list \<Rightarrow> Message \<Rightarrow> Message" where
  "apply_chunks ty cs m \<equiv> foldl (\<lambda>m (now, c). applyStreamingChunk now m ty c) m cs"

lemma apply_chunks_text:
  "m_status m \<noteq> Some Error \<Longrightarrow>
   m_status (apply_chunks ty cs m) \<noteq> Some Error \<and>
   chunk_text ty (apply_chunks ty cs m) = foldl absorb (chunk_text ty m) (map snd cs)"
proof (induction cs arbitrary: m)
  case Nil
  then show ?case by simp
next
  case (Cons p cs)
  obtain now c where p: "p = (now, c)" by (cases p)
  have "m_status (applyStreamingChunk now m ty c) \<noteq> Some Error"
    using Cons.prems by (simp add: status_apply)
  from Cons.IH [OF this] show ?case by (simp add: p chunk_text_apply [OF Cons.prems])
qed

lemma foldl_absorb_snapshots:
  "sorted_wrt prefix (cur # cs) \<Longrightarrow> foldl absorb cur cs = last (cur # cs)"
  by (induction cs arbitrary: cur) (auto simp: absorb_alt)

lemma foldl_absorb_deltas:
  "(\<forall>i < length cs. cur @ concat (take i cs) = [] \<or> \<not> prefix (cur @ concat (take i cs)) (cs ! i))
   \<Longrightarrow> foldl absorb cur cs = cur @ concat cs"
proof (induction cs arbitrary: cur)
  case Nil
  then show ?case by simp
next
  case (Cons c cs)
  have "cur = [] \<or> \<not> prefix cur c" using Cons.prems [rule_format, of 0] by simp
  then have c: "absorb cur c = cur @ c" by (simp add: absorb_appends_iff)
  have "foldl absorb (cur @ c) cs = (cur @ c) @ concat cs"
  proof (rule Cons.IH, intro allI impI)
    fix i assume "i < length cs"
    with Cons.prems [rule_format, of "Suc i"] show "(cur @ c) @ concat (take i cs) = []
        \<or> \<not> prefix ((cur @ c) @ concat (take i cs)) (cs ! i)"
      by simp
  qed
  with c show ?case by simp
qed

section \<open>Closing\<close>

definition visible_text :: "string \<Rightarrow> string" where
  "visible_text s = (if contains s OPEN_TAG then t_visibleContent (parseThinkTags s) else s)"

definition tag_reasoning :: "string \<Rightarrow> string" where
  "tag_reasoning s = (if contains s OPEN_TAG then t_reasoning (parseThinkTags s) else [])"

lemma finalizeMessage_content:
  "getMessageContent (finalizeMessage now m r) = visible_text (getMessageContent m)"
  by (simp add: finalizeMessage_def Let_def message_simps visible_text_def
      getMessageContent_def [of m])

lemma finalizeMessage_reasoning:
  "map_option r_content (m_reasoning (finalizeMessage now m None)) =
     (let r = or_str (chunk_text ReasoningChunk m) (tag_reasoning (getMessageContent m))
      in if r = [] then None else Some r)"
  by (simp add: finalizeMessage_def Let_def message_simps chunk_text_def tag_reasoning_def
      or_opt_def or_str_def getMessageContent_def split: option.splits)

lemma completeReasoningTiming_timed:
  "m_reasoning (completeReasoningTiming m c) = Some r \<Longrightarrow> r_durationMs r \<noteq> None"
  by (auto simp: completeReasoningTiming_def Let_def split: option.splits if_splits)

lemma finalizeMessage_timed:
  "m_reasoning (finalizeMessage now m r) = Some x \<Longrightarrow> r_durationMs x \<noteq> None"
  by (auto simp: finalizeMessage_def Let_def dest!: completeReasoningTiming_timed)

lemma completeAssistantMessage_timing:
  "m_from m = Assistant \<Longrightarrow>
   m_completedAt (completeAssistantMessage now m) = Some now
   \<and> (\<exists>d \<ge> 0. m_durationMs (completeAssistantMessage now m) = Some d)"
  by (simp add: completeAssistantMessage_def completeAssistantTiming_def Let_def message_simps)

lemma sanitizeMessage_completedAt:
  "m_from m = Assistant \<Longrightarrow> m_completedAt (sanitizeMessage t now m) = Some now"
  by (simp add: sanitizeMessage_def completeAssistantTiming_def Let_def message_simps)

lemma find_last_index_found:
  "P x \<Longrightarrow> \<forall>y \<in> set post. \<not> P y \<Longrightarrow> find_last_index P (pre @ x # post) = Some (length pre)"
  by (simp add: find_last_index_def find_index_append)

section \<open>Properties\<close>

text \<open>
  A stream of snapshots. When every chunk extends the text so far (an upstream that
  resends the whole text), the message ends up with the last chunk, in status streaming,
  for the visible content and for the reasoning alike.
\<close>

theorem streaming_snapshots:
  assumes "m_status m \<noteq> Some Error" and "sorted_wrt prefix (chunk_text ty m # map snd cs)"
    and "cs \<noteq> []"
  shows "chunk_text ty (apply_chunks ty cs m) = snd (last cs)
    \<and> m_status (apply_chunks ty cs m) = Some Streaming"
proof -
  obtain cs' c where cs: "cs = cs' @ [c]" using assms(3) by (cases cs rule: rev_cases) auto
  have "m_status (apply_chunks ty cs' m) \<noteq> Some Error"
    using apply_chunks_text [OF assms(1)] by blast
  then have "m_status (apply_chunks ty cs m) = Some Streaming"
    by (simp add: cs message_simps split: prod.splits)
  moreover have "chunk_text ty (apply_chunks ty cs m) = snd (last cs)"
    using apply_chunks_text [OF assms(1), of ty cs] foldl_absorb_snapshots [OF assms(2)] assms(3)
    by (simp add: last_map)
  ultimately show ?thesis by blast
qed

theorem streaming_snapshots_witness:
  "m_status example_assistant \<noteq> Some Error
   \<and> chunk_text ContentChunk
       (apply_chunks ContentChunk [(1, ''He''), (2, ''Hello'')] example_assistant) = ''Hello''"
proof -
  have h: "m_status example_assistant \<noteq> Some Error"
    "sorted_wrt prefix (chunk_text ContentChunk example_assistant
      # map snd [(1 :: number, ''He''), (2, ''Hello'')])"
    by (simp_all add: example_assistant_def createLoadingAssistantMessage_def chunk_text_def
        getMessageContent_def getCurrentVersion_def createMessageVersion_def)
  show ?thesis using streaming_snapshots [OF h] h(1) by simp
qed

text \<open>
  (C21) A stream of deltas. One chunk is appended to the text exactly when the text is still
  empty or the chunk does not start with the whole text so far; otherwise it replaces the
  text. Hence a stream of increments is reassembled without loss when no increment starts
  with what precedes it.
\<close>

theorem streaming_deltas:
  assumes "m_status m \<noteq> Some Error"
  shows "(chunk_text ty (applyStreamingChunk now m ty c) = chunk_text ty m @ c
      \<longleftrightarrow> chunk_text ty m = [] \<or> \<not> prefix (chunk_text ty m) c)
    \<and> ((\<forall>i < length cs. chunk_text ty m @ concat (take i (map snd cs)) = []
         \<or> \<not> prefix (chunk_text ty m @ concat (take i (map snd cs))) (snd (cs ! i)))
       \<longrightarrow> chunk_text ty (apply_chunks ty cs m) = chunk_text ty m @ concat (map snd cs))"
  using apply_chunks_text [OF assms, of ty cs] foldl_absorb_deltas [of "map snd cs" "chunk_text ty m"]
  by (simp add: chunk_text_apply [OF assms] absorb_appends_iff)

theorem streaming_deltas_witness:
  "m_status example_assistant \<noteq> Some Error
   \<and> chunk_text ContentChunk
       (apply_chunks ContentChunk [(1, ''Hel''), (2, ''lo'')] example_assistant) = ''Hello''
   \<and> chunk_text ContentChunk
       (applyStreamingChunk 2 (applyStreamingChunk 1 example_assistant ContentChunk ''ha'')
         ContentChunk ''haha'') \<noteq> ''hahaha''"
proof -
  have h: "m_status example_assistant \<noteq> Some Error"
    and t: "chunk_text ContentChunk example_assistant = []"
    by (simp_all add: example_assistant_def createLoadingAssistantMessage_def chunk_text_def
        getMessageContent_def getCurrentVersion_def createMessageVersion_def)
  have nop: "\<not> prefix ''Hel'' ''lo''" by simp
  let ?cs = "[(1 :: number, ''Hel''), (2, ''lo'')]"
  have pre: "\<forall>i < length ?cs. concat (take i (map snd ?cs)) = []
      \<or> \<not> prefix (concat (take i (map snd ?cs))) (snd (?cs ! i))"
    using nop by (auto simp: less_Suc_eq)
  have 1: "chunk_text ContentChunk (apply_chunks ContentChunk ?cs example_assistant) = ''Hello''"
    using streaming_deltas [OF h, of ContentChunk 1 "[]" ?cs] pre by (simp add: t)
  let ?m = "applyStreamingChunk 1 example_assistant ContentChunk ''ha''"
  have tm: "chunk_text ContentChunk ?m = ''ha''" and hm: "m_status ?m \<noteq> Some Error"
    using h by (simp_all add: chunk_text_apply t absorb_alt message_simps)
  have "chunk_text ContentChunk (applyStreamingChunk 2 ?m ContentChunk ''haha'') \<noteq> ''ha'' @ ''haha''"
    using streaming_deltas [OF hm, of ContentChunk 2 "''haha''" "[]"] by (simp add: tm)
  with h 1 show ?thesis by simp
qed

text \<open>
  (C22) Loading a stored conversation repairs its last pending assistant message and nothing
  else: that message becomes final (an error exactly when it has neither text nor reasoning,
  with the interruption text), keeps its key, and no reasoning indicator stays on. Every
  message before it is left as it is, a pending one included.
\<close>

theorem sanitizeMessagesOnLoad_repairs_last_pending:
  assumes "isPendingAssistantMessage (Some m)"
    and "\<forall>x \<in> set post. \<not> isPendingAssistantMessage (Some x)"
  shows "\<exists>m'. sanitizeMessagesOnLoad t now (pre @ m # post) = pre @ m' # post
    \<and> isAssistantMessageFinal m' \<and> m_key m' = m_key m \<and> m_from m' = Assistant
    \<and> m_isReasoningStreaming m' = Some False \<and> m_completedAt m' = Some now
    \<and> (m_status m' = Some Error \<longleftrightarrow> \<not> hasMessageContent (finalizeMessage now m None)
        \<and> (\<forall>r. m_reasoning (finalizeMessage now m None) = Some r \<longrightarrow> trim (r_content r) = []))
    \<and> (m_status m' = Some Error \<longrightarrow> getMessageContent m' = t API_REQUEST_ERROR @ '': '' @ t INTERRUPTED)"
proof (intro exI conjI)
  show "sanitizeMessagesOnLoad t now (pre @ m # post) = pre @ sanitizeMessage t now m # post"
    using assms by (simp add: sanitizeMessagesOnLoad_def find_last_index_found)
  show "m_from (sanitizeMessage t now m) = Assistant"
    using assms(1) by (simp add: message_simps isPendingAssistantMessage_def)
  show "m_completedAt (sanitizeMessage t now m) = Some now"
    using assms(1) by (simp add: sanitizeMessage_completedAt isPendingAssistantMessage_def)
  show "m_status (sanitizeMessage t now m) = Some Error \<longleftrightarrow>
      \<not> hasMessageContent (finalizeMessage now m None)
      \<and> (\<forall>r. m_reasoning (finalizeMessage now m None) = Some r \<longrightarrow> trim (r_content r) = [])"
    by (simp add: sanitizeMessage_def Let_def message_simps split: option.splits)
  show "m_status (sanitizeMessage t now m) = Some Error \<longrightarrow>
      getMessageContent (sanitizeMessage t now m) = t API_REQUEST_ERROR @ '': '' @ t INTERRUPTED"
    by (simp add: sanitizeMessage_def Let_def message_simps)
qed (simp_all add: sanitizeMessage_final message_simps)

theorem sanitizeMessagesOnLoad_repairs_last_pending_witness:
  "isPendingAssistantMessage (Some example_assistant)
   \<and> (\<exists>m'. sanitizeMessagesOnLoad id 5 [example_assistant, example_assistant]
         = [example_assistant, m'] \<and> m_status m' = Some Error)"
proof -
  have p: "isPendingAssistantMessage (Some example_assistant)"
    by (simp add: example_assistant_def createLoadingAssistantMessage_def
        isPendingAssistantMessage_def isAssistantMessagePending_def)
  have e: "\<not> hasMessageContent (finalizeMessage 5 example_assistant None)
      \<and> m_reasoning (finalizeMessage 5 example_assistant None) = None"
    by code_simp
  from sanitizeMessagesOnLoad_repairs_last_pending [OF p, of "[]" id 5 "[example_assistant]"] e
  show ?thesis using p by auto
qed

text \<open>
  Completing a reply closes the message: it is complete, timed with a non-negative
  duration, shows the text outside the think tags, and its reasoning is the streamed
  reasoning or, when there is none, the text inside the tags; an empty reasoning is dropped
  and a kept one has a duration.
\<close>

theorem completeAssistantMessage_closes:
  assumes "m_from m = Assistant"
  shows "m_status (completeAssistantMessage now m) = Some Complete
    \<and> m_isReasoningStreaming (completeAssistantMessage now m) = Some False
    \<and> m_completedAt (completeAssistantMessage now m) = Some now
    \<and> (\<exists>d \<ge> 0. m_durationMs (completeAssistantMessage now m) = Some d)
    \<and> getMessageContent (completeAssistantMessage now m) = visible_text (getMessageContent m)
    \<and> map_option r_content (m_reasoning (completeAssistantMessage now m)) =
        (let r = or_str (chunk_text ReasoningChunk m) (tag_reasoning (getMessageContent m))
         in if r = [] then None else Some r)
    \<and> (\<forall>r. m_reasoning (completeAssistantMessage now m) = Some r \<longrightarrow> r_durationMs r \<noteq> None)"
  using completeAssistantMessage_timing [OF assms, of now]
  by (simp add: finalizeMessage_content finalizeMessage_reasoning
      finalizeMessage_timed completeAssistantMessage_def message_simps)

theorem completeAssistantMessage_closes_witness:
  "m_from example_assistant = Assistant
   \<and> m_status (completeAssistantMessage 7 example_assistant) = Some Complete"
  using completeAssistantMessage_closes [of example_assistant 7]
  by (simp add: example_assistant_def createLoadingAssistantMessage_def)

end
