(* ===== verification/Pg_Conversation.thy ===== *)
theory Pg_Conversation
  imports Pg_Streaming
begin

text \<open>
  Edits of the conversation, \<open>lib/message/conversation-message-utils.ts\<close>, and what the
  chat shows of a message: \<open>message-content-utils.ts\<close>, \<open>message-error-utils.ts\<close>,
  \<open>message-action-utils.ts\<close>, \<open>message-editor-utils.ts\<close> and
  \<open>message-layout-utils.ts\<close>. The identifiers \<open>nanoid()\<close> returns are arguments.
\<close>

section \<open>Operations on the conversation\<close>

definition appendUserMessagePair ::
  "string \<times> string \<Rightarrow> string \<times> string \<Rightarrow> number \<Rightarrow> Message list \<Rightarrow> string \<Rightarrow> Message list"
where
  "appendUserMessagePair uid aid submittedAt messages content =
     messages @ [createUserMessage (fst uid) (snd uid) content submittedAt,
                 createLoadingAssistantMessage (fst aid) (snd aid) submittedAt]"

definition createRegeneratedMessages ::
  "string \<times> string \<Rightarrow> number \<Rightarrow> Message list \<Rightarrow> string \<Rightarrow> Message list option"
where
  "createRegeneratedMessages aid now messages messageKey =
     (case find_index (\<lambda>message. m_key message = messageKey) messages of
        None \<Rightarrow> None
      | Some messageIndex \<Rightarrow>
          if m_from (messages ! messageIndex) = User
          then Some (slice 0 (messageIndex + 1) messages
                     @ [createLoadingAssistantMessage (fst aid) (snd aid) now])
          else Some (slice 0 messageIndex messages
                     @ [createLoadingAssistantMessage (fst aid) (snd aid) now]))"

definition removeMessageByKey :: "Message list \<Rightarrow> string \<Rightarrow> Message list" where
  "removeMessageByKey messages messageKey =
     filter (\<lambda>message. m_key message \<noteq> messageKey) messages"

text \<open>The loop reads \<open>messages[index].from\<close>, which throws outside the array.\<close>

fun getPreviousUserMessage :: "Message list \<Rightarrow> nat \<Rightarrow> js_error + Message option" where
  "getPreviousUserMessage messages 0 = Inr None"
| "getPreviousUserMessage messages (Suc index) =
     (if length messages \<le> index then Inl TypeError
      else if m_from (messages ! index) = User then Inr (Some (messages ! index))
      else getPreviousUserMessage messages index)"

record ApplyMessageEditResult =
  e_messages :: "Message list"
  e_shouldSend :: bool

definition editMessage :: "number \<Rightarrow> string \<Rightarrow> string \<Rightarrow> bool \<Rightarrow> Message \<Rightarrow> Message" where
  "editMessage submittedAt messageKey content shouldSubmit message =
     (if m_key message = messageKey
      then (updateCurrentVersionContent message content)
             \<lparr>m_createdAt := (if shouldSubmit then Some submittedAt else m_createdAt message)\<rparr>
      else message)"

definition applyMessageEdit ::
  "string \<times> string \<Rightarrow> number \<Rightarrow> Message list \<Rightarrow> string \<Rightarrow> string \<Rightarrow> bool
   \<Rightarrow> ApplyMessageEditResult option"
where
  "applyMessageEdit aid submittedAt messages messageKey content shouldSubmit =
     (case find_index (\<lambda>message. m_key message = messageKey) messages of
        None \<Rightarrow> None
      | Some messageIndex \<Rightarrow>
          let updatedMessages = map (editMessage submittedAt messageKey content shouldSubmit) messages
          in if \<not> shouldSubmit \<or> m_from (updatedMessages ! messageIndex) \<noteq> User
             then Some \<lparr>e_messages = updatedMessages, e_shouldSend = False\<rparr>
             else Some \<lparr>e_messages = slice 0 (messageIndex + 1) updatedMessages
                         @ [createLoadingAssistantMessage (fst aid) (snd aid) submittedAt],
                       e_shouldSend = True\<rparr>)"

definition getEditingMessageContent :: "Message list \<Rightarrow> string option \<Rightarrow> string" where
  "getEditingMessageContent messages editingKey =
     (if \<not> truthy_str editingKey then []
      else (case find (\<lambda>item. Some (m_key item) = editingKey) messages of
              Some message \<Rightarrow> getMessageContent message
            | None \<Rightarrow> []))"

record ChatMessageRenderState =
  cs_alwaysShowActions :: bool
  cs_content :: string
  cs_isEditing :: bool

definition getChatMessageRenderState ::
  "Message list \<Rightarrow> Message \<Rightarrow> int \<Rightarrow> string option \<Rightarrow> ChatMessageRenderState"
where
  "getChatMessageRenderState messages message messageIndex editingKey =
     \<lparr>cs_alwaysShowActions =
        (messageIndex = int (length messages) - 1 \<and> m_from message = Assistant),
      cs_content = getMessageContent message,
      cs_isEditing = (editingKey = Some (m_key message))\<rparr>"

section \<open>What is shown of a message\<close>

record MessageContentState =
  st_displayContent :: string
  st_hasSources :: bool
  st_isAssistant :: bool
  st_showLoader :: bool
  st_showMessageContent :: bool
  st_sources :: "Source list"
  st_hasReasoning :: bool
  st_reasoningContent :: "string option"

definition shouldShowMessageLoader :: "Message \<Rightarrow> bool \<Rightarrow> string \<Rightarrow> bool" where
  "shouldShowMessageLoader message isAssistant versionContent \<longleftrightarrow>
     isAssistant \<and> m_isReasoningStreaming message \<noteq> Some True \<and>
     (m_status message = Some Loading \<or>
      (m_status message = Some Streaming \<and> versionContent = []))"

definition shouldShowMessageContent :: "Message \<Rightarrow> string \<Rightarrow> bool" where
  "shouldShowMessageContent message versionContent \<longleftrightarrow>
     (m_from message = User \<or> m_isReasoningStreaming message \<noteq> Some True) \<and>
     0 < length versionContent"

definition getDisplayContent :: "Message \<Rightarrow> string \<Rightarrow> string" where
  "getDisplayContent message versionContent =
     (if m_from message \<noteq> Assistant then versionContent
      else if \<not> contains versionContent OPEN_TAG then versionContent
      else t_visibleContent (parseThinkTags versionContent))"

definition getMessageContentState :: "Message \<Rightarrow> string \<Rightarrow> MessageContentState" where
  "getMessageContentState message versionContent =
     (let isAssistant = (m_from message = Assistant);
          sources = (case m_sources message of Some s \<Rightarrow> s | None \<Rightarrow> []);
          reasoningContent =
            (if isAssistant then map_option r_content (m_reasoning message) else None);
          baseState = \<lparr>st_displayContent = getDisplayContent message versionContent,
            st_hasSources = (0 < length sources),
            st_isAssistant = isAssistant,
            st_showLoader = shouldShowMessageLoader message isAssistant versionContent,
            st_showMessageContent = shouldShowMessageContent message versionContent,
            st_sources = sources,
            st_hasReasoning = False,
            st_reasoningContent = None\<rparr>
      in if truthy_str reasoningContent
         then baseState\<lparr>st_hasReasoning := True, st_reasoningContent := reasoningContent\<rparr>
         else baseState)"

definition MODEL_PRICING_SETTINGS_PATH :: string where
  "MODEL_PRICING_SETTINGS_PATH = ''/system-settings/billing/model-pricing''"

definition MODEL_PRICE_ERROR_CODE :: string where
  "MODEL_PRICE_ERROR_CODE = ''model_price_error''"

definition FALLBACK_ERROR_CONTENT :: string where
  "FALLBACK_ERROR_CONTENT = ''An unknown error occurred''"

datatype ErrorKind = Generic | ModelPrice

record MessageErrorState =
  er_content :: string
  er_kind :: ErrorKind
  er_showSettingsLink :: bool

definition isAdminRole :: "int option \<Rightarrow> bool" where
  "isAdminRole role \<longleftrightarrow> (case role of None \<Rightarrow> False | Some r \<Rightarrow> 10 \<le> r)"

definition isErrorMessage :: "Message \<Rightarrow> bool" where
  "isErrorMessage message \<longleftrightarrow> m_status message = Some Error"

definition getMessageErrorState :: "Message \<Rightarrow> bool \<Rightarrow> MessageErrorState option" where
  "getMessageErrorState message isAdmin =
     (if \<not> isErrorMessage message then None
      else let content = or_str (getMessageContent message) FALLBACK_ERROR_CONTENT;
               isModelPriceError = (m_errorCode message = Some (Some MODEL_PRICE_ERROR_CODE))
           in Some \<lparr>er_content = content,
                er_kind = (if isModelPriceError then ModelPrice else Generic),
                er_showSettingsLink = (isModelPriceError \<and> isAdmin)\<rparr>)"

record MessageActionState =
  ac_content :: string
  ac_hasContent :: bool
  ac_isAssistant :: bool
  ac_isLoading :: bool
  ac_isUser :: bool

definition getMessageActionState :: "Message \<Rightarrow> MessageActionState" where
  "getMessageActionState message =
     \<lparr>ac_content = getMessageContent message,
      ac_hasContent = hasMessageContent message,
      ac_isAssistant = (m_from message = Assistant),
      ac_isLoading = (m_status message = Some Loading \<or> m_status message = Some Streaming),
      ac_isUser = (m_from message = User)\<rparr>"

definition getMessageActionsVisibilityClass :: "bool \<Rightarrow> string" where
  "getMessageActionsVisibilityClass alwaysVisible =
     (if alwaysVisible then ''opacity-100''
      else ''opacity-0 group-hover:opacity-100 max-md:opacity-100'')"

record MessageEditorState =
  ed_canSave :: bool
  ed_hasChanged :: bool
  ed_showSaveAndSubmit :: bool

definition getMessageEditorState :: "Message \<Rightarrow> string \<Rightarrow> string \<Rightarrow> MessageEditorState" where
  "getMessageEditorState message editText originalText =
     (let hasText = (0 < length (trim editText)); hasChanged = (editText \<noteq> originalText)
      in \<lparr>ed_canSave = (hasText \<and> hasChanged), ed_hasChanged = hasChanged,
          ed_showSaveAndSubmit = (m_from message = User)\<rparr>)"

datatype LayoutMode = Alternating | LeftLayout

datatype MessageAlignment = AlignLeft | AlignRight

definition getMessageAlignment :: "Message \<Rightarrow> LayoutMode \<Rightarrow> MessageAlignment" where
  "getMessageAlignment message layoutMode =
     (if layoutMode = LeftLayout then AlignLeft
      else if m_from message = User then AlignRight else AlignLeft)"

definition getMessageAlignmentClass :: "MessageAlignment \<Rightarrow> string" where
  "getMessageAlignmentClass alignment =
     (if alignment = AlignRight then ''items-end text-right'' else ''items-start text-left'')"

section \<open>A well-formed conversation\<close>

text \<open>Keys are unique and only the last message may be waiting for its reply.\<close>

definition conversation_ok :: "Message list \<Rightarrow> bool" where
  "conversation_ok ms \<longleftrightarrow> distinct (map m_key ms)
     \<and> (\<forall>m \<in> set (butlast ms). \<not> isPendingAssistantMessage (Some m))"

definition settled :: "Message list \<Rightarrow> bool" where
  "settled ms \<longleftrightarrow> distinct (map m_key ms)
     \<and> (\<forall>m \<in> set ms. \<not> isPendingAssistantMessage (Some m))"

lemma find_index_key:
  "m_key m \<notin> m_key ` set pre \<Longrightarrow>
   find_index (\<lambda>x. m_key x = m_key m) (pre @ m # post) = Some (length pre)"
  by (subst find_index_append) (auto simp: image_iff)

lemma find_index_key_None:
  "find_index (\<lambda>x. m_key x = k) ms = None \<longleftrightarrow> k \<notin> m_key ` set ms"
  by (auto simp: find_index_None)

lemma split_at_key:
  assumes "find_index (\<lambda>x. m_key x = k) ms = Some i"
  obtains pre m post where "ms = pre @ m # post" "length pre = i" "m_key m = k"
    "k \<notin> m_key ` set pre"
proof -
  from find_index_SomeD [OF assms] have i: "i < length ms" "m_key (ms ! i) = k"
    and before: "\<forall>j < i. m_key (ms ! j) \<noteq> k" by auto
  have "ms = take i ms @ ms ! i # drop (Suc i) ms" using i(1) by (rule id_take_nth_drop)
  moreover have "k \<notin> m_key ` set (take i ms)"
    using before i(1) by (fastforce simp: in_set_conv_nth)
  ultimately show thesis using that i by simp
qed

lemma createRegenerated_split:
  "m_key m \<notin> m_key ` set pre \<Longrightarrow>
   createRegeneratedMessages aid now (pre @ m # post) (m_key m) =
   Some (pre @ (if m_from m = User then [m] else [])
         @ [createLoadingAssistantMessage (fst aid) (snd aid) now])"
  by (simp add: createRegeneratedMessages_def find_index_key slice_def)

lemma createRegenerated_None:
  "k \<notin> m_key ` set ms \<Longrightarrow> createRegeneratedMessages aid now ms k = None"
  by (simp add: createRegeneratedMessages_def find_index_key_None [THEN iffD2])

lemma createRegenerated_SomeE:
  assumes "createRegeneratedMessages aid now ms k = Some ms'"
  obtains pre m post where "ms = pre @ m # post" "m_key m = k" "k \<notin> m_key ` set pre"
    "ms' = pre @ (if m_from m = User then [m] else [])
         @ [createLoadingAssistantMessage (fst aid) (snd aid) now]"
proof -
  from assms obtain i where "find_index (\<lambda>x. m_key x = k) ms = Some i"
    by (auto simp: createRegeneratedMessages_def split: option.splits)
  from split_at_key [OF this] obtain pre m post where
    *: "ms = pre @ m # post" "m_key m = k" "k \<notin> m_key ` set pre" by metis
  with assms createRegenerated_split [of m pre aid now post] that show thesis by simp
qed

lemma editMessage_fields [message_simps]:
  "m_key (editMessage now k c b m) = m_key m"
  "m_from (editMessage now k c b m) = m_from m"
  "m_status (editMessage now k c b m) = m_status m"
  by (simp_all add: editMessage_def message_simps)

lemma editMessage_other: "m_key m \<noteq> k \<Longrightarrow> editMessage now k c b m = m"
  by (simp add: editMessage_def)

lemma map_editMessage_other:
  "k \<notin> m_key ` set ms \<Longrightarrow> map (editMessage now k c b) ms = ms"
  by (induction ms) (auto simp: editMessage_other)

lemma applyMessageEdit_split:
  assumes "m_key m \<notin> m_key ` set pre" and "m_key m \<notin> m_key ` set post"
  shows "applyMessageEdit aid now (pre @ m # post) (m_key m) content submit =
    (let m' = editMessage now (m_key m) content submit m
     in if submit \<and> m_from m = User
        then Some \<lparr>e_messages = pre @ [m', createLoadingAssistantMessage (fst aid) (snd aid) now],
               e_shouldSend = True\<rparr>
        else Some \<lparr>e_messages = pre @ m' # post, e_shouldSend = False\<rparr>)"
  using assms
  by (simp add: applyMessageEdit_def find_index_key slice_def map_editMessage_other Let_def
      message_simps nth_append)

lemma isPending_edit:
  "isPendingAssistantMessage (Some (editMessage now k c b m)) = isPendingAssistantMessage (Some m)"
  by (simp add: isPendingAssistantMessage_def isAssistantMessagePending_def message_simps)

lemma isPending_user: "m_from m = User \<Longrightarrow> \<not> isPendingAssistantMessage (Some m)"
  by (simp add: isPendingAssistantMessage_def)

lemma created_fields [message_simps]:
  "m_key (createLoadingAssistantMessage k v now) = k"
  "m_from (createLoadingAssistantMessage k v now) = Assistant"
  "m_key (createUserMessage k v c now) = k"
  "m_from (createUserMessage k v c now) = User"
  by (simp_all add: createLoadingAssistantMessage_def createUserMessage_def)

lemma set_butlast_filter: "set (butlast (filter P xs)) \<subseteq> set (butlast xs)"
  by (induction xs rule: rev_induct) (auto simp: butlast_append dest: in_set_butlastD)

lemma conversation_ok_prefix:
  assumes "conversation_ok (pre @ m # post)" and "k \<notin> m_key ` set (pre @ m # post)"
    and "m_key u = m_key m" "\<not> isPendingAssistantMessage (Some u)" "m_key a = k"
  shows "conversation_ok (pre @ [a])" and "conversation_ok (pre @ [u, a])"
  using assms by (auto simp: conversation_ok_def butlast_append)

section \<open>Properties\<close>

text \<open>
  Regenerating from a message truncates the conversation there. A user message is kept
  and everything after it goes; any other message goes too; one new loading assistant message
  is appended. With an unknown key nothing is produced.
\<close>

theorem createRegeneratedMessages_truncates:
  assumes "m_key m \<notin> m_key ` set pre" and "k \<notin> m_key ` set (pre @ m # post)"
  shows "createRegeneratedMessages aid now (pre @ m # post) (m_key m) =
      Some (pre @ (if m_from m = User then [m] else [])
            @ [createLoadingAssistantMessage (fst aid) (snd aid) now])
    \<and> createRegeneratedMessages aid now (pre @ m # post) k = None"
  using createRegenerated_split [OF assms(1)] createRegenerated_None [OF assms(2)] by blast

theorem createRegeneratedMessages_truncates_witness:
  "createRegeneratedMessages (''n'', ''w'') 9
     [createUserMessage ''u'' ''v'' ''hi'' 1, example_assistant] ''k''
   = Some [createUserMessage ''u'' ''v'' ''hi'' 1, createLoadingAssistantMessage ''n'' ''w'' 9]"
proof -
  have "m_key example_assistant = ''k''" "m_from example_assistant = Assistant"
    by (simp_all add: example_assistant_def message_simps)
  then show ?thesis
    using createRegeneratedMessages_truncates
      [of example_assistant "[createUserMessage ''u'' ''v'' ''hi'' 1]" "''z''" "[]" "(''n'', ''w'')" 9]
    by (simp add: message_simps)
qed

text \<open>
  Editing a message. Saving replaces the content of that message only and sends nothing;
  saving and submitting a user message also drops everything after it, appends one loading
  assistant message and asks for a reply; for another role submitting only saves.
\<close>

theorem applyMessageEdit_edits:
  assumes "distinct (map m_key (pre @ m # post))"
  shows "\<exists>m'. getMessageContent m' = content \<and> m_key m' = m_key m \<and> m_from m' = m_from m
    \<and> m_status m' = m_status m
    \<and> m_createdAt m' = (if submit then Some now else m_createdAt m)
    \<and> applyMessageEdit aid now (pre @ m # post) (m_key m) content submit = Some
        (if submit \<and> m_from m = User
         then \<lparr>e_messages = pre @ [m', createLoadingAssistantMessage (fst aid) (snd aid) now],
               e_shouldSend = True\<rparr>
         else \<lparr>e_messages = pre @ m' # post, e_shouldSend = False\<rparr>)"
  using assms
  by (intro exI [of _ "editMessage now (m_key m) content submit m"])
    (auto simp: applyMessageEdit_split message_simps, simp_all add: editMessage_def message_simps)

theorem applyMessageEdit_edits_witness:
  "\<exists>m'. getMessageContent m' = ''yo'' \<and>
   applyMessageEdit (''n'', ''w'') 9
     [createUserMessage ''u'' ''v'' ''hi'' 1, example_assistant] ''u'' ''yo'' True
   = Some \<lparr>e_messages = [m', createLoadingAssistantMessage ''n'' ''w'' 9], e_shouldSend = True\<rparr>"
proof -
  have "distinct (map m_key ([] @ createUserMessage ''u'' ''v'' ''hi'' 1 # [example_assistant]))"
    by (simp add: example_assistant_def message_simps)
  from applyMessageEdit_edits [OF this, of "''yo''" True 9 "(''n'', ''w'')"] show ?thesis
    by (auto simp: message_simps)
qed



end
