(* ===== verification/Pg_Payload.thy ===== *)
theory Pg_Payload
  imports Pg_Streaming
begin

text \<open>
  The chat request and what comes back on the wire: \<open>lib/streaming/payload-builder.ts\<close>,
  \<open>stream-utils.ts\<close> and \<open>request-error-utils.ts\<close>, with the option and input helpers
  of \<open>lib/options\<close> and \<open>lib/input\<close>. A value the code reads with
  \<open>JSON.parse(data) as T\<close> is a value of the declared shape \<open>T\<close> (null included), given
  by a parsing function that may raise.
\<close>

section \<open>Configuration\<close>

record PlaygroundConfig =
  g_model :: string
  g_group :: string
  g_temperature :: number
  g_top_p :: number
  g_max_tokens :: number
  g_frequency_penalty :: number
  g_presence_penalty :: number
  g_seed :: "number option"
  g_stream :: bool

record ParameterEnabled =
  n_temperature :: bool
  n_top_p :: bool
  n_max_tokens :: bool
  n_frequency_penalty :: bool
  n_presence_penalty :: bool
  n_seed :: bool

record ModelOption =
  o_label :: string
  o_value :: string

record GroupOption =
  gr_label :: string
  gr_value :: string
  gr_ratio :: number
  gr_desc :: "string option"

definition DEFAULT_GROUP :: string where
  "DEFAULT_GROUP = ''default''"

text \<open>The default temperature is the binary64 number written 0.7.\<close>

definition DEFAULT_CONFIG :: PlaygroundConfig where
  "DEFAULT_CONFIG =
     \<lparr>g_model = ''gpt-4o'', g_group = DEFAULT_GROUP, g_temperature = 3152519739159347 / 4503599627370496,
      g_top_p = 1, g_max_tokens = 4096, g_frequency_penalty = 0, g_presence_penalty = 0, g_seed = None,
      g_stream = True\<rparr>"

definition DEFAULT_PARAMETER_ENABLED :: ParameterEnabled where
  "DEFAULT_PARAMETER_ENABLED =
     \<lparr>n_temperature = True, n_top_p = True, n_max_tokens = False, n_frequency_penalty = True,
      n_presence_penalty = True, n_seed = False\<rparr>"

section \<open>The request\<close>

record ChatCompletionRequest =
  q_model :: string
  q_group :: "string option"
  q_messages :: "ChatCompletionMessage list"
  q_stream :: bool
  q_temperature :: "number option"
  q_top_p :: "number option"
  q_max_tokens :: "number option"
  q_frequency_penalty :: "number option"
  q_presence_penalty :: "number option"
  q_seed :: "number option"

definition buildChatCompletionPayload ::
  "Message list \<Rightarrow> PlaygroundConfig \<Rightarrow> ParameterEnabled \<Rightarrow> ChatCompletionRequest"
where
  "buildChatCompletionPayload messages config parameterEnabled =
     (let processedMessages = map formatMessageForAPI (filter isValidMessage messages);
          payload = \<lparr>q_model = g_model config, q_group = Some (g_group config),
            q_messages = processedMessages, q_stream = g_stream config,
            q_temperature = None, q_top_p = None, q_max_tokens = None,
            q_frequency_penalty = None, q_presence_penalty = None, q_seed = None\<rparr>;
          payload = (if n_temperature parameterEnabled
            then payload\<lparr>q_temperature := Some (g_temperature config)\<rparr> else payload);
          payload = (if n_top_p parameterEnabled
            then payload\<lparr>q_top_p := Some (g_top_p config)\<rparr> else payload);
          payload = (if n_max_tokens parameterEnabled
            then payload\<lparr>q_max_tokens := Some (g_max_tokens config)\<rparr> else payload);
          payload = (if n_frequency_penalty parameterEnabled
            then payload\<lparr>q_frequency_penalty := Some (g_frequency_penalty config)\<rparr> else payload);
          payload = (if n_presence_penalty parameterEnabled
            then payload\<lparr>q_presence_penalty := Some (g_presence_penalty config)\<rparr> else payload)
      in if n_seed parameterEnabled \<and> g_seed config \<noteq> None
         then payload\<lparr>q_seed := g_seed config\<rparr> else payload)"

section \<open>The stream\<close>

definition STREAM_DONE_MESSAGE :: string where
  "STREAM_DONE_MESSAGE = ''[DONE]''"

definition STREAM_CLOSED_READY_STATE :: int where
  "STREAM_CLOSED_READY_STATE = 2"

type_synonym StreamUpdateType = StreamChunkType

type_synonym StreamMessageUpdate = "StreamUpdateType \<times> string"

record StreamError =
  se_code :: "string option"
  se_message :: "string option"

text \<open>\<open>StreamErrorPayload\<close>: the value itself may be null and so may its error.\<close>

record StreamErrorPayload =
  sp_error :: "StreamError option"

record ErrorDetails =
  d_errorCode :: "string option"
  d_errorMessage :: string

definition parseStreamErrorDetails ::
  "(string \<Rightarrow> js_error + StreamErrorPayload option) \<Rightarrow> string option \<Rightarrow> ErrorDetails"
where
  "parseStreamErrorDetails json_parse data =
     (let fallbackMessage = or_opt data API_REQUEST_ERROR;
          fallback = \<lparr>d_errorCode = None, d_errorMessage = fallbackMessage\<rparr>
      in if \<not> truthy_str data then fallback
         else (case json_parse (the data) of
            Inl _ \<Rightarrow> fallback
          | Inr parsed \<Rightarrow>
             (case Option.bind parsed sp_error of
                None \<Rightarrow> fallback
              | Some e \<Rightarrow> \<lparr>d_errorCode = (if truthy_str (se_code e) then se_code e else None),
                           d_errorMessage = or_opt (se_message e) fallbackMessage\<rparr>)))"

record Delta =
  dl_reasoning_content :: "string option"
  dl_content :: "string option"

record ChunkChoice =
  ch_delta :: "Delta option"

record ChatCompletionChunk =
  ck_choices :: "ChunkChoice list option"

definition parseStreamMessageUpdates ::
  "(string \<Rightarrow> js_error + ChatCompletionChunk option) \<Rightarrow> string
   \<Rightarrow> js_error + StreamMessageUpdate list"
where
  "parseStreamMessageUpdates json_parse data =
     (case json_parse data of
        Inl e \<Rightarrow> Inl e
      | Inr None \<Rightarrow> Inl TypeError
      | Inr (Some chunk) \<Rightarrow>
         (case Option.bind (ck_choices chunk) (\<lambda>cs. case cs of [] \<Rightarrow> None | c # _ \<Rightarrow> ch_delta c) of
            None \<Rightarrow> Inr []
          | Some delta \<Rightarrow>
              Inr ((if truthy_str (dl_reasoning_content delta)
                    then [(ReasoningChunk, the (dl_reasoning_content delta))] else [])
                 @ (if truthy_str (dl_content delta)
                    then [(ContentChunk, the (dl_content delta))] else []))))"

definition isStreamDoneMessage :: "string \<Rightarrow> bool" where
  "isStreamDoneMessage data \<longleftrightarrow> data = STREAM_DONE_MESSAGE"

definition isStreamClosedReadyState :: "int option \<Rightarrow> bool" where
  "isStreamClosedReadyState readyState \<longleftrightarrow> readyState = Some STREAM_CLOSED_READY_STATE"

definition getStreamReadyStateError :: "int option \<Rightarrow> int option \<Rightarrow> string option" where
  "getStreamReadyStateError eventReadyState status =
     (case (eventReadyState, status) of
        (Some r, Some s) \<Rightarrow>
          if STREAM_CLOSED_READY_STATE \<le> r \<and> s \<noteq> 200
          then Some (''HTTP '' @ string_of_int s @ '': '' @ CONNECTION_CLOSED)
          else None
      | _ \<Rightarrow> None)"

section \<open>Request errors\<close>

text \<open>\<open>RequestErrorLike\<close>: the parts of a thrown value the code looks at.\<close>

record ResponseData =
  rd_error_code :: "string option option"
  rd_message :: "string option"

record RequestErrorLike =
  re_message :: "string option"
  re_data :: "ResponseData option option"

definition parseRequestErrorDetails :: "RequestErrorLike option \<Rightarrow> ErrorDetails" where
  "parseRequestErrorDetails requestError =
     (let data = Option.bind (Option.bind requestError re_data) id;
          errorCode = Option.bind (Option.bind data rd_error_code) id
      in \<lparr>d_errorCode = (if truthy_str errorCode then errorCode else None),
          d_errorMessage = or_opt (Option.bind data rd_message)
            (or_opt (Option.bind requestError re_message) API_REQUEST_ERROR)\<rparr>)"

section \<open>Options and input\<close>

definition getModelFallback :: "ModelOption list \<Rightarrow> string \<Rightarrow> string option" where
  "getModelFallback models currentModel =
     (let hasCurrentModel = list_ex (\<lambda>model. o_value model = currentModel) models
      in if hasCurrentModel \<or> length models = 0 then None else Some (o_value (models ! 0)))"

definition shouldClearModelForGroup :: "ModelOption list \<Rightarrow> string \<Rightarrow> bool" where
  "shouldClearModelForGroup models currentModel =
     (if currentModel = [] then False
      else \<not> list_ex (\<lambda>model. o_value model = currentModel) models)"

definition getGroupFallback :: "GroupOption list \<Rightarrow> string \<Rightarrow> string option" where
  "getGroupFallback groups currentGroup =
     (let hasCurrentGroup = list_ex (\<lambda>group. gr_value group = currentGroup) groups
      in if hasCurrentGroup \<or> length groups = 0 then None
         else (case find (\<lambda>group. gr_value group = ''default'') groups of
                 Some g \<Rightarrow> Some (gr_value g)
               | None \<Rightarrow> Some (gr_value (groups ! 0))))"

text \<open>A caught value: an \<open>Error\<close> with its message, or anything else.\<close>

datatype caught = ErrorInstance string | OtherValue

definition getOptionLoadErrorMessage :: "caught \<Rightarrow> string \<Rightarrow> string" where
  "getOptionLoadErrorMessage error fallbackMessage =
     (case error of ErrorInstance message \<Rightarrow> message | OtherValue \<Rightarrow> fallbackMessage)"

definition getSubmittableInputText :: "string option \<Rightarrow> bool option \<Rightarrow> string option" where
  "getSubmittableInputText text_in disabled =
     (if disabled = Some True \<or> \<not> truthy_str (map_option trim text_in) then None else text_in)"

record InputControlState =
  i_canSubmit :: bool
  i_isSelectorDisabled :: bool
  i_shouldShowStop :: bool

definition getInputControlState ::
  "bool option \<Rightarrow> GroupOption list \<Rightarrow> bool \<Rightarrow> bool option \<Rightarrow> bool option \<Rightarrow> ModelOption list
   \<Rightarrow> string \<Rightarrow> InputControlState"
where
  "getInputControlState disabled groups hasStopHandler isGenerating isModelLoading models text_in =
     (let hasModels = (0 < length models)
      in \<lparr>i_canSubmit = (disabled \<noteq> Some True \<and> hasModels \<and> 0 < length (trim text_in)),
          i_isSelectorDisabled =
            (disabled = Some True \<or> isModelLoading = Some True \<or> length groups = 0),
          i_shouldShowStop = (isGenerating = Some True \<and> hasStopHandler)\<rparr>)"

record InputToolNotice =
  tn_description :: "string option"
  tn_title :: string

definition getAttachmentActionNotice :: "string \<Rightarrow> InputToolNotice" where
  "getAttachmentActionNotice action =
     \<lparr>tn_description = Some action, tn_title = ''Feature in development''\<rparr>"

definition getSearchActionNotice :: InputToolNotice where
  "getSearchActionNotice =
     \<lparr>tn_description = None, tn_title = ''Search feature in development''\<rparr>"

section \<open>Facts\<close>

lemma valid_loading: "\<not> isValidMessage (createLoadingAssistantMessage k v now)"
  by (simp add: isValidMessage_def createLoadingAssistantMessage_def hasMessageContent_def
      getMessageContent_def getCurrentVersion_def createMessageVersion_def trim_def
      trim_start_def trim_end_def)

lemma payload_messages:
  "q_messages (buildChatCompletionPayload ms c p) = map formatMessageForAPI (filter isValidMessage ms)"
  by (simp add: buildChatCompletionPayload_def Let_def)

lemma payload_parameters:
  "buildChatCompletionPayload ms c p =
     \<lparr>q_model = g_model c, q_group = Some (g_group c),
      q_messages = map formatMessageForAPI (filter isValidMessage ms), q_stream = g_stream c,
      q_temperature = (if n_temperature p then Some (g_temperature c) else None),
      q_top_p = (if n_top_p p then Some (g_top_p c) else None),
      q_max_tokens = (if n_max_tokens p then Some (g_max_tokens c) else None),
      q_frequency_penalty = (if n_frequency_penalty p then Some (g_frequency_penalty c) else None),
      q_presence_penalty = (if n_presence_penalty p then Some (g_presence_penalty c) else None),
      q_seed = (if n_seed p then g_seed c else None)\<rparr>"
  by (simp add: buildChatCompletionPayload_def Let_def)

section \<open>Properties\<close>

text \<open>
  The request never carries a blank assistant message. Its messages are the others in
  order, so the placeholder of the reply being asked for does not reach the server and the
  request does not depend on it; each sampling parameter is present exactly when it is
  enabled (the seed only when it is also set).
\<close>

theorem buildChatCompletionPayload_skips_placeholders:
  "buildChatCompletionPayload (ms @ [createLoadingAssistantMessage k v now]) c p
     = buildChatCompletionPayload ms c p
   \<and> list_all (\<lambda>x. c_role x = Assistant \<longrightarrow> trim (getTextContent (c_content x)) \<noteq> [])
        (q_messages (buildChatCompletionPayload ms c p))
   \<and> (q_temperature (buildChatCompletionPayload ms c p) \<noteq> None \<longleftrightarrow> n_temperature p)
   \<and> (q_max_tokens (buildChatCompletionPayload ms c p) \<noteq> None \<longleftrightarrow> n_max_tokens p)
   \<and> q_seed (buildChatCompletionPayload ms c p) = (if n_seed p then g_seed c else None)"
proof -
  have "list_all (\<lambda>x. c_role x = Assistant \<longrightarrow> trim (getTextContent (c_content x)) \<noteq> [])
      (map formatMessageForAPI (filter isValidMessage ms))"
    by (auto simp: list_all_iff formatMessageForAPI_def isValidMessage_def hasMessageContent_def
        getMessageContent_def split: if_splits)
  then show ?thesis by (simp add: payload_parameters valid_loading)
qed

theorem buildChatCompletionPayload_skips_placeholders_witness:
  "buildChatCompletionPayload ([] @ [createLoadingAssistantMessage ''k'' ''v'' 0]) DEFAULT_CONFIG
     DEFAULT_PARAMETER_ENABLED
   = buildChatCompletionPayload [] DEFAULT_CONFIG DEFAULT_PARAMETER_ENABLED"
  using buildChatCompletionPayload_skips_placeholders by blast

end
