(* ===== verification/Pg_Chat.thy ===== *)
theory Pg_Chat
  imports Pg_Payload
begin

text \<open>
  The chat handler, \<open>hooks/use-chat-handler.ts\<close>, and the event stream under it,
  \<open>hooks/use-stream-request.ts\<close>. The refs and states of both hooks are one record;
  every callback, listener and timer is a function on it, and \<open>chat_step\<close> is the relation
  of the events the browser may deliver. The \<open>SSE\<close> object of \<open>sse.js\<close> is a number; a
  closed one delivers no further message. A listener runs to its end before the next event,
  also when \<open>close()\<close> raised that event. \<open>h_updates\<close> counts the calls of
  \<open>onMessageUpdate\<close>, which the owner of the messages acts on.
\<close>

section \<open>State\<close>

record ChatState =
  h_messages :: "Message list"
  h_updates :: nat
  h_pending_content :: string
  h_pending_reasoning :: string
  h_flushTimer :: bool
  h_timerArmed :: bool
  h_isRequesting :: bool
  h_isStreaming :: bool
  h_isStreamComplete :: bool
  h_source :: "nat option"
  h_sources :: nat
  h_closed :: "nat list"
  h_requestId :: nat
  h_abortController :: "nat option"
  h_aborted :: "nat list"
  h_toasts :: "string list"
  h_requests :: "ChatCompletionRequest list"

text \<open>The translation function and the two uses of \<open>JSON.parse\<close> at their types.\<close>

record chat_env =
  env_t :: "string \<Rightarrow> string"
  env_chunk :: "string \<Rightarrow> js_error + ChatCompletionChunk option"
  env_error :: "string \<Rightarrow> js_error + StreamErrorPayload option"

definition initial_chat :: ChatState where
  "initial_chat =
     \<lparr>h_messages = [], h_updates = 0, h_pending_content = [], h_pending_reasoning = [], h_flushTimer = False,
      h_timerArmed = False, h_isRequesting = False, h_isStreaming = False,
      h_isStreamComplete = False, h_source = None, h_sources = 0, h_closed = [],
      h_requestId = 0, h_abortController = None, h_aborted = [], h_toasts = [],
      h_requests = []\<rparr>"

definition onMessageUpdate :: "(Message list \<Rightarrow> Message list) \<Rightarrow> ChatState \<Rightarrow> ChatState" where
  "onMessageUpdate updater s =
     s\<lparr>h_messages := updater (h_messages s), h_updates := h_updates s + 1\<rparr>"

section \<open>Batching of chunks\<close>

definition KNOWN_ERROR_MESSAGES :: "string set" where
  "KNOWN_ERROR_MESSAGES = set ERROR_MESSAGES"

definition STREAM_UPDATE_FLUSH_MS :: nat where
  "STREAM_UPDATE_FLUSH_MS = 50"

definition mergePendingStreamChunk :: "string \<Rightarrow> string \<Rightarrow> string" where
  "mergePendingStreamChunk currentChunk nextChunk =
     (if currentChunk = [] \<or> \<not> prefix currentChunk nextChunk then currentChunk @ nextChunk
      else nextChunk)"

definition flushUpdate :: "number \<Rightarrow> string \<Rightarrow> string \<Rightarrow> Message \<Rightarrow> Message" where
  "flushUpdate now reasoning content message =
     (let updatedMessage = message;
          updatedMessage = (if reasoning \<noteq> []
            then applyStreamingChunk now updatedMessage ReasoningChunk reasoning
            else updatedMessage)
      in if content \<noteq> [] then applyStreamingChunk now updatedMessage ContentChunk content
         else updatedMessage)"

definition flushStreamUpdates :: "number \<Rightarrow> ChatState \<Rightarrow> ChatState" where
  "flushStreamUpdates now s =
     (let s = s\<lparr>h_flushTimer := False, h_timerArmed := (h_timerArmed s \<and> \<not> h_flushTimer s)\<rparr>;
          content = h_pending_content s; reasoning = h_pending_reasoning s
      in if reasoning = [] \<and> content = [] then s
         else onMessageUpdate
                (\<lambda>prev. updateLastAssistantMessage prev (flushUpdate now reasoning content))
                (s\<lparr>h_pending_content := [], h_pending_reasoning := []\<rparr>))"

definition scheduleStreamFlush :: "ChatState \<Rightarrow> ChatState" where
  "scheduleStreamFlush s =
     (if h_flushTimer s then s else s\<lparr>h_flushTimer := True, h_timerArmed := True\<rparr>)"

text \<open>The cleanup effect clears the timer and leaves the ref.\<close>

definition unmountChat :: "ChatState \<Rightarrow> ChatState" where
  "unmountChat s = (if h_flushTimer s then s\<lparr>h_timerArmed := False\<rparr> else s)"

section \<open>Handlers\<close>

definition getDisplayError :: "(string \<Rightarrow> string) \<Rightarrow> string \<Rightarrow> string" where
  "getDisplayError t error =
     (if error \<in> KNOWN_ERROR_MESSAGES then t error
      else let connectionClosedSuffix = '': '' @ CONNECTION_CLOSED
           in if suffix connectionClosedSuffix error
              then take (length error - length CONNECTION_CLOSED) error @ t CONNECTION_CLOSED
              else error)"

definition handleStreamUpdate :: "StreamChunkType \<Rightarrow> string \<Rightarrow> ChatState \<Rightarrow> ChatState" where
  "handleStreamUpdate type chunk s =
     scheduleStreamFlush
       (case type of
          ReasoningChunk \<Rightarrow>
            s\<lparr>h_pending_reasoning := mergePendingStreamChunk (h_pending_reasoning s) chunk\<rparr>
        | ContentChunk \<Rightarrow>
            s\<lparr>h_pending_content := mergePendingStreamChunk (h_pending_content s) chunk\<rparr>)"

definition completeUpdate :: "number \<Rightarrow> Message \<Rightarrow> Message" where
  "completeUpdate now message =
     (if isAssistantMessageFinal message then message else completeAssistantMessage now message)"

definition handleStreamComplete :: "number \<Rightarrow> ChatState \<Rightarrow> ChatState" where
  "handleStreamComplete now s =
     onMessageUpdate (\<lambda>prev. updateLastAssistantMessage prev (completeUpdate now))
       ((flushStreamUpdates now s)\<lparr>h_isRequesting := False\<rparr>)"

definition handleStreamError ::
  "chat_env \<Rightarrow> number \<Rightarrow> string \<Rightarrow> string option \<Rightarrow> ChatState \<Rightarrow> ChatState"
where
  "handleStreamError env now error errorCode s =
     (let s = (flushStreamUpdates now s)\<lparr>h_isRequesting := False\<rparr>;
          displayError = getDisplayError (env_t env) error;
          s = s\<lparr>h_toasts := h_toasts s @ [displayError]\<rparr>;
          errorTitle = env_t env API_REQUEST_ERROR
      in onMessageUpdate
           (\<lambda>prev. updateAssistantMessageWithError now prev displayError errorCode errorTitle) s)"

section \<open>The event stream\<close>

text \<open>\<open>closeActiveStream(source?)\<close>; closing the object itself is recorded in \<open>h_closed\<close>.\<close>

definition close_source :: "nat option \<Rightarrow> ChatState \<Rightarrow> ChatState" where
  "close_source source s =
     (case source of None \<Rightarrow> s | Some i \<Rightarrow> s\<lparr>h_closed := i # h_closed s\<rparr>)"

definition closeActiveStream :: "nat option \<Rightarrow> ChatState \<Rightarrow> ChatState" where
  "closeActiveStream source s =
     (let streamSource = coalesce source (h_source s);
          s = close_source streamSource s
      in if source = None \<or> h_source s = source
         then s\<lparr>h_source := None, h_isStreaming := False\<rparr> else s)"

text \<open>\<open>started\<close> tells whether \<open>source.stream()\<close> returns normally.\<close>

definition sendStreamRequest ::
  "chat_env \<Rightarrow> number \<Rightarrow> bool \<Rightarrow> ChatCompletionRequest \<Rightarrow> ChatState \<Rightarrow> ChatState"
where
  "sendStreamRequest env now started payload s =
     (let s = close_source (h_source s) s;
          source = h_sources s;
          s = s\<lparr>h_sources := source + 1, h_requests := h_requests s @ [payload]\<rparr>;
          s = s\<lparr>h_source := Some source, h_isStreamComplete := False, h_isStreaming := True\<rparr>
      in if started then s
         else closeActiveStream (Some source)
                (handleStreamError env now STREAM_START_ERROR None s))"

definition handleError ::
  "chat_env \<Rightarrow> number \<Rightarrow> nat \<Rightarrow> string \<Rightarrow> string option \<Rightarrow> ChatState \<Rightarrow> ChatState"
where
  "handleError env now source errorMessage errorCode s =
     (if \<not> h_isStreamComplete s
      then closeActiveStream (Some source) (handleStreamError env now errorMessage errorCode s)
      else s)"

definition on_message :: "chat_env \<Rightarrow> number \<Rightarrow> nat \<Rightarrow> string \<Rightarrow> ChatState \<Rightarrow> ChatState" where
  "on_message env now source data s =
     (if isStreamDoneMessage data
      then handleStreamComplete now
             (closeActiveStream (Some source) (s\<lparr>h_isStreamComplete := True\<rparr>))
      else (case parseStreamMessageUpdates (env_chunk env) data of
              Inl _ \<Rightarrow> handleError env now source PARSE_ERROR None s
            | Inr updates \<Rightarrow> fold (\<lambda>(type, chunk). handleStreamUpdate type chunk) updates s))"

definition on_error ::
  "chat_env \<Rightarrow> number \<Rightarrow> nat \<Rightarrow> int option \<Rightarrow> string option \<Rightarrow> ChatState \<Rightarrow> ChatState"
where
  "on_error env now source readyState data s =
     (if \<not> isStreamClosedReadyState readyState
      then let d = parseStreamErrorDetails (env_error env) data
           in handleError env now source (d_errorMessage d) (d_errorCode d) s
      else s)"

definition on_readystatechange ::
  "chat_env \<Rightarrow> number \<Rightarrow> nat \<Rightarrow> int option \<Rightarrow> int option \<Rightarrow> ChatState \<Rightarrow> ChatState"
where
  "on_readystatechange env now source eventReadyState status s =
     (case getStreamReadyStateError eventReadyState status of
        Some errorMessage \<Rightarrow>
          if errorMessage \<noteq> [] then handleError env now source errorMessage None s else s
      | None \<Rightarrow> s)"

definition stopStream :: "ChatState \<Rightarrow> ChatState" where
  "stopStream s = closeActiveStream None s"

section \<open>Sending and stopping\<close>

definition sendStreamingChat ::
  "chat_env \<Rightarrow> number \<Rightarrow> bool \<Rightarrow> PlaygroundConfig \<Rightarrow> ParameterEnabled \<Rightarrow> Message list
   \<Rightarrow> ChatState \<Rightarrow> ChatState"
where
  "sendStreamingChat env now started config parameterEnabled messages s =
     sendStreamRequest env now started (buildChatCompletionPayload messages config parameterEnabled)
       (s\<lparr>h_isRequesting := True\<rparr>)"

text \<open>
  The part of \<open>sendNonStreamingChat\<close> before its \<open>await\<close>. The controller of a request
  is named by the request's number.
\<close>

definition sendNonStreamingChat ::
  "PlaygroundConfig \<Rightarrow> ParameterEnabled \<Rightarrow> Message list \<Rightarrow> ChatState \<Rightarrow> ChatState"
where
  "sendNonStreamingChat config parameterEnabled messages s =
     (let payload = buildChatCompletionPayload messages config parameterEnabled;
          requestId = h_requestId s + 1
      in s\<lparr>h_requestId := requestId, h_abortController := Some requestId,
          h_isRequesting := True, h_requests := h_requests s @ [payload]\<rparr>)"

definition responseUpdate :: "number \<Rightarrow> ChatCompletionResponse \<Rightarrow> Message \<Rightarrow> Message" where
  "responseUpdate now response message =
     (case applyChatCompletionResponse now message response of
        Some updatedMessage \<Rightarrow> updatedMessage | None \<Rightarrow> message)"

text \<open>The part after the \<open>await\<close>: the outcome is a response or the value thrown.\<close>

definition settleNonStreamingChat ::
  "chat_env \<Rightarrow> number \<Rightarrow> nat \<Rightarrow> RequestErrorLike option + ChatCompletionResponse
   \<Rightarrow> ChatState \<Rightarrow> ChatState"
where
  "settleNonStreamingChat env now requestId outcome s =
     (let s = (if requestId \<in> set (h_aborted s) then s
            else (case outcome of
               Inr response \<Rightarrow>
                 if \<not> hasChatCompletionChoice response
                 then handleStreamError env now API_REQUEST_ERROR None s
                 else onMessageUpdate
                        (\<lambda>prev. updateLastAssistantMessage prev (responseUpdate now response)) s
             | Inl error \<Rightarrow>
                 let d = parseRequestErrorDetails error
                 in handleStreamError env now (d_errorMessage d) (d_errorCode d) s))
      in if h_requestId s = requestId
         then s\<lparr>h_abortController := None, h_isRequesting := False\<rparr> else s)"

definition sendChat ::
  "chat_env \<Rightarrow> number \<Rightarrow> bool \<Rightarrow> PlaygroundConfig \<Rightarrow> ParameterEnabled \<Rightarrow> Message list
   \<Rightarrow> ChatState \<Rightarrow> ChatState"
where
  "sendChat env now started config parameterEnabled messages s =
     (if g_stream config
      then sendStreamingChat env now started config parameterEnabled messages s
      else sendNonStreamingChat config parameterEnabled messages s)"

definition stopUpdate :: "number \<Rightarrow> Message \<Rightarrow> Message" where
  "stopUpdate now message =
     (if isAssistantMessagePending message then completeAssistantMessage now message else message)"

definition abort_current :: "ChatState \<Rightarrow> ChatState" where
  "abort_current s =
     (case h_abortController s of None \<Rightarrow> s | Some c \<Rightarrow> s\<lparr>h_aborted := c # h_aborted s\<rparr>)"

definition stopGeneration :: "number \<Rightarrow> ChatState \<Rightarrow> ChatState" where
  "stopGeneration now s =
     onMessageUpdate (\<lambda>prev. updateLastAssistantMessage prev (stopUpdate now))
       ((abort_current (flushStreamUpdates now (stopStream s)))
          \<lparr>h_abortController := None, h_isRequesting := False\<rparr>)"

definition isGenerating :: "ChatState \<Rightarrow> bool" where
  "isGenerating s \<longleftrightarrow> h_isStreaming s \<or> h_isRequesting s"

section \<open>Events\<close>

inductive stream_event :: "chat_env \<Rightarrow> ChatState \<Rightarrow> ChatState \<Rightarrow> bool" for env where
  ev_timer: "h_timerArmed s \<Longrightarrow> stream_event env s (flushStreamUpdates now s)"
| ev_message: "source < h_sources s \<Longrightarrow> source \<notin> set (h_closed s) \<Longrightarrow>
     stream_event env s (on_message env now source data s)"
| ev_error: "source < h_sources s \<Longrightarrow>
     stream_event env s (on_error env now source readyState edata s)"
| ev_ready: "source < h_sources s \<Longrightarrow>
     stream_event env s (on_readystatechange env now source eready status s)"

inductive chat_step :: "chat_env \<Rightarrow> ChatState \<Rightarrow> ChatState \<Rightarrow> bool" for env where
  st_stream: "stream_event env s s' \<Longrightarrow> chat_step env s s'"
| st_settle: "0 < i \<Longrightarrow> i \<le> h_requestId s \<Longrightarrow>
     chat_step env s (settleNonStreamingChat env now i outcome s)"
| st_stop: "chat_step env s (stopGeneration now s)"
| st_send: "chat_step env s (sendChat env now started config enabled ms s)"
| st_unmount: "chat_step env s (unmountChat s)"

section \<open>Batching keeps the text\<close>

text \<open>
  A stream seen by the handler: chunks, and at any point a flush (\<^const>\<open>None\<close>), each with
  the time of its event.
\<close>

definition batch_event ::
  "number \<times> (StreamChunkType \<times> string) option \<Rightarrow> ChatState \<Rightarrow> ChatState"
where
  "batch_event e s = (case snd e of
     None \<Rightarrow> flushStreamUpdates (fst e) s
   | Some (type, chunk) \<Rightarrow> handleStreamUpdate type chunk s)"

definition content_event :: "number \<times> (StreamChunkType \<times> string) option \<Rightarrow> string option list" where
  "content_event e = (case snd e of
     None \<Rightarrow> [None]
   | Some (type, chunk) \<Rightarrow> (case type of ContentChunk \<Rightarrow> [Some chunk] | ReasoningChunk \<Rightarrow> []))"

definition content_chunks ::
  "(number \<times> (StreamChunkType \<times> string) option) list \<Rightarrow> string list"
where
  "content_chunks es = somes (concat (map content_event es))"

text \<open>The text already shown and the text held back, and what an event does to the two.\<close>

definition batch :: "string \<times> string \<Rightarrow> string option \<Rightarrow> string \<times> string" where
  "batch p e = (case e of
     None \<Rightarrow> (absorb (fst p) (snd p), [])
   | Some c \<Rightarrow> (fst p, absorb (snd p) c))"

definition replying :: "ChatState \<Rightarrow> bool" where
  "replying s \<longleftrightarrow> (case last_opt (h_messages s) of None \<Rightarrow> False
     | Some m \<Rightarrow> m_from m = Assistant \<and> m_status m \<noteq> Some Error)"

definition last_content :: "ChatState \<Rightarrow> string" where
  "last_content s = (case last_opt (h_messages s) of None \<Rightarrow> [] | Some m \<Rightarrow> getMessageContent m)"

text \<open>No run of pieces opens the run right after it.\<close>

definition run_safe :: "string list \<Rightarrow> bool" where
  "run_safe ps \<longleftrightarrow> list_all (\<lambda>k. list_all (\<lambda>j. list_all (\<lambda>i.
       concat (slice i j ps) = [] \<or> \<not> prefix (concat (slice i j ps)) (concat (slice j k ps)))
     [0..<j]) [0..<k]) [0..<Suc (length ps)]"

lemma batch_simps:
  "batch (shown, held) None = (absorb shown held, [])"
  "batch (shown, held) (Some c) = (shown, absorb held c)"
  by (simp_all add: batch_def)

lemma merge_absorb: "mergePendingStreamChunk p c = absorb p c"
  by (auto simp: mergePendingStreamChunk_def absorb_alt)

lemma absorb_Nil [simp]: "absorb t [] = t" "absorb [] c = c"
  by (simp_all add: absorb_alt)

lemma content_reasoning_chunk:
  "getMessageContent (applyStreamingChunk now m ReasoningChunk c) = getMessageContent m"
  by (simp add: applyStreamingChunk_def Let_def message_simps)

lemma content_content_chunk:
  "m_status m \<noteq> Some Error \<Longrightarrow>
   getMessageContent (applyStreamingChunk now m ContentChunk c) = absorb (getMessageContent m) c"
  using chunk_text_apply [of m ContentChunk now c] by (simp add: chunk_text_def)

lemma flushUpdate_fields [message_simps]:
  "m_key (flushUpdate now r c m) = m_key m"
  "m_from (flushUpdate now r c m) = m_from m"
  by (simp_all add: flushUpdate_def Let_def message_simps)

lemma flushUpdate_content:
  "m_status m \<noteq> Some Error \<Longrightarrow>
   getMessageContent (flushUpdate now r c m) = absorb (getMessageContent m) c
   \<and> m_status (flushUpdate now r c m) \<noteq> Some Error"
  by (simp add: flushUpdate_def Let_def content_content_chunk content_reasoning_chunk status_apply)

lemma flushUpdate_Nil [simp]: "flushUpdate now [] [] m = m"
  by (simp add: flushUpdate_def)

lemma last_opt_update:
  "last_opt (updateLastAssistantMessage ms f) =
   map_option (\<lambda>m. if m_from m = Assistant then f m else m) (last_opt ms)"
  by (cases ms rule: rev_cases)
    (simp_all add: updateLastAssistantMessage_Nil updateLastAssistantMessage_snoc last_opt_def)

lemma last_opt_updateE:
  assumes "last_opt (updateLastAssistantMessage ms f) = Some m" "m_from m = Assistant"
  obtains x where "m = f x"
proof -
  from assms have "\<exists>x. m = f x" by (auto simp: last_opt_update split: if_splits intro: sym)
  with that show thesis by blast
qed

lemma update_last_id:
  "(\<And>m. last_opt ms = Some m \<Longrightarrow> m_from m = Assistant \<Longrightarrow> f m = m) \<Longrightarrow>
   updateLastAssistantMessage ms f = ms"
  by (cases ms rule: rev_cases)
    (simp_all add: updateLastAssistantMessage_Nil updateLastAssistantMessage_snoc last_opt_def)

lemma flush_messages:
  "h_messages (flushStreamUpdates now s) = updateLastAssistantMessage (h_messages s)
     (flushUpdate now (h_pending_reasoning s) (h_pending_content s))"
  by (simp add: flushStreamUpdates_def onMessageUpdate_def Let_def update_last_id)

lemma flush_pending [simp]:
  "h_pending_content (flushStreamUpdates now s) = []"
  "h_pending_reasoning (flushStreamUpdates now s) = []"
  "h_flushTimer (flushStreamUpdates now s) = False"
  by (simp_all add: flushStreamUpdates_def onMessageUpdate_def Let_def)

lemma handleStreamUpdate_messages:
  "h_messages (handleStreamUpdate ty c s) = h_messages s"
  by (simp add: handleStreamUpdate_def scheduleStreamFlush_def split: StreamChunkType.splits)

lemma handleStreamUpdate_pending:
  "h_pending_content (handleStreamUpdate ty c s) =
   (if ty = ContentChunk then absorb (h_pending_content s) c else h_pending_content s)"
  by (simp add: handleStreamUpdate_def scheduleStreamFlush_def merge_absorb
      split: StreamChunkType.splits)

lemma batch_event_simulates:
  assumes "replying s"
  shows "replying (batch_event e s)
    \<and> (last_content (batch_event e s), h_pending_content (batch_event e s)) =
        foldl batch (last_content s, h_pending_content s) (content_event e)"
proof -
  from assms obtain m where m: "last_opt (h_messages s) = Some m" "m_from m = Assistant"
    "m_status m \<noteq> Some Error"
    by (auto simp: replying_def split: option.splits)
  obtain now o' where e: "e = (now, o')" by (cases e)
  show ?thesis
  proof (cases o')
    case None
    then show ?thesis
      using m flushUpdate_content [OF m(3)]
      by (simp add: e batch_event_def content_event_def batch_simps replying_def last_content_def
          flush_messages last_opt_update message_simps)
  next
    case (Some p)
    obtain ty c where p: "p = (ty, c)" by (cases p)
    show ?thesis
      using assms
      by (cases ty) (simp_all add: e Some p batch_event_def content_event_def batch_simps
          replying_def last_content_def handleStreamUpdate_messages handleStreamUpdate_pending)
  qed
qed

lemma batch_events_simulate:
  "replying s \<Longrightarrow> replying (fold batch_event es s)
    \<and> (last_content (fold batch_event es s), h_pending_content (fold batch_event es s)) =
        foldl batch (last_content s, h_pending_content s) (concat (map content_event es))"
proof (induction es arbitrary: s)
  case Nil
  then show ?case by simp
next
  case (Cons e es)
  from batch_event_simulates [OF Cons.prems, of e] Cons.IH [of "batch_event e s"]
  show ?case by simp
qed

lemma run_safeD:
  assumes "run_safe ps" "i < j" "j < k" "k \<le> length ps"
  shows "concat (slice i j ps) = [] \<or> \<not> prefix (concat (slice i j ps)) (concat (slice j k ps))"
proof -
  have "k \<in> set [0..<Suc (length ps)]" "j \<in> set [0..<k]" "i \<in> set [0..<j]"
    using assms(2-4) by auto
  with assms(1) show ?thesis unfolding run_safe_def list_all_iff by blast
qed

lemma run_safe_absorb:
  assumes "run_safe ps" "i < j" "j \<le> k" "k \<le> length ps"
  shows "absorb (concat (slice i j ps)) (concat (slice j k ps)) = concat (slice i k ps)"
proof (cases "j = k")
  case True
  then show ?thesis by (simp add: slice_def)
next
  case False
  then have "j < k" using assms(3) by simp
  from run_safeD [OF assms(1,2) this assms(4)]
  have "absorb (concat (slice i j ps)) (concat (slice j k ps)) =
      concat (slice i j ps) @ concat (slice j k ps)"
    by (simp only: absorb_appends_iff)
  then show ?thesis
    using slice_append [of i j k ps] assms(2,3) by (simp flip: concat_append)
qed

lemma run_safe_butlast: "run_safe (ps @ [c]) \<Longrightarrow> run_safe ps"
  unfolding run_safe_def list_all_iff by (auto simp: slice_def)

lemma batch_deltas:
  assumes "run_safe (t # somes ops)"
  shows "\<exists>i. 0 < i \<and> i \<le> Suc (length (somes ops)) \<and>
    foldl batch (t, []) ops =
      (concat (take i (t # somes ops)), concat (drop i (t # somes ops)))"
  using assms
proof (induction ops rule: rev_induct)
  case Nil
  then show ?case by (intro exI [of _ 1]) simp
next
  case (snoc e ops)
  let ?ps = "t # somes ops"
  show ?case
  proof (cases e)
    case None
    with snoc.prems have safe: "run_safe ?ps" by simp
    from snoc.IH [OF this] obtain i where i: "0 < i" "i \<le> length ?ps"
      and st: "foldl batch (t, []) ops = (concat (take i ?ps), concat (drop i ?ps))" by auto
    have "absorb (concat (take i ?ps)) (concat (drop i ?ps)) = concat ?ps"
      using run_safe_absorb [OF safe i order_refl] by (simp add: slice_def)
    with st show ?thesis
      by (intro exI [of _ "length ?ps"]) (simp add: None batch_simps)
  next
    case (Some c)
    have ps': "t # somes (ops @ [e]) = ?ps @ [c]" by (simp add: Some)
    from snoc.prems have safe': "run_safe (?ps @ [c])" by (simp only: ps')
    from snoc.IH [OF run_safe_butlast [OF this]] obtain i where i: "0 < i" "i \<le> length ?ps"
      and st: "foldl batch (t, []) ops = (concat (take i ?ps), concat (drop i ?ps))" by auto
    have dr: "drop i (t # somes ops @ [c]) = drop i ?ps @ [c]"
      and tk: "take i (t # somes ops @ [c]) = take i ?ps"
      using i drop_append [of i ?ps "[c]"] take_append [of i ?ps "[c]"] by simp_all
    have "absorb (concat (drop i ?ps)) c = concat (drop i ?ps) @ c"
    proof (cases "i = length ?ps")
      case False
      then have "i < length ?ps" using i by simp
      from run_safe_absorb [OF safe' this, of "Suc (length ?ps)"] show ?thesis
        using i dr by (simp add: slice_def)
    qed simp
    with st i dr tk show ?thesis
      by (intro exI [of _ i]) (simp add: Some batch_simps)
  qed
qed

lemma snapshot_absorb:
  assumes "sorted_wrt prefix ps" "0 < i" "i \<le> length ps"
  shows "absorb (last (take i ps)) (if i < length ps then last ps else []) = last ps"
proof (cases "i = length ps")
  case False
  then have i: "i < length ps" "ps \<noteq> []" using assms(3) by auto
  have "last (take i ps) = ps ! (i - 1)"
    using assms(2) i by (subst last_conv_nth) auto
  moreover have "last ps = ps ! (length ps - 1)" using i(2) by (rule last_conv_nth)
  moreover have "prefix (ps ! (i - 1)) (ps ! (length ps - 1))"
    using i assms(2) by (intro sorted_wrt_nth_less [OF assms(1)]) auto
  ultimately show ?thesis using i(1) by (auto simp: absorb_alt)
qed simp

lemma batch_snapshots:
  assumes "sorted_wrt prefix (t # somes ops)"
  shows "\<exists>i. 0 < i \<and> i \<le> Suc (length (somes ops)) \<and>
    foldl batch (t, []) ops =
      (last (take i (t # somes ops)),
       if i \<le> length (somes ops) then last (t # somes ops) else [])"
  using assms
proof (induction ops rule: rev_induct)
  case Nil
  then show ?case by (intro exI [of _ 1]) simp
next
  case (snoc e ops)
  let ?ps = "t # somes ops"
  let ?ps' = "t # somes (ops @ [e])"
  have ps': "?ps' = ?ps @ (case e of None \<Rightarrow> [] | Some c \<Rightarrow> [c])"
    by (simp split: option.splits)
  from snoc.prems have sorted: "sorted_wrt prefix ?ps"
    by (simp only: ps' sorted_wrt_append)
  from snoc.IH [OF this] obtain i where i: "0 < i" "i \<le> length ?ps"
    and st: "foldl batch (t, []) ops = (last (take i ?ps), if i < length ?ps then last ?ps else [])"
    by auto
  show ?case
  proof (cases e)
    case None
    have "absorb (last (take i ?ps)) (if i < length ?ps then last ?ps else []) = last ?ps"
      by (rule snapshot_absorb [OF sorted i])
    with st show ?thesis
      by (intro exI [of _ "length ?ps"]) (simp add: None batch_simps)
  next
    case (Some c)
    have "i < length ?ps \<Longrightarrow> prefix (last ?ps) c"
      using snoc.prems unfolding ps' Some by (simp add: sorted_wrt_append)
    then have "absorb (if i < length ?ps then last ?ps else []) c = c"
      by (auto simp: absorb_alt)
    moreover have "take i (t # somes ops @ [c]) = take i ?ps"
      using i take_append [of i ?ps "[c]"] by simp
    ultimately show ?thesis using st i
      by (intro exI [of _ i]) (simp add: Some batch_simps)
  qed
qed

lemma batch_flushed:
  "foldl batch p (ops @ [None]) =
     (absorb (fst (foldl batch p ops)) (snd (foldl batch p ops)), [])"
  by (simp add: batch_def)

lemma batch_deltas_flushed:
  assumes "run_safe (t # somes ops)"
  shows "fst (foldl batch (t, []) (ops @ [None])) = t @ concat (somes ops)"
proof -
  let ?ps = "t # somes ops"
  from batch_deltas [OF assms] obtain i where i: "0 < i" "i \<le> length ?ps"
    and st: "foldl batch (t, []) ops = (concat (take i ?ps), concat (drop i ?ps))" by auto
  from run_safe_absorb [OF assms i order_refl] st show ?thesis
    by (simp add: batch_simps slice_def)
qed

lemma batch_snapshots_flushed:
  assumes "sorted_wrt prefix (t # somes ops)"
  shows "fst (foldl batch (t, []) (ops @ [None])) = last (t # somes ops)"
proof -
  let ?ps = "t # somes ops"
  from batch_snapshots [OF assms] obtain i where i: "0 < i" "i \<le> length ?ps"
    and st: "foldl batch (t, []) ops = (last (take i ?ps), if i < length ?ps then last ?ps else [])"
    by auto
  from snapshot_absorb [OF assms i] st show ?thesis by (simp add: batch_simps)
qed

lemma flushed_content:
  assumes "replying s" "h_pending_content s = []"
  shows "last_content (flushStreamUpdates now (fold batch_event es s)) =
    fst (foldl batch (last_content s, []) (concat (map content_event es) @ [None]))"
  using batch_events_simulate [OF assms(1), of "es @ [(now, None)]"] assms(2)
  by (simp add: batch_event_def content_event_def del: foldl_append) (metis fst_conv)

section \<open>Invariants of the handler\<close>

interpretation flush_update: message_update "flushUpdate now r c" for now r c
  by unfold_locales (simp_all add: message_simps flushUpdate_def Let_def)

interpretation finish_update: message_update "completeUpdate now" for now
  by unfold_locales (simp_all add: completeUpdate_def message_simps)

interpretation stop_update: message_update "stopUpdate now" for now
  by unfold_locales (simp_all add: stopUpdate_def message_simps)

interpretation response_update: message_update "responseUpdate now r" for now r
  by unfold_locales (simp_all add: responseUpdate_def applyChatCompletionResponse_def message_simps
      split: option.splits)

text \<open>
  The connection part of the state, which chunks, flushes and updates of the messages leave
  alone, and its invariant.
\<close>

definition conn where
  "conn s = (h_source s, h_sources s, h_closed s, h_isStreaming s, h_isStreamComplete s,
     h_requestId s, h_abortController s, h_aborted s)"

definition conn_ok :: "ChatState \<Rightarrow> bool" where
  "conn_ok s \<longleftrightarrow> (h_isStreaming s \<longleftrightarrow> h_source s \<noteq> None)
     \<and> (\<forall>i. h_source s = Some i \<longrightarrow>
          i < h_sources s \<and> i \<notin> set (h_closed s) \<and> \<not> h_isStreamComplete s)
     \<and> (\<forall>i < h_sources s. i \<in> set (h_closed s) \<or> h_source s = Some i)
     \<and> (\<forall>i \<in> set (h_closed s). i < h_sources s)
     \<and> (\<forall>i \<in> set (h_aborted s). i \<le> h_requestId s)
     \<and> (\<forall>c. h_abortController s = Some c \<longrightarrow> c = h_requestId s \<and> c \<notin> set (h_aborted s))"

definition batch_ok :: "ChatState \<Rightarrow> bool" where
  "batch_ok s \<longleftrightarrow> (h_pending_content s \<noteq> [] \<or> h_pending_reasoning s \<noteq> [] \<longrightarrow> h_flushTimer s)
     \<and> (h_timerArmed s \<longrightarrow> h_flushTimer s)"

definition chat_ok :: "ChatState \<Rightarrow> bool" where
  "chat_ok s \<longleftrightarrow> conn_ok s \<and> batch_ok s"

text \<open>What no step may touch: the keys, the roles and all messages but the last.\<close>

definition frame where
  "frame s = (map m_key (h_messages s), map m_from (h_messages s), butlast (h_messages s))"

lemma conn_ok_cong: "conn s' = conn s \<Longrightarrow> conn_ok s' = conn_ok s"
  by (simp add: conn_def conn_ok_def)

lemma conn_flush [simp]: "conn (flushStreamUpdates now s) = conn s"
  by (simp add: conn_def flushStreamUpdates_def onMessageUpdate_def Let_def)

lemma conn_update [simp]: "conn (handleStreamUpdate ty c s) = conn s"
  by (simp add: conn_def handleStreamUpdate_def scheduleStreamFlush_def
      split: StreamChunkType.splits)

lemma conn_complete [simp]: "conn (handleStreamComplete now s) = conn s"
  using conn_flush [of now s] by (simp add: handleStreamComplete_def onMessageUpdate_def conn_def)

lemma conn_error [simp]: "conn (handleStreamError env now e c s) = conn s"
  using conn_flush [of now s]
  by (simp add: handleStreamError_def onMessageUpdate_def conn_def Let_def)

lemma conn_updates [simp]:
  "conn (fold (\<lambda>(ty, c). handleStreamUpdate ty c) us s) = conn s"
  by (induction us arbitrary: s) auto

lemma batch_ok_flush: "batch_ok s \<Longrightarrow> batch_ok (flushStreamUpdates now s)"
  by (auto simp: batch_ok_def flushStreamUpdates_def onMessageUpdate_def Let_def)

lemma batch_ok_update: "batch_ok s \<Longrightarrow> batch_ok (handleStreamUpdate ty c s)"
  by (auto simp: batch_ok_def handleStreamUpdate_def scheduleStreamFlush_def
      split: StreamChunkType.splits)

lemma batch_ok_complete: "batch_ok s \<Longrightarrow> batch_ok (handleStreamComplete now s)"
  using batch_ok_flush [of s now]
  by (simp add: handleStreamComplete_def onMessageUpdate_def batch_ok_def)

lemma batch_ok_error: "batch_ok s \<Longrightarrow> batch_ok (handleStreamError env now e c s)"
  using batch_ok_flush [of s now]
  by (simp add: handleStreamError_def onMessageUpdate_def batch_ok_def Let_def)

lemma batch_ok_updates:
  "batch_ok s \<Longrightarrow> batch_ok (fold (\<lambda>(ty, c). handleStreamUpdate ty c) us s)"
  by (induction us arbitrary: s) (auto simp: batch_ok_update)

lemma frame_flush [simp]: "frame (flushStreamUpdates now s) = frame s"
  by (simp add: frame_def flush_messages flush_update.update_last_keys
      flush_update.update_last_roles flush_update.update_last_butlast)

lemma frame_complete [simp]: "frame (handleStreamComplete now s) = frame s"
  using frame_flush [of now s]
  by (simp add: frame_def handleStreamComplete_def onMessageUpdate_def
      finish_update.update_last_keys finish_update.update_last_roles
      finish_update.update_last_butlast)

lemma frame_error [simp]: "frame (handleStreamError env now e c s) = frame s"
  using frame_flush [of now s]
  by (simp add: frame_def handleStreamError_def onMessageUpdate_def Let_def
      updateAssistantMessageWithError_def error_update.update_last_keys
      error_update.update_last_roles error_update.update_last_butlast)

lemma frame_update [simp]: "frame (handleStreamUpdate ty c s) = frame s"
  by (simp add: frame_def handleStreamUpdate_messages)

lemma frame_updates [simp]:
  "frame (fold (\<lambda>(ty, c). handleStreamUpdate ty c) us s) = frame s"
  by (induction us arbitrary: s) auto

lemma close_messages [simp]:
  "frame (closeActiveStream src s) = frame s"
  "batch_ok (closeActiveStream src s) = batch_ok s"
  "h_messages (closeActiveStream src s) = h_messages s"
  by (simp_all add: frame_def batch_ok_def closeActiveStream_def close_source_def Let_def
      split: option.splits)

lemma conn_ok_close: "conn_ok s \<Longrightarrow> i < h_sources s \<Longrightarrow> conn_ok (closeActiveStream (Some i) s)"
  by (auto simp: conn_ok_def closeActiveStream_def close_source_def coalesce_def Let_def)

lemma conn_ok_stop: "conn_ok s \<Longrightarrow> conn_ok (stopStream s)"
  by (auto simp: conn_ok_def stopStream_def closeActiveStream_def close_source_def coalesce_def
      Let_def split: option.splits)

lemma h_sources_error [simp]: "h_sources (handleStreamError env now e c s) = h_sources s"
  using conn_error [of env now e c s] by (simp add: conn_def)

lemma handleError_ok:
  assumes "chat_ok s" "src < h_sources s"
  shows "chat_ok (handleError env now src e c s) \<and> frame (handleError env now src e c s) = frame s"
proof -
  have "conn_ok (handleStreamError env now e c s)"
    using assms(1) by (simp add: chat_ok_def conn_ok_cong [OF conn_error])
  then show ?thesis
    using assms by (simp add: handleError_def chat_ok_def conn_ok_close batch_ok_error)
qed

lemma conn_ok_done:
  assumes "conn_ok s" "h_source s = Some src"
  shows "conn_ok (closeActiveStream (Some src) (s\<lparr>h_isStreamComplete := True\<rparr>))"
  using assms by (auto simp: conn_ok_def closeActiveStream_def close_source_def coalesce_def Let_def)

lemma open_is_current:
  "conn_ok s \<Longrightarrow> src < h_sources s \<Longrightarrow> src \<notin> set (h_closed s) \<Longrightarrow> h_source s = Some src"
  by (auto simp: conn_ok_def)

lemma batch_ok_flag [simp]:
  "batch_ok (s\<lparr>h_isStreamComplete := b\<rparr>) = batch_ok s"
  "batch_ok (s\<lparr>h_isRequesting := b\<rparr>) = batch_ok s"
  "frame (s\<lparr>h_isStreamComplete := b\<rparr>) = frame s"
  "frame (s\<lparr>h_isRequesting := b\<rparr>) = frame s"
  by (simp_all add: batch_ok_def frame_def)

lemma on_message_ok:
  assumes "chat_ok s" "src < h_sources s" "src \<notin> set (h_closed s)"
  shows "chat_ok (on_message env now src data s) \<and> frame (on_message env now src data s) = frame s"
proof -
  have cur: "h_source s = Some src"
    using open_is_current assms by (simp add: chat_ok_def)
  show ?thesis
  proof (cases "isStreamDoneMessage data")
    case True
    let ?s = "closeActiveStream (Some src) (s\<lparr>h_isStreamComplete := True\<rparr>)"
    have "conn_ok (handleStreamComplete now ?s)"
      using conn_ok_done [OF _ cur] assms(1) by (simp add: conn_ok_cong [OF conn_complete] chat_ok_def)
    with True assms(1) show ?thesis
      by (simp add: on_message_def chat_ok_def batch_ok_complete)
  next
    case False
    then show ?thesis
      using handleError_ok [OF assms(1,2)] assms(1)
      by (simp add: on_message_def chat_ok_def conn_ok_cong [OF conn_updates] batch_ok_updates
          split: sum.splits)
  qed
qed

lemma stream_event_ok:
  assumes "stream_event env s s'" "chat_ok s"
  shows "chat_ok s' \<and> frame s' = frame s"
  using assms
proof cases
  case (ev_timer now)
  then show ?thesis
    using assms(2) by (simp add: chat_ok_def conn_ok_cong [OF conn_flush] batch_ok_flush)
next
  case (ev_message source now data)
  then show ?thesis using on_message_ok assms(2) by simp
next
  case (ev_error source now readyState edata)
  then show ?thesis using handleError_ok [OF assms(2)] assms(2)
    by (simp add: on_error_def Let_def)
next
  case (ev_ready source now eready status)
  then show ?thesis using handleError_ok [OF assms(2)] assms(2)
    by (simp add: on_readystatechange_def split: option.splits)
qed

lemma conn_messages [simp]:
  "conn (onMessageUpdate f s) = conn s" "batch_ok (onMessageUpdate f s) = batch_ok s"
  by (simp_all add: conn_def batch_ok_def onMessageUpdate_def)

lemma frame_response [simp]:
  "frame (onMessageUpdate (\<lambda>prev. updateLastAssistantMessage prev (responseUpdate now r)) s) = frame s"
  by (simp add: frame_def onMessageUpdate_def response_update.update_last_keys
      response_update.update_last_roles response_update.update_last_butlast)

lemma frame_stop [simp]:
  "frame (onMessageUpdate (\<lambda>prev. updateLastAssistantMessage prev (stopUpdate now)) s) = frame s"
  by (simp add: frame_def onMessageUpdate_def stop_update.update_last_keys
      stop_update.update_last_roles stop_update.update_last_butlast)

lemma settle_ok:
  assumes "chat_ok s"
  shows "chat_ok (settleNonStreamingChat env now i outcome s)
    \<and> frame (settleNonStreamingChat env now i outcome s) = frame s"
proof -
  define s1 where "s1 = (if i \<in> set (h_aborted s) then s
      else (case outcome of
         Inr response \<Rightarrow> if \<not> hasChatCompletionChoice response
           then handleStreamError env now API_REQUEST_ERROR None s
           else onMessageUpdate
                  (\<lambda>prev. updateLastAssistantMessage prev (responseUpdate now response)) s
       | Inl error \<Rightarrow> let d = parseRequestErrorDetails error
           in handleStreamError env now (d_errorMessage d) (d_errorCode d) s))"
  have s1: "conn s1 = conn s" "frame s1 = frame s" "batch_ok s1"
    using assms by (auto simp: s1_def chat_ok_def batch_ok_error Let_def split: sum.splits)
  then have "chat_ok s1" using assms by (simp add: chat_ok_def conn_ok_cong [OF s1(1)])
  moreover have "settleNonStreamingChat env now i outcome s =
      (if h_requestId s1 = i then s1\<lparr>h_abortController := None, h_isRequesting := False\<rparr> else s1)"
    by (simp add: settleNonStreamingChat_def s1_def Let_def)
  ultimately show ?thesis
    using s1(2) by (auto simp: chat_ok_def conn_ok_def batch_ok_def frame_def)
qed

lemma conn_ok_abort:
  "conn_ok s \<Longrightarrow> conn_ok ((abort_current s)\<lparr>h_abortController := None, h_isRequesting := False\<rparr>)"
  by (auto simp: conn_ok_def abort_current_def split: option.splits)

lemma abort_fields [simp]:
  "batch_ok ((abort_current s)\<lparr>h_abortController := None\<rparr>) = batch_ok s"
  "frame ((abort_current s)\<lparr>h_abortController := None\<rparr>) = frame s"
  by (simp_all add: batch_ok_def frame_def abort_current_def split: option.splits)

lemma stop_ok:
  assumes "chat_ok s"
  shows "chat_ok (stopGeneration now s) \<and> frame (stopGeneration now s) = frame s"
proof -
  have "conn_ok (flushStreamUpdates now (stopStream s))"
    using assms by (simp add: conn_ok_cong [OF conn_flush] conn_ok_stop chat_ok_def)
  from conn_ok_abort [OF this] show ?thesis
    using assms by (simp add: stopGeneration_def chat_ok_def conn_ok_cong [OF conn_messages(1)]
        batch_ok_flush stopStream_def)
qed

lemma send_ok:
  assumes "chat_ok s"
  shows "chat_ok (sendChat env now started config enabled ms s)
    \<and> frame (sendChat env now started config enabled ms s) = frame s"
proof (cases "g_stream config")
  case False
  then show ?thesis using assms
    by (auto simp: sendChat_def sendNonStreamingChat_def Let_def chat_ok_def conn_ok_def batch_ok_def
        frame_def)
next
  case True
  let ?p = "buildChatCompletionPayload ms config enabled"
  define s1 where "s1 = (close_source (h_source s) (s\<lparr>h_isRequesting := True\<rparr>))
      \<lparr>h_sources := Suc (h_sources s), h_requests := h_requests s @ [?p],
       h_source := Some (h_sources s), h_isStreamComplete := False, h_isStreaming := True\<rparr>"
  have "conn_ok s1"
    using assms by (auto simp: s1_def chat_ok_def conn_ok_def close_source_def less_Suc_eq
        split: option.splits)
  moreover have "batch_ok s1" "frame s1 = frame s" "h_sources s1 = Suc (h_sources s)"
    using assms by (simp_all add: s1_def chat_ok_def batch_ok_def frame_def close_source_def
        split: option.splits)
  moreover have "sendChat env now started config enabled ms s =
      (if started then s1 else closeActiveStream (Some (h_sources s))
         (handleStreamError env now STREAM_START_ERROR None s1))"
    using True by (simp add: sendChat_def sendStreamingChat_def sendStreamRequest_def Let_def s1_def
        close_source_def split: option.splits)
  ultimately show ?thesis
    by (auto simp: chat_ok_def batch_ok_error conn_ok_cong [OF conn_error] intro!: conn_ok_close)
qed

lemma unmount_ok: "chat_ok s \<Longrightarrow> chat_ok (unmountChat s) \<and> frame (unmountChat s) = frame s"
  by (auto simp: unmountChat_def chat_ok_def conn_ok_def batch_ok_def frame_def)

lemma chat_step_ok: "chat_step env s s' \<Longrightarrow> chat_ok s \<Longrightarrow> chat_ok s' \<and> frame s' = frame s"
  by (cases rule: chat_step.cases) (auto simp: settle_ok stop_ok send_ok unmount_ok stream_event_ok)

lemma chat_run_ok: "(chat_step env)\<^sup>*\<^sup>* s s' \<Longrightarrow> chat_ok s \<Longrightarrow> chat_ok s' \<and> frame s' = frame s"
  by (induction rule: rtranclp_induct) (auto dest: chat_step_ok)

text \<open>Every message keeps at least one version, which the stored form demands.\<close>

definition versions_ok :: "Message list \<Rightarrow> bool" where
  "versions_ok ms \<longleftrightarrow> (\<forall>m \<in> set ms. m_versions m \<noteq> [])"

lemma versions_ok_updates:
  assumes "versions_ok ms"
  shows "versions_ok (updateLastAssistantMessage ms (flushUpdate now r c))"
    and "versions_ok (updateLastAssistantMessage ms (completeUpdate now))"
    and "versions_ok (updateLastAssistantMessage ms (stopUpdate now))"
    and "versions_ok (updateLastAssistantMessage ms (responseUpdate now resp))"
    and "versions_ok (updateAssistantMessageWithError now ms e ecode title)"
  using assms unfolding versions_ok_def updateAssistantMessageWithError_def
  by (blast intro!: flush_update.update_last_versions finish_update.update_last_versions
      stop_update.update_last_versions response_update.update_last_versions
      error_update.update_last_versions)+

lemma versions_flush: "versions_ok (h_messages s) \<Longrightarrow> versions_ok (h_messages (flushStreamUpdates now s))"
  by (simp add: flush_messages versions_ok_updates)

lemma versions_complete:
  "versions_ok (h_messages s) \<Longrightarrow> versions_ok (h_messages (handleStreamComplete now s))"
  by (simp add: handleStreamComplete_def onMessageUpdate_def versions_ok_updates versions_flush)

lemma versions_error:
  "versions_ok (h_messages s) \<Longrightarrow> versions_ok (h_messages (handleStreamError env now e c s))"
  by (simp add: handleStreamError_def onMessageUpdate_def Let_def versions_ok_updates versions_flush)

lemma versions_chunks:
  "h_messages (fold (\<lambda>(ty, c). handleStreamUpdate ty c) us s) = h_messages s"
  by (induction us arbitrary: s) (auto simp: handleStreamUpdate_messages)

lemma versions_handleError:
  "versions_ok (h_messages s) \<Longrightarrow> versions_ok (h_messages (handleError env now i e c s))"
  by (simp add: handleError_def versions_error)

lemma stream_event_versions:
  "stream_event env s s' \<Longrightarrow> versions_ok (h_messages s) \<Longrightarrow> versions_ok (h_messages s')"
  by (induction rule: stream_event.induct)
    (auto simp: on_message_def on_error_def on_readystatechange_def Let_def versions_flush
      versions_chunks intro!: versions_handleError versions_complete split: sum.splits option.splits)

lemma send_messages:
  "versions_ok (h_messages s) \<Longrightarrow>
   versions_ok (h_messages (sendChat env now started config enabled ms s))"
  by (auto simp: sendChat_def sendStreamingChat_def sendNonStreamingChat_def sendStreamRequest_def
      Let_def close_source_def intro!: versions_error split: option.splits)

lemma chat_step_versions:
  "chat_step env s s' \<Longrightarrow> versions_ok (h_messages s) \<Longrightarrow> versions_ok (h_messages s')"
proof (induction rule: chat_step.induct)
  case (st_settle i s now outcome)
  then show ?case
    by (auto simp: settleNonStreamingChat_def Let_def onMessageUpdate_def versions_ok_updates
        versions_error split: sum.splits)
next
  case (st_stop s now)
  then show ?case
    by (auto simp: stopGeneration_def onMessageUpdate_def stopStream_def abort_current_def
        intro!: versions_ok_updates versions_flush split: option.splits)
qed (auto simp: stream_event_versions send_messages unmountChat_def)

lemma initial_chat_ok: "chat_ok (initial_chat\<lparr>h_messages := ms\<rparr>)"
  by (simp add: initial_chat_def chat_ok_def conn_ok_def batch_ok_def)

section \<open>Stopping, completion and errors\<close>

lemma stop_fields:
  "h_source (stopGeneration now s) = None" "h_isStreaming (stopGeneration now s) = False"
  "h_isRequesting (stopGeneration now s) = False" "h_pending_content (stopGeneration now s) = []"
  "h_pending_reasoning (stopGeneration now s) = []" "h_abortController (stopGeneration now s) = None"
  by (simp_all add: stopGeneration_def onMessageUpdate_def abort_current_def flushStreamUpdates_def
      stopStream_def closeActiveStream_def Let_def split: option.splits)

lemma stop_messages:
  "h_messages (stopGeneration now s) = updateLastAssistantMessage
     (h_messages (flushStreamUpdates now (stopStream s))) (stopUpdate now)"
  by (simp add: stopGeneration_def onMessageUpdate_def abort_current_def split: option.splits)

lemma stop_aborts: "h_abortController s = Some c \<Longrightarrow> c \<in> set (h_aborted (stopGeneration now s))"
  by (simp add: stopGeneration_def onMessageUpdate_def abort_current_def flushStreamUpdates_def
      stopStream_def closeActiveStream_def close_source_def Let_def split: option.splits)

lemma stopUpdate_not_pending: "\<not> isPendingAssistantMessage (Some (stopUpdate now m))"
  by (simp add: stopUpdate_def isPendingAssistantMessage_def isAssistantMessagePending_def
      message_simps)

lemma settle_aborted:
  "i \<in> set (h_aborted s) \<Longrightarrow> h_messages (settleNonStreamingChat env now i outcome s) = h_messages s"
  by (simp add: settleNonStreamingChat_def Let_def)

lemma no_source_all_closed:
  "chat_ok s \<Longrightarrow> h_source s = None \<Longrightarrow> i < h_sources s \<Longrightarrow> i \<in> set (h_closed s)"
  by (auto simp: chat_ok_def conn_ok_def)

text \<open>Nothing is held back and no stream is open after a normal end.\<close>

definition quiet :: "ChatState \<Rightarrow> bool" where
  "quiet s \<longleftrightarrow> chat_ok s \<and> h_source s = None \<and> h_isStreamComplete s
     \<and> h_pending_content s = [] \<and> h_pending_reasoning s = []"

lemma flush_nothing:
  "h_pending_content s = [] \<Longrightarrow> h_pending_reasoning s = [] \<Longrightarrow>
   h_messages (flushStreamUpdates now s) = h_messages s"
  by (simp add: flushStreamUpdates_def Let_def)

lemma quiet_step:
  assumes "stream_event env s s'" "quiet s"
  shows "quiet s' \<and> h_messages s' = h_messages s"
proof -
  have ok: "chat_ok s'" using stream_event_ok [OF assms(1)] assms(2) by (simp add: quiet_def)
  from assms(1) show ?thesis
  proof cases
    case (ev_timer now)
    have "conn s' = conn s" by (simp add: ev_timer)
    then show ?thesis using ok assms(2)
      by (simp add: ev_timer quiet_def flush_nothing conn_def)
  next
    case (ev_message source now data)
    then show ?thesis using no_source_all_closed [of s source] assms(2) by (simp add: quiet_def)
  next
    case (ev_error source now readyState edata)
    then show ?thesis using assms(2) by (simp add: quiet_def on_error_def handleError_def Let_def)
  next
    case (ev_ready source now eready status)
    then show ?thesis using assms(2)
      by (simp add: quiet_def on_readystatechange_def handleError_def split: option.splits)
  qed
qed

lemma quiet_run: "(stream_event env)\<^sup>*\<^sup>* s s' \<Longrightarrow> quiet s \<Longrightarrow> quiet s' \<and> h_messages s' = h_messages s"
  by (induction rule: rtranclp_induct) (auto dest: quiet_step)

lemma completeUpdate_final: "isAssistantMessageFinal (completeUpdate now m)"
  by (simp add: completeUpdate_def isAssistantMessageFinal_def message_simps)

lemma done_state:
  assumes "chat_ok s" "h_source s = Some src"
  shows "quiet (on_message env now src STREAM_DONE_MESSAGE s)"
    and "\<not> isGenerating (on_message env now src STREAM_DONE_MESSAGE s)"
    and "last_opt (h_messages (on_message env now src STREAM_DONE_MESSAGE s)) = Some m \<Longrightarrow>
      m_from m = Assistant \<Longrightarrow> isAssistantMessageFinal m"
proof -
  have src: "src < h_sources s" "src \<notin> set (h_closed s)"
    using assms by (auto simp: chat_ok_def conn_ok_def)
  have ok: "chat_ok (on_message env now src STREAM_DONE_MESSAGE s)"
    using on_message_ok [OF assms(1) src] by simp
  let ?c = "closeActiveStream (Some src) (s\<lparr>h_isStreamComplete := True\<rparr>)"
  have eq: "on_message env now src STREAM_DONE_MESSAGE s = handleStreamComplete now ?c"
    by (simp add: on_message_def isStreamDoneMessage_def)
  have c: "h_source ?c = None" "h_isStreamComplete ?c" "\<not> h_isStreaming ?c"
    using assms(2) by (simp_all add: closeActiveStream_def close_source_def coalesce_def Let_def)
  have k: "conn (handleStreamComplete now ?c) = conn ?c" by simp
  show "quiet (on_message env now src STREAM_DONE_MESSAGE s)"
    using ok c k by (simp add: eq quiet_def conn_def handleStreamComplete_def onMessageUpdate_def)
  show "\<not> isGenerating (on_message env now src STREAM_DONE_MESSAGE s)"
    using c k by (simp add: eq isGenerating_def conn_def handleStreamComplete_def onMessageUpdate_def)
  show "isAssistantMessageFinal m"
    if "last_opt (h_messages (on_message env now src STREAM_DONE_MESSAGE s)) = Some m"
      and "m_from m = Assistant"
    using that completeUpdate_final
    by (auto simp: eq handleStreamComplete_def onMessageUpdate_def elim!: last_opt_updateE)
qed

text \<open>A conversation that ends with an error message.\<close>

definition errored :: "ChatState \<Rightarrow> bool" where
  "errored s \<longleftrightarrow> (\<exists>m. last_opt (h_messages s) = Some m \<and> m_status m = Some Error)"

lemma flushUpdate_error: "m_status m = Some Error \<Longrightarrow> flushUpdate now r c m = m"
  by (simp add: flushUpdate_def apply_error)

lemma errored_flush: "errored s \<Longrightarrow> h_messages (flushStreamUpdates now s) = h_messages s"
  by (auto simp: errored_def flush_messages flushUpdate_error intro!: update_last_id)

lemma errored_events: "errored s \<Longrightarrow> h_messages (fold batch_event es s) = h_messages s"
proof (induction es arbitrary: s)
  case (Cons e es)
  have e: "h_messages (batch_event e s) = h_messages s"
    using Cons.prems
    by (auto simp: batch_event_def errored_flush handleStreamUpdate_messages split: option.splits)
  then have "errored (batch_event e s)" using Cons.prems by (simp add: errored_def)
  from Cons.IH [OF this] e show ?case by simp
qed simp

lemma errored_complete: "errored s \<Longrightarrow> h_messages (handleStreamComplete now s) = h_messages s"
  by (auto simp: handleStreamComplete_def onMessageUpdate_def errored_flush errored_def
      completeUpdate_def isAssistantMessageFinal_def intro!: update_last_id)

lemma errored_stop: "errored s \<Longrightarrow> h_messages (stopGeneration now s) = h_messages s"
proof -
  assume e: "errored s"
  then have "errored (stopStream s)" by (simp add: errored_def stopStream_def)
  from errored_flush [OF this, of now] show ?thesis
    using e by (auto simp: stop_messages stopStream_def errored_def stopUpdate_def
        isAssistantMessagePending_def intro!: update_last_id)
qed

lemma error_last:
  assumes "last_opt (h_messages s) = Some m" "m_from m = Assistant"
  shows "\<exists>m'. last_opt (h_messages (handleStreamError env now e c s)) = Some m'
    \<and> m_key m' = m_key m \<and> m_status m' = Some Error
    \<and> getMessageContent m' = env_t env API_REQUEST_ERROR @ '': '' @ getDisplayError (env_t env) e
    \<and> m_errorCode m' = Some (if truthy_str c then c else None)"
  using assms
  by (simp add: handleStreamError_def onMessageUpdate_def Let_def updateAssistantMessageWithError_def
      last_opt_update flush_messages message_simps) (simp add: errorUpdate_def message_simps)

section \<open>Properties\<close>

definition example_env :: chat_env where
  "example_env = \<lparr>env_t = id, env_chunk = (\<lambda>_. Inl SyntaxError), env_error = (\<lambda>_. Inl SyntaxError)\<rparr>"

definition example_chat :: ChatState where
  "example_chat = initial_chat\<lparr>h_messages := [example_assistant]\<rparr>"

text \<open>
  (C10) Batching is transparent. Whatever the moments at which held-back chunks are flushed and
  whatever reasoning chunks come between them, once everything is flushed the reply's text is
  the concatenation of the chunks when no run of chunks opens the run right after it, and
  the last chunk when each chunk extends the text before it.
\<close>

theorem batching_keeps_text:
  assumes "replying s" and "h_pending_content s = []"
  shows "(run_safe (last_content s # content_chunks es) \<longrightarrow>
      last_content (flushStreamUpdates now (fold batch_event es s)) =
        last_content s @ concat (content_chunks es))
    \<and> (sorted_wrt prefix (last_content s # content_chunks es) \<longrightarrow>
      last_content (flushStreamUpdates now (fold batch_event es s)) =
        last (last_content s # content_chunks es))"
  unfolding flushed_content [OF assms] content_chunks_def
  using batch_deltas_flushed batch_snapshots_flushed by blast

theorem batching_keeps_text_witness:
  "replying example_chat
   \<and> last_content (flushStreamUpdates 9 (fold batch_event
       [(1, Some (ContentChunk, ''Hel'')), (2, None), (3, Some (ReasoningChunk, ''x'')),
        (4, Some (ContentChunk, ''lo''))] example_chat)) = ''Hello''"
proof -
  have r: "replying example_chat" and p: "h_pending_content example_chat = []"
    and t: "last_content example_chat = []"
    by code_simp+
  let ?es = "[(1 :: number, Some (ContentChunk, ''Hel'')), (2, None),
    (3, Some (ReasoningChunk, ''x'')), (4, Some (ContentChunk, ''lo''))]"
  have c: "content_chunks ?es = [''Hel'', ''lo'']" by code_simp
  have "run_safe [[], ''Hel'', ''lo'']" by code_simp
  with batching_keeps_text [OF r p, of ?es 9] r show ?thesis by (simp only: t c) simp
qed

text \<open>
  Two increments of one batch where the second starts with the first: the first is dropped.
\<close>

lemma batching_drops_repeated_prefix:
  "last_content (flushStreamUpdates 3 (fold batch_event
     [(1, Some (ContentChunk, ''1'')), (2, Some (ContentChunk, ''10''))]
     (example_chat\<lparr>h_messages := [updateCurrentVersionContent example_assistant ''n = '']\<rparr>)))
   = ''n = 10''"
  by code_simp

text \<open>
  (C6) In every state the handler can reach, the streaming flag is on exactly when a source is
  held, every other source ever opened is closed, an open stream is not yet complete,
  held-back chunks always have a flush scheduled, and the controller kept for the running
  request is not aborted. No event changes the keys, the roles or any message but the last.
\<close>

theorem chat_handler_invariant:
  assumes "(chat_step env)\<^sup>*\<^sup>* (initial_chat\<lparr>h_messages := ms\<rparr>) s"
  shows "(h_isStreaming s \<longleftrightarrow> h_source s \<noteq> None)
    \<and> (\<forall>i < h_sources s. i \<in> set (h_closed s) \<longleftrightarrow> h_source s \<noteq> Some i)
    \<and> (h_source s \<noteq> None \<longrightarrow> \<not> h_isStreamComplete s)
    \<and> (h_pending_content s \<noteq> [] \<or> h_pending_reasoning s \<noteq> [] \<longrightarrow> h_flushTimer s)
    \<and> (\<forall>c. h_abortController s = Some c \<longrightarrow> c \<notin> set (h_aborted s))
    \<and> map m_key (h_messages s) = map m_key ms \<and> map m_from (h_messages s) = map m_from ms
    \<and> butlast (h_messages s) = butlast ms"
  using chat_run_ok [OF assms initial_chat_ok]
  by (auto simp: chat_ok_def conn_ok_def batch_ok_def frame_def)

theorem chat_handler_invariant_witness:
  "\<exists>s. (chat_step example_env)\<^sup>*\<^sup>* (initial_chat\<lparr>h_messages := [example_assistant]\<rparr>) s
    \<and> h_isStreaming s \<and> h_source s \<noteq> None"
proof -
  let ?init = "initial_chat\<lparr>h_messages := [example_assistant]\<rparr>"
  let ?s = "sendChat example_env 1 True DEFAULT_CONFIG DEFAULT_PARAMETER_ENABLED [] ?init"
  have r: "(chat_step example_env)\<^sup>*\<^sup>* ?init ?s" using st_send [of example_env ?init] by (rule r_into_rtranclp)
  have "h_isStreaming ?s"
    by (simp add: sendChat_def sendStreamingChat_def sendStreamRequest_def DEFAULT_CONFIG_def Let_def)
  with chat_handler_invariant [OF r] r show ?thesis by blast
qed

text \<open>
  (C24) Stopping ends the reply: nothing is generating, nothing is held back, every source is
  closed, the last message is not pending, and the answer to the request that was running is
  ignored when it still arrives.
\<close>

theorem stopGeneration_stops:
  assumes "chat_ok s"
  shows "\<not> isGenerating (stopGeneration now s)
    \<and> h_pending_content (stopGeneration now s) = [] \<and> h_pending_reasoning (stopGeneration now s) = []
    \<and> (\<forall>i < h_sources (stopGeneration now s). i \<in> set (h_closed (stopGeneration now s)))
    \<and> (\<forall>m. last_opt (h_messages (stopGeneration now s)) = Some m \<longrightarrow>
         \<not> isPendingAssistantMessage (Some m))
    \<and> (\<forall>c. h_abortController s = Some c \<longrightarrow>
         h_messages (settleNonStreamingChat env now' c outcome (stopGeneration now s)) =
         h_messages (stopGeneration now s))"
proof (intro conjI allI impI)
  show "i \<in> set (h_closed (stopGeneration now s))" if "i < h_sources (stopGeneration now s)" for i
    using no_source_all_closed stop_ok [OF assms] that by (simp add: stop_fields)
  show "\<not> isPendingAssistantMessage (Some m)"
    if "last_opt (h_messages (stopGeneration now s)) = Some m" for m
  proof
    assume "isPendingAssistantMessage (Some m)"
    moreover from this have "m_from m = Assistant" by (simp add: isPendingAssistantMessage_def)
    with that obtain x where "m = stopUpdate now x"
      unfolding stop_messages by (rule last_opt_updateE)
    ultimately show False by (simp add: stopUpdate_not_pending)
  qed
  show "h_messages (settleNonStreamingChat env now' c outcome (stopGeneration now s)) =
      h_messages (stopGeneration now s)" if "h_abortController s = Some c" for c
    by (intro settle_aborted stop_aborts that)
qed (simp_all add: stop_fields isGenerating_def)

theorem stopGeneration_stops_witness:
  "chat_ok example_chat \<and> \<not> isGenerating (stopGeneration 2 example_chat)"
proof -
  have "chat_ok example_chat" unfolding example_chat_def by (rule initial_chat_ok)
  with stopGeneration_stops show ?thesis by blast
qed

text \<open>
  (C25) The end marker of the open stream completes the reply: nothing is generating, the last
  assistant message is final, and no later event of any stream, an error included, changes a
  message until something new is sent.
\<close>

theorem stream_done_is_final:
  assumes "chat_ok s" and "h_source s = Some src"
    and "(stream_event env)\<^sup>*\<^sup>* (on_message env now src STREAM_DONE_MESSAGE s) s'"
  shows "\<not> isGenerating (on_message env now src STREAM_DONE_MESSAGE s)
    \<and> (\<forall>m. last_opt (h_messages s') = Some m \<and> m_from m = Assistant \<longrightarrow> isAssistantMessageFinal m)
    \<and> h_messages s' = h_messages (on_message env now src STREAM_DONE_MESSAGE s)"
  using done_state [OF assms(1,2), of env now] quiet_run [OF assms(3)] by auto

theorem stream_done_is_final_witness:
  "\<exists>s. chat_ok s \<and> h_source s = Some 0
    \<and> \<not> isGenerating (on_message example_env 2 0 STREAM_DONE_MESSAGE s)"
proof -
  let ?s = "sendChat example_env 1 True DEFAULT_CONFIG DEFAULT_PARAMETER_ENABLED [] example_chat"
  have "chat_ok example_chat" unfolding example_chat_def by (rule initial_chat_ok)
  then have ok: "chat_ok ?s" using send_ok by blast
  have src: "h_source ?s = Some 0"
    by (simp add: sendChat_def sendStreamingChat_def sendStreamRequest_def DEFAULT_CONFIG_def Let_def
        close_source_def example_chat_def initial_chat_def)
  from stream_done_is_final [OF ok src rtranclp.rtrancl_refl] ok src show ?thesis by blast
qed

text \<open>
  (C26) A failure is shown and stays. The last assistant message carries the error text and
  code, one toast is raised, and neither further chunks and flushes, nor the end of the
  stream, nor a stop changes it.
\<close>

theorem stream_error_sticks:
  assumes "last_opt (h_messages s) = Some m" and "m_from m = Assistant"
  shows "(\<exists>m'. last_opt (h_messages (handleStreamError env now e c s)) = Some m'
      \<and> m_key m' = m_key m \<and> m_status m' = Some Error
      \<and> getMessageContent m' = env_t env API_REQUEST_ERROR @ '': '' @ getDisplayError (env_t env) e
      \<and> m_errorCode m' = Some (if truthy_str c then c else None))
    \<and> h_toasts (handleStreamError env now e c s) = h_toasts s @ [getDisplayError (env_t env) e]
    \<and> (let s1 = fold batch_event es (handleStreamError env now e c s);
            ms = h_messages (handleStreamError env now e c s)
       in h_messages s1 = ms \<and> h_messages (handleStreamComplete now1 s1) = ms
          \<and> h_messages (stopGeneration now2 s1) = ms)"
proof -
  let ?s = "handleStreamError env now e c s"
  have err: "errored ?s" using error_last [OF assms, of env now e c] by (auto simp: errored_def)
  from errored_events [OF err, of es] have es: "h_messages (fold batch_event es ?s) = h_messages ?s" .
  with err have "errored (fold batch_event es ?s)" by (simp add: errored_def)
  then have "h_messages (handleStreamComplete now1 (fold batch_event es ?s)) = h_messages ?s"
    "h_messages (stopGeneration now2 (fold batch_event es ?s)) = h_messages ?s"
    by (simp_all add: errored_complete errored_stop es)
  moreover have "h_toasts ?s = h_toasts s @ [getDisplayError (env_t env) e]"
    by (simp add: handleStreamError_def onMessageUpdate_def flushStreamUpdates_def Let_def)
  ultimately show ?thesis using error_last [OF assms, of env now e c] es by (simp add: Let_def)
qed

theorem stream_error_sticks_witness:
  "last_opt (h_messages example_chat) = Some example_assistant
   \<and> h_toasts (handleStreamError example_env 1 PARSE_ERROR None example_chat) = [PARSE_ERROR]"
proof -
  have l: "last_opt (h_messages example_chat) = Some example_assistant"
    and a: "m_from example_assistant = Assistant"
    by (simp_all add: example_chat_def last_opt_def example_assistant_def
        createLoadingAssistantMessage_def)
  have "h_toasts example_chat = []" "getDisplayError id PARSE_ERROR = PARSE_ERROR"
    by (simp_all add: example_chat_def initial_chat_def getDisplayError_def KNOWN_ERROR_MESSAGES_def
        ERROR_MESSAGES_def)
  with stream_error_sticks [OF l a, of example_env 1 PARSE_ERROR None "[]" 1 1] l show ?thesis
    by (simp add: example_env_def)
qed

end
