(* ===== verification/Js_Number.thy ===== *)
theory Js_Number
  imports Complex_Main Js_Prelude
begin

text \<open>
  Numbers of the language. A finite number is the rational it stands for; \<open>to_double\<close> rounds
  a rational to binary64 (nearest, ties to even, with subnormals and overflow), so that the
  result of an operation is the rounded exact result. Minus zero is not told apart from
  zero: nothing in the modelled code divides by it or prints it. The theory also has
  \<open>Number.prototype.toString\<close> (the shortest digits that read back), \<open>toFixed\<close>, and the
  conversion of a string to a number.
\<close>

section \<open>Binary64\<close>

datatype jsnum = Fin rat | PosInf | NegInf | NaN

fun bits :: "nat \<Rightarrow> nat" where
  "bits n = (if n = 0 then 0 else Suc (bits (n div 2)))"

declare bits.simps [simp del]

text \<open>The binary exponent of a positive rational.\<close>

definition ilog2 :: "rat \<Rightarrow> int" where
  "ilog2 x = (let (p, q) = quotient_of x; e = int (bits (nat p)) - int (bits (nat q))
     in if 2 powi e \<le> x then e else e - 1)"

definition round_half_even :: "rat \<Rightarrow> int" where
  "round_half_even x = (let f = \<lfloor>x\<rfloor>; d = x - of_int f
     in if d < 1 / 2 then f else if 1 / 2 < d then f + 1 else if even f then f else f + 1)"

definition ulp_exp :: "rat \<Rightarrow> int" where
  "ulp_exp a = max (ilog2 a - 52) (- 1074)"

definition overflow_bound :: rat where
  "overflow_bound = 2 ^ 1024"

definition to_double :: "rat \<Rightarrow> jsnum" where
  "to_double x =
     (if x = 0 then Fin 0
      else let a = \<bar>x\<bar>; q = ulp_exp a; v = of_int (round_half_even (a / 2 powi q)) * 2 powi q
           in if overflow_bound \<le> v then (if x < 0 then NegInf else PosInf)
              else Fin (if x < 0 then - v else v))"

definition is_double :: "rat \<Rightarrow> bool" where
  "is_double x \<longleftrightarrow> to_double x = Fin x"

definition MAX_SAFE_INTEGER :: int where
  "MAX_SAFE_INTEGER = 9007199254740991"

section \<open>Operations\<close>

fun js_neg :: "jsnum \<Rightarrow> jsnum" where
  "js_neg (Fin x) = Fin (- x)"
| "js_neg PosInf = NegInf"
| "js_neg NegInf = PosInf"
| "js_neg NaN = NaN"

fun js_less :: "jsnum \<Rightarrow> jsnum \<Rightarrow> bool" where
  "js_less NaN _ = False"
| "js_less _ NaN = False"
| "js_less (Fin x) (Fin y) = (x < y)"
| "js_less PosInf _ = False"
| "js_less _ PosInf = True"
| "js_less _ NegInf = False"
| "js_less NegInf _ = True"

definition js_num_eq :: "jsnum \<Rightarrow> jsnum \<Rightarrow> bool" where
  "js_num_eq x y \<longleftrightarrow> x \<noteq> NaN \<and> x = y"

definition js_leq :: "jsnum \<Rightarrow> jsnum \<Rightarrow> bool" where
  "js_leq x y \<longleftrightarrow> js_less x y \<or> js_num_eq x y"

definition js_sign :: "jsnum \<Rightarrow> int" where
  "js_sign x = (case x of Fin r \<Rightarrow> (if r < 0 then - 1 else if r = 0 then 0 else 1)
     | PosInf \<Rightarrow> 1 | NegInf \<Rightarrow> - 1 | NaN \<Rightarrow> 0)"

definition js_infinity :: "int \<Rightarrow> jsnum" where
  "js_infinity s = (if s = 0 then NaN else if s < 0 then NegInf else PosInf)"

definition js_mul :: "jsnum \<Rightarrow> jsnum \<Rightarrow> jsnum" where
  "js_mul x y = (case (x, y) of
     (Fin a, Fin b) \<Rightarrow> to_double (a * b)
   | (NaN, _) \<Rightarrow> NaN
   | (_, NaN) \<Rightarrow> NaN
   | _ \<Rightarrow> js_infinity (js_sign x * js_sign y))"

definition is_finite :: "jsnum \<Rightarrow> bool" where
  "is_finite x \<longleftrightarrow> (case x of Fin _ \<Rightarrow> True | _ \<Rightarrow> False)"

definition is_int_rat :: "rat \<Rightarrow> bool" where
  "is_int_rat r \<longleftrightarrow> of_int \<lfloor>r\<rfloor> = r"

definition is_safe_integer :: "jsnum \<Rightarrow> bool" where
  "is_safe_integer x \<longleftrightarrow> (case x of
     Fin r \<Rightarrow> is_int_rat r \<and> \<bar>r\<bar> \<le> of_int MAX_SAFE_INTEGER | _ \<Rightarrow> False)"

text \<open>Truth value of a number: zero and NaN are falsy.\<close>

definition truthy_num :: "jsnum \<Rightarrow> bool" where
  "truthy_num x \<longleftrightarrow> x \<noteq> Fin 0 \<and> x \<noteq> NaN"

section \<open>Printing\<close>

definition digit_count :: "nat \<Rightarrow> nat" where
  "digit_count n = length (string_of_nat n)"

text \<open>The decimal exponent \<open>n\<close> of a positive rational: it lies in [10^(n-1), 10^n).\<close>

definition dec_exp :: "rat \<Rightarrow> int" where
  "dec_exp x = (if 1 \<le> x then int (digit_count (nat \<lfloor>x\<rfloor>))
     else 1 - int (digit_count (nat (\<lceil>1 / x\<rceil> - 1))))"

text \<open>
  The digits of \<open>Number::toString\<close>: the least number \<open>k\<close> of digits for which some
  \<open>s * 10^e\<close> reads back as the number, and of the two neighbours the closer one. An exact
  expansion exists for every binary64 number, so the search ends (\<open>shortest_ok\<close> below).
\<close>

definition reads_back :: "rat \<Rightarrow> int \<Rightarrow> int \<Rightarrow> bool" where
  "reads_back x s e \<longleftrightarrow> 0 < s \<and> to_double (of_int s * 10 powi e) = Fin x"

definition pick_digits :: "rat \<Rightarrow> int \<Rightarrow> int option" where
  "pick_digits x e =
     (let lo = \<lfloor>x / 10 powi e\<rfloor>; hi = lo + 1;
          dlo = x / 10 powi e - of_int lo
      in if reads_back x lo e \<and> reads_back x hi e
         then Some (if dlo < 1 / 2 then lo else if 1 / 2 < dlo then hi
                    else if even lo then lo else hi)
         else if reads_back x lo e then Some lo
         else if reads_back x hi e then Some hi
         else None)"

fun shortest :: "nat \<Rightarrow> nat \<Rightarrow> rat \<Rightarrow> int \<Rightarrow> (int \<times> int) option" where
  "shortest fuel k x n =
     (if fuel = 0 then None
      else (case pick_digits x (n - int k) of
              Some s \<Rightarrow> Some (if s = 10 ^ k then (1, n) else (s, n - int k))
            | None \<Rightarrow> shortest (fuel - 1) (Suc k) x n))"

declare shortest.simps [simp del]

definition zeros :: "nat \<Rightarrow> string" where
  "zeros n = replicate n CHR ''0''"

definition exponent_part :: "int \<Rightarrow> string" where
  "exponent_part e = (if 0 \<le> e then ''e+'' else ''e-'') @ string_of_nat (nat \<bar>e\<bar>)"

definition format_digits :: "string \<Rightarrow> int \<Rightarrow> string" where
  "format_digits ds n =
     (let k = int (length ds)
      in if k \<le> n \<and> n \<le> 21 then ds @ zeros (nat (n - k))
         else if 0 < n \<and> n \<le> 21 then take (nat n) ds @ ''.'' @ drop (nat n) ds
         else if - 6 < n \<and> n \<le> 0 then ''0.'' @ zeros (nat (- n)) @ ds
         else if k = 1 then ds @ exponent_part (n - 1)
         else take 1 ds @ ''.'' @ drop 1 ds @ exponent_part (n - 1))"

definition positive_to_string :: "rat \<Rightarrow> string" where
  "positive_to_string x =
     (case shortest 1500 1 x (dec_exp x) of
        Some (s, e) \<Rightarrow> (let ds = string_of_nat (nat s) in format_digits ds (int (length ds) + e))
      | None \<Rightarrow> [])"

fun number_to_string :: "jsnum \<Rightarrow> string" where
  "number_to_string (Fin x) =
     (if x = 0 then ''0''
      else if x < 0 then ''-'' @ positive_to_string (- x) else positive_to_string x)"
| "number_to_string PosInf = ''Infinity''"
| "number_to_string NegInf = ''-Infinity''"
| "number_to_string NaN = ''NaN''"

text \<open>\<open>toFixed(d)\<close>: the integer nearest to \<open>x * 10^d\<close>, the larger one on a tie.\<close>

definition fixed_digits :: "nat \<Rightarrow> nat \<Rightarrow> string" where
  "fixed_digits n d =
     (if d = 0 then string_of_nat n
      else let ds = string_of_nat n;
               ds = (if length ds \<le> d then zeros (d + 1 - length ds) @ ds else ds)
           in take (length ds - d) ds @ ''.'' @ drop (length ds - d) ds)"

fun to_fixed :: "jsnum \<Rightarrow> nat \<Rightarrow> string" where
  "to_fixed (Fin x) d =
     (if 10 ^ 21 \<le> \<bar>x\<bar> then number_to_string (Fin x)
      else (if x < 0 then ''-'' else []) @ fixed_digits (nat \<lfloor>\<bar>x\<bar> * 10 ^ d + 1 / 2\<rfloor>) d)"
| "to_fixed x d = number_to_string x"

section \<open>Reading\<close>

definition nat_of_digits :: "string \<Rightarrow> nat" where
  "nat_of_digits ds = foldl (\<lambda>n c. 10 * n + (code c - 48)) 0 ds"

text \<open>
  A decimal literal at the start of a text, without sign: integer digits, an optional
  fraction and an optional exponent, as one value and the rest of the text.
\<close>

definition split_while :: "(char \<Rightarrow> bool) \<Rightarrow> string \<Rightarrow> string \<times> string" where
  "split_while P s = (takeWhile P s, dropWhile P s)"

definition read_fraction :: "string \<Rightarrow> string option \<times> string" where
  "read_fraction s = (case s of
     c # s' \<Rightarrow> if c = CHR ''.'' then (Some (fst (split_while is_digit s')), snd (split_while is_digit s'))
              else (None, s)
   | [] \<Rightarrow> (None, s))"

text \<open>An exponent part that is not well formed is left in the text.\<close>

definition read_exponent :: "string \<Rightarrow> int \<times> string" where
  "read_exponent s = (case s of
     c # s' \<Rightarrow>
       if c = CHR ''e'' \<or> c = CHR ''E''
       then let neg = (s' \<noteq> [] \<and> hd s' = CHR ''-'');
                ds = (if s' \<noteq> [] \<and> (hd s' = CHR ''-'' \<or> hd s' = CHR ''+'') then tl s' else s')
            in if fst (split_while is_digit ds) = [] then (0, s)
               else ((if neg then - 1 else 1) * int (nat_of_digits (fst (split_while is_digit ds))),
                     snd (split_while is_digit ds))
       else (0, s)
   | [] \<Rightarrow> (0, s))"

definition decimal_value :: "string \<Rightarrow> string \<Rightarrow> int \<Rightarrow> rat" where
  "decimal_value ip fp e = of_nat (nat_of_digits (ip @ fp)) * 10 powi (e - int (length fp))"

definition read_decimal :: "string \<Rightarrow> string \<times> string option \<times> int \<times> string" where
  "read_decimal s =
     (let (ip, s1) = split_while is_digit s; (fp, s2) = read_fraction s1; (e, s3) = read_exponent s2
      in (ip, fp, e, s3))"

definition unsigned_decimal :: "string \<Rightarrow> rat option" where
  "unsigned_decimal s =
     (let (ip, fp, e, rest) = read_decimal s; f = (case fp of None \<Rightarrow> [] | Some f \<Rightarrow> f)
      in if rest = [] \<and> (ip \<noteq> [] \<or> f \<noteq> []) then Some (decimal_value ip f e) else None)"

definition hex_digit :: "char \<Rightarrow> nat option" where
  "hex_digit c = (if is_digit c then Some (code c - 48)
     else if 97 \<le> code c \<and> code c \<le> 102 then Some (code c - 87)
     else if 65 \<le> code c \<and> code c \<le> 70 then Some (code c - 55) else None)"

fun radix_digits :: "nat \<Rightarrow> string \<Rightarrow> nat \<Rightarrow> nat option" where
  "radix_digits r [] acc = Some acc"
| "radix_digits r (c # cs) acc = (case hex_digit c of
     Some d \<Rightarrow> if d < r then radix_digits r cs (r * acc + d) else None
   | None \<Rightarrow> None)"

definition radix_literal :: "string \<Rightarrow> rat option" where
  "radix_literal s =
     (if length s < 3 \<or> hd s \<noteq> CHR ''0'' then None
      else let c = lower_char (s ! 1); ds = drop 2 s
           in map_option of_nat
                (if c = CHR ''x'' then radix_digits 16 ds 0
                 else if c = CHR ''o'' then radix_digits 8 ds 0
                 else if c = CHR ''b'' then radix_digits 2 ds 0 else None))"

text \<open>\<open>Number(s)\<close> of a string.\<close>

definition string_to_number :: "string \<Rightarrow> jsnum" where
  "string_to_number s =
     (let s = trim s
      in if s = [] then Fin 0
         else (case radix_literal s of
            Some v \<Rightarrow> to_double v
          | None \<Rightarrow>
             let neg = (hd s = CHR ''-'');
                 body = (if hd s = CHR ''-'' \<or> hd s = CHR ''+'' then tl s else s)
             in if body = ''Infinity'' then (if neg then NegInf else PosInf)
                else (case unsigned_decimal body of
                   Some v \<Rightarrow> to_double (if neg then - v else v)
                 | None \<Rightarrow> NaN)))"

section \<open>Digits\<close>

lemma is_digit_char [simp]: "n < 10 \<Longrightarrow> is_digit (char_of (48 + n :: nat))"
  by (simp add: is_digit_def)

lemma string_of_nat_digits: "\<forall>c \<in> set (string_of_nat n). is_digit c"
proof (induction n rule: string_of_nat.induct)
  case (1 n)
  then show ?case by (subst string_of_nat.simps) auto
qed

lemma string_of_nat_not_Nil [simp]: "string_of_nat n \<noteq> []"
  by (subst string_of_nat.simps) simp

lemma nat_of_digits_snoc [simp]: "nat_of_digits (ds @ [c]) = 10 * nat_of_digits ds + (code c - 48)"
  by (simp add: nat_of_digits_def)

lemma nat_of_digits_Nil [simp]: "nat_of_digits [] = 0"
  by (simp add: nat_of_digits_def)

lemma nat_of_digits_append:
  "nat_of_digits (xs @ ys) = nat_of_digits xs * 10 ^ length ys + nat_of_digits ys"
proof (induction ys rule: rev_induct)
  case (snoc y ys)
  have "nat_of_digits (xs @ ys @ [y]) = nat_of_digits ((xs @ ys) @ [y])" by simp
  also have "\<dots> = 10 * nat_of_digits (xs @ ys) + (code y - 48)" by (rule nat_of_digits_snoc)
  finally show ?case using snoc.IH by (simp add: algebra_simps)
qed simp

lemma nat_of_digits_string [simp]: "nat_of_digits (string_of_nat n) = n"
proof (induction n rule: string_of_nat.induct)
  case (1 n)
  then show ?case
    using nat_of_digits_snoc [of "[]"] by (subst string_of_nat.simps) auto
qed

lemma nat_of_digits_zeros [simp]: "nat_of_digits (zeros k) = 0"
proof (induction k)
  case (Suc k)
  have "zeros (Suc k) = zeros k @ [CHR ''0'']" by (simp add: zeros_def replicate_append_same)
  then show ?case using Suc by simp
qed (simp add: zeros_def)

lemma hd_string_of_nat: "0 < n \<Longrightarrow> hd (string_of_nat n) \<noteq> CHR ''0''"
proof (induction n rule: string_of_nat.induct)
  case (1 n)
  show ?case
  proof (cases "n < 10")
    case True
    have "code (char_of (48 + n)) = 48 + n" using True by simp
    then have "char_of (48 + n) \<noteq> CHR ''0''" using 1(2) by (auto dest: arg_cong [of _ _ code])
    with True show ?thesis by (subst string_of_nat.simps) simp
  next
    case False
    with 1 show ?thesis by (subst string_of_nat.simps) simp
  qed
qed

lemma digit_count_le: "n < 10 ^ d \<Longrightarrow> 0 < d \<Longrightarrow> digit_count n \<le> d"
proof (induction n arbitrary: d rule: string_of_nat.induct)
  case (1 n)
  show ?case
  proof (cases "n < 10")
    case True
    then have "string_of_nat n = [char_of (48 + n)]" by (subst string_of_nat.simps) simp
    with 1(3) show ?thesis by (simp add: digit_count_def)
  next
    case False
    obtain d' where d: "d = Suc d'" using 1(3) by (cases d) auto
    have "n div 10 < 10 ^ d'" using 1(2) d by (simp add: less_mult_imp_div_less mult.commute)
    moreover have "0 < d'" using False 1(2) d by (cases d') auto
    ultimately have "digit_count (n div 10) \<le> d'" using 1(1) False by blast
    moreover have "string_of_nat n = string_of_nat (n div 10) @ [char_of (48 + n mod 10)]"
      using False by (subst string_of_nat.simps) simp
    ultimately show ?thesis by (simp add: digit_count_def d)
  qed
qed

section \<open>Reading what was printed\<close>

definition stops :: "string \<Rightarrow> bool" where
  "stops s \<longleftrightarrow> s = [] \<or> (\<not> is_digit (hd s) \<and> hd s \<noteq> CHR ''.'' \<and> hd s \<noteq> CHR ''e'' \<and> hd s \<noteq> CHR ''E'')"

lemma span_digits:
  "\<forall>c \<in> set ds. is_digit c \<Longrightarrow> rest = [] \<or> \<not> is_digit (hd rest) \<Longrightarrow>
   split_while is_digit (ds @ rest) = (ds, rest)"
  by (cases rest) (auto simp: split_while_def takeWhile_append2 dropWhile_append2)

lemma read_exponent_stops: "stops s \<Longrightarrow> read_exponent s = (0, s)"
  by (cases s) (auto simp: read_exponent_def stops_def)

lemma read_fraction_none: "s = [] \<or> hd s \<noteq> CHR ''.'' \<Longrightarrow> read_fraction s = (None, s)"
  by (cases s) (auto simp: read_fraction_def)

lemma read_fraction_some:
  "\<forall>c \<in> set ds. is_digit c \<Longrightarrow> rest = [] \<or> \<not> is_digit (hd rest) \<Longrightarrow>
   read_fraction (CHR ''.'' # ds @ rest) = (Some ds, rest)"
  by (simp add: read_fraction_def span_digits)

lemma not_digit [simp]:
  "\<not> is_digit CHR ''.''" "\<not> is_digit CHR ''e''" "\<not> is_digit CHR ''-''" "\<not> is_digit CHR ''+''"
  "is_digit CHR ''0''"
  by (simp_all add: is_digit_def)

lemma read_exponent_part:
  assumes "stops rest"
  shows "read_exponent (exponent_part e @ rest) = (e, rest)"
proof -
  let ?d = "string_of_nat (nat \<bar>e\<bar>)"
  have "split_while is_digit (?d @ rest) = (?d, rest)"
    using assms string_of_nat_digits by (intro span_digits) (auto simp: stops_def)
  then show ?thesis
    by (cases "0 \<le> e") (simp_all add: read_exponent_def exponent_part_def Let_def)
qed

lemma zeros_digits: "\<forall>c \<in> set (zeros k). is_digit c"
  by (simp add: zeros_def)

lemma length_zeros [simp]: "length (zeros k) = k"
  by (simp add: zeros_def)

definition decimal_ok :: "string \<Rightarrow> string option \<Rightarrow> bool" where
  "decimal_ok ip fp \<longleftrightarrow> ip \<noteq> [] \<and> (ip = ''0'' \<or> hd ip \<noteq> CHR ''0'') \<and> fp \<noteq> Some []"

definition frac :: "string option \<Rightarrow> string" where
  "frac fp = (case fp of None \<Rightarrow> [] | Some f \<Rightarrow> f)"

lemma read_format:
  assumes ds: "\<forall>c \<in> set ds. is_digit c" "ds \<noteq> []" "hd ds \<noteq> CHR ''0''" and rest: "stops rest"
  shows "\<exists>ip fp e. read_decimal (format_digits ds n @ rest) = (ip, fp, e, rest)
    \<and> decimal_ok ip fp
    \<and> decimal_value ip (frac fp) e = of_nat (nat_of_digits ds) * 10 powi (n - int (length ds))"
proof -
  let ?k = "int (length ds)"
  have nd: "rest = [] \<or> \<not> is_digit (hd rest)" and ndot: "rest = [] \<or> hd rest \<noteq> CHR ''.''"
    using rest by (auto simp: stops_def)
  consider (whole) "?k \<le> n" "n \<le> 21" | (point) "n < ?k" "0 < n" "n \<le> 21"
    | (small) "- 6 < n" "n \<le> 0" | (one) "\<not> (- 6 < n \<and> n \<le> 21)" "?k = 1"
    | (sci) "\<not> (- 6 < n \<and> n \<le> 21)" "1 < ?k"
    using ds(2) by (cases ds) force+
  then show ?thesis
  proof cases
    case whole
    let ?z = "ds @ zeros (nat (n - ?k))"
    have "split_while is_digit (?z @ rest) = (?z, rest)"
      using ds(1) zeros_digits nd by (intro span_digits) auto
    then have "read_decimal (format_digits ds n @ rest) = (?z, None, 0, rest)"
      using whole ndot
      by (simp add: format_digits_def read_decimal_def read_fraction_none read_exponent_stops rest)
    moreover have "decimal_value (ds @ zeros (nat (n - ?k))) [] 0 =
        of_nat (nat_of_digits ds) * 10 powi (n - ?k)"
      using whole by (simp add: decimal_value_def nat_of_digits_append power_int_def)
    ultimately show ?thesis using ds(2,3) by (auto simp: decimal_ok_def frac_def)
  next
    case point
    let ?m = "nat n"
    have m: "0 < ?m" "?m < length ds" using point by auto
    have "split_while is_digit (take ?m ds @ CHR ''.'' # drop ?m ds @ rest) =
        (take ?m ds, CHR ''.'' # drop ?m ds @ rest)"
      using ds(1) by (intro span_digits) (auto dest: in_set_takeD)
    moreover have "read_fraction (CHR ''.'' # drop ?m ds @ rest) = (Some (drop ?m ds), rest)"
      using ds(1) nd by (intro read_fraction_some) (auto dest: in_set_dropD)
    ultimately have "read_decimal (format_digits ds n @ rest) =
        (take ?m ds, Some (drop ?m ds), 0, rest)"
      using point by (simp add: format_digits_def read_decimal_def read_exponent_stops rest)
    moreover have "decimal_value (take ?m ds) (drop ?m ds) 0 =
        of_nat (nat_of_digits ds) * 10 powi (n - ?k)"
      using m by (simp add: decimal_value_def)
    ultimately show ?thesis using m ds(2,3) by (auto simp: decimal_ok_def frac_def)
  next
    case small
    let ?f = "zeros (nat (- n)) @ ds"
    have fmt: "format_digits ds n = CHR ''0'' # CHR ''.'' # ?f"
      using small ds(2) by (cases ds) (auto simp: format_digits_def Let_def)
    have "split_while is_digit (CHR ''0'' # CHR ''.'' # ?f @ rest) = (''0'', CHR ''.'' # ?f @ rest)"
      using span_digits [of "''0''" "CHR ''.'' # ?f @ rest"] by simp
    moreover have "read_fraction (CHR ''.'' # ?f @ rest) = (Some ?f, rest)"
      using ds(1) zeros_digits nd by (intro read_fraction_some) auto
    ultimately have "read_decimal (format_digits ds n @ rest) = (''0'', Some ?f, 0, rest)"
      by (simp add: fmt read_decimal_def read_exponent_stops rest)
    moreover have "decimal_value ''0'' ?f 0 = of_nat (nat_of_digits ds) * 10 powi (n - ?k)"
      using small nat_of_digits_snoc [of "[]" "CHR ''0''"] nat_of_digits_append [of "''0''" ?f]
      by (simp add: decimal_value_def nat_of_digits_append)
    ultimately show ?thesis using ds(2) by (auto simp: decimal_ok_def frac_def)
  next
    case one
    let ?e = "exponent_part (n - 1) @ rest"
    have fmt: "format_digits ds n = ds @ exponent_part (n - 1)"
      using one ds(2) by (auto simp: format_digits_def Let_def)
    have "split_while is_digit (ds @ ?e) = (ds, ?e)"
      using ds(1) by (intro span_digits) (auto simp: exponent_part_def)
    moreover have "read_fraction ?e = (None, ?e)"
      by (rule read_fraction_none) (auto simp: exponent_part_def)
    ultimately have "read_decimal (format_digits ds n @ rest) = (ds, None, n - 1, rest)"
      by (simp add: fmt read_decimal_def read_exponent_part rest)
    then show ?thesis using one ds(2,3) by (auto simp: decimal_ok_def frac_def decimal_value_def)
  next
    case sci
    let ?e = "exponent_part (n - 1) @ rest"
    obtain d ds' where d: "ds = d # ds'" "ds' \<noteq> []" using sci by (cases ds) auto
    have fmt: "format_digits ds n = d # CHR ''.'' # ds' @ exponent_part (n - 1)"
      using sci d by (auto simp: format_digits_def Let_def)
    have "split_while is_digit (d # CHR ''.'' # ds' @ ?e) = ([d], CHR ''.'' # ds' @ ?e)"
      using ds(1) d span_digits [of "[d]" "CHR ''.'' # ds' @ ?e"] by simp
    moreover have "read_fraction (CHR ''.'' # ds' @ ?e) = (Some ds', ?e)"
      using ds(1) d by (intro read_fraction_some) (auto simp: exponent_part_def)
    ultimately have "read_decimal (format_digits ds n @ rest) = ([d], Some ds', n - 1, rest)"
      by (simp add: fmt read_decimal_def read_exponent_part rest)
    moreover have "decimal_value [d] ds' (n - 1) = of_nat (nat_of_digits ds) * 10 powi (n - ?k)"
      using d by (simp add: decimal_value_def diff_diff_eq)
    ultimately show ?thesis using d ds(3) by (auto simp: decimal_ok_def frac_def)
  qed
qed

section \<open>Exact numbers\<close>

lemma bits_le: "n < 2 ^ d \<Longrightarrow> bits n \<le> d"
proof (induction n arbitrary: d rule: bits.induct)
  case (1 n)
  show ?case
  proof (cases "n = 0")
    case False
    then obtain d' where d: "d = Suc d'" using 1(2) by (cases d) auto
    have "n div 2 < 2 ^ d'" using 1(2) d by (simp add: less_mult_imp_div_less mult.commute)
    with 1(1) [OF False] d False show ?thesis by (subst bits.simps) simp
  qed (simp add: bits.simps)
qed

lemma ilog2_int_le: "0 < n \<Longrightarrow> n < 2 ^ d \<Longrightarrow> ilog2 (of_nat n) \<le> int d - 1"
proof -
  assume n: "0 < n" "n < 2 ^ d"
  have "quotient_of (of_nat n :: rat) = (int n, 1)"
    using quotient_of_int [of "int n"] by simp
  moreover have "bits 1 = 1" by (simp add: bits.simps)
  ultimately show ?thesis using bits_le [OF n(2)] by (simp add: ilog2_def Let_def)
qed

lemma round_half_even_int [simp]: "round_half_even (of_int m) = m"
  by (simp add: round_half_even_def)

lemma to_double_exact:
  assumes "x \<noteq> 0" "\<bar>x\<bar> / 2 powi ulp_exp \<bar>x\<bar> = of_int m" "\<bar>x\<bar> < overflow_bound"
  shows "is_double x"
proof -
  have "of_int m * 2 powi ulp_exp \<bar>x\<bar> = \<bar>x\<bar>" by (simp flip: assms(2))
  moreover have "round_half_even (\<bar>x\<bar> / 2 powi ulp_exp \<bar>x\<bar>) = m" by (simp only: assms(2)
      round_half_even_int)
  ultimately show ?thesis
    using assms(1,3) by (auto simp only: is_double_def to_double_def Let_def not_le if_False
        split: if_splits)
qed

lemma is_double_0 [simp]: "is_double 0"
  by (simp add: is_double_def to_double_def)

lemma is_double_int:
  assumes "\<bar>i\<bar> < 2 ^ 53"
  shows "is_double (of_int i)"
proof (cases "i = 0")
  case False
  let ?n = "nat \<bar>i\<bar>"
  have n: "0 < ?n" "?n < 2 ^ 53" using False assms by (auto simp: nat_less_iff)
  have a: "\<bar>of_int i\<bar> = (of_nat ?n :: rat)" by simp
  let ?q = "ulp_exp (of_nat ?n)"
  have q: "?q \<le> 0" using ilog2_int_le [OF n] by (simp add: ulp_exp_def)
  have "(of_nat ?n :: rat) / 2 powi ?q = of_int (int ?n * 2 ^ nat (- ?q))"
    using q by (auto simp: power_int_def field_simps)
  moreover have "(of_nat ?n :: rat) < overflow_bound"
  proof -
    have "(of_nat ?n :: rat) < of_nat (2 ^ 53)" using n(2) by (simp only: of_nat_less_iff)
    also have "\<dots> \<le> overflow_bound" by (simp add: overflow_bound_def)
    finally show ?thesis .
  qed
  moreover have "of_int i \<noteq> (0 :: rat)" using False by simp
  ultimately show ?thesis using to_double_exact [of "of_int i"] unfolding a by blast
qed simp

lemma safe_integer_double: "is_safe_integer (Fin r) \<Longrightarrow> is_double r"
proof -
  assume *: "is_safe_integer (Fin r)"
  then have r: "r = of_int \<lfloor>r\<rfloor>"
    by (simp only: is_safe_integer_def is_int_rat_def jsnum.case)
  with * have "\<bar>of_int \<lfloor>r\<rfloor>\<bar> \<le> (of_int MAX_SAFE_INTEGER :: rat)"
    by (simp add: is_safe_integer_def)
  then have "\<bar>\<lfloor>r\<rfloor>\<bar> \<le> MAX_SAFE_INTEGER" by (simp only: of_int_abs [symmetric] of_int_le_iff)
  then have "\<bar>\<lfloor>r\<rfloor>\<bar> < 2 ^ 53" by (simp add: MAX_SAFE_INTEGER_def)
  from is_double_int [OF this] r show ?thesis by simp
qed

section \<open>Printing a number and reading it back\<close>

lemma scale_int:
  assumes "0 \<le> q + int d"
  shows "of_int r * 2 powi q * (10 ^ d :: rat) = of_int (r * 2 ^ nat (q + int d) * 5 ^ d)"
proof -
  have "(10 ^ d :: rat) = 2 ^ d * 5 ^ d" by (simp add: power_mult_distrib [symmetric])
  moreover have "2 powi q * (2 ^ d :: rat) = 2 powi (q + int d)"
    by (simp add: power_int_add)
  moreover have "2 powi (q + int d) = (2 ^ nat (q + int d) :: rat)"
    using assms by (simp add: power_int_def)
  ultimately show ?thesis by (simp add: mult.assoc [symmetric])
qed

lemma double_expansion:
  assumes "is_double x" "0 < x"
  shows "x < overflow_bound" and "\<exists>m. x * 10 ^ 1074 = of_int m"
proof -
  let ?q = "ulp_exp x" let ?r = "round_half_even (x / 2 powi ?q)"
  have x: "of_int ?r * 2 powi ?q = x" and small: "\<not> overflow_bound \<le> of_int ?r * (2 powi ?q :: rat)"
    using assms by (auto simp: is_double_def to_double_def Let_def split: if_splits)
  then show "x < overflow_bound" by (simp only: not_le)
  have "0 \<le> ?q + int 1074" by (simp add: ulp_exp_def)
  from scale_int [OF this, of ?r] x
  have "x * 10 ^ 1074 = of_int (?r * 2 ^ nat (?q + int 1074) * 5 ^ 1074)" by (simp only:)
  then show "\<exists>m. x * 10 ^ 1074 = of_int m" by blast
qed

lemma pick_digits_sound: "pick_digits x e = Some s \<Longrightarrow> reads_back x s e"
  by (auto simp: pick_digits_def Let_def split: if_splits)

lemma pick_digits_exact:
  assumes "is_double x" "0 < x" "e \<le> - 1074"
  shows "pick_digits x e \<noteq> None"
proof -
  obtain m where m: "x * 10 ^ 1074 = of_int m" using double_expansion [OF assms(1,2)] by blast
  have "x / 10 powi e = x * 10 ^ nat (- e)" using assms(3) by (simp add: power_int_def field_simps)
  also have "nat (- e) = 1074 + nat (- e - 1074)" using assms(3) by simp
  also have "x * 10 ^ (1074 + nat (- e - 1074)) = of_int (m * 10 ^ nat (- e - 1074))"
    by (simp only: power_add mult.assoc [symmetric] m of_int_mult of_int_power of_int_numeral)
  finally have i: "x / 10 powi e = of_int (m * 10 ^ nat (- e - 1074))" (is "_ = of_int ?i") .
  then have lo: "\<lfloor>x / 10 powi e\<rfloor> = ?i" by (simp only: floor_of_int)
  have v: "of_int ?i * 10 powi e = x" by (simp only: i [symmetric]) simp
  have "0 < x / 10 powi e" using assms(2) by simp
  then have "0 < ?i" unfolding i by (simp only: of_int_0_less_iff)
  then have "reads_back x ?i e"
    using assms(1) by (simp only: reads_back_def v is_double_def)
  then show ?thesis by (simp only: pick_digits_def lo Let_def) simp
qed

lemma shortest_sound:
  "shortest fuel k x n = Some (s, e) \<Longrightarrow> 0 < s \<and> to_double (of_int s * 10 powi e) = Fin x"
proof (induction fuel k x n rule: shortest.induct)
  case (1 fuel k x n)
  from "1.prems" have f: "fuel \<noteq> 0" by (subst (asm) shortest.simps) (simp split: if_splits)
  show ?case
  proof (cases "pick_digits x (n - int k)")
    case None
    from "1.prems" f None have "shortest (fuel - 1) (Suc k) x n = Some (s, e)"
      by (subst (asm) shortest.simps) simp
    with "1.IH" f None show ?thesis by blast
  next
    case (Some d)
    from pick_digits_sound [OF this] have d: "0 < d" "to_double (of_int d * 10 powi (n - int k)) = Fin x"
      by (simp_all add: reads_back_def)
    from "1.prems" f Some have se: "(if d = 10 ^ k then (1, n) else (d, n - int k)) = (s, e)"
      by (subst (asm) shortest.simps) simp
    show ?thesis
    proof (cases "d = 10 ^ k")
      case True
      have "of_int (10 ^ k) * (10 powi (n - int k) :: rat) = 10 powi n"
        by (simp add: power_int_diff)
      with True se d show ?thesis by auto
    qed (use se d in auto)
  qed
qed

lemma shortest_complete:
  "pick_digits x (n - int j) \<noteq> None \<Longrightarrow> k \<le> j \<Longrightarrow> j < k + fuel \<Longrightarrow> shortest fuel k x n \<noteq> None"
proof (induction fuel arbitrary: k)
  case (Suc fuel)
  show ?case
  proof (cases "pick_digits x (n - int k)")
    case None
    then have "k \<noteq> j" using Suc.prems(1) by auto
    with Suc.IH [of "Suc k"] Suc.prems have "shortest fuel (Suc k) x n \<noteq> None" by simp
    with None show ?thesis by (subst shortest.simps) simp
  next
    case (Some d)
    then show ?thesis by (subst shortest.simps) simp
  qed
qed simp

lemma dec_exp_le:
  assumes "x < overflow_bound"
  shows "dec_exp x \<le> 309"
proof (cases "1 \<le> x")
  case True
  have "overflow_bound \<le> 10 ^ 309" by (simp add: overflow_bound_def)
  with assms have "x < of_int (10 ^ 309)" by (simp only: of_int_power of_int_numeral)
  then have "\<lfloor>x\<rfloor> < 10 ^ 309" by (simp only: floor_less_iff)
  then have "nat \<lfloor>x\<rfloor> < 10 ^ 309" using True by (subst nat_less_iff) (simp, simp)
  from digit_count_le [OF this] True show ?thesis by (simp add: dec_exp_def)
qed (simp add: dec_exp_def)

lemma shortest_ok:
  assumes "is_double x" "0 < x"
  shows "\<exists>s e. shortest 1500 1 x (dec_exp x) = Some (s, e) \<and> 0 < s
    \<and> to_double (of_int s * 10 powi e) = Fin x"
proof -
  let ?j = "max 1 (nat (dec_exp x + 1074))"
  have "dec_exp x \<le> 309" using dec_exp_le double_expansion(1) assms by blast
  then have j: "1 \<le> ?j" "?j < 1 + 1500" "dec_exp x - int ?j \<le> - 1074" by auto
  from shortest_complete [OF pick_digits_exact [OF assms j(3)] j(1,2)]
  obtain s e where "shortest 1500 1 x (dec_exp x) = Some (s, e)" by auto
  with shortest_sound show ?thesis by blast
qed

lemma positive_to_string_reads:
  assumes "is_double x" "0 < x" "stops rest"
  shows "\<exists>ip fp e. read_decimal (positive_to_string x @ rest) = (ip, fp, e, rest)
    \<and> decimal_ok ip fp \<and> to_double (decimal_value ip (frac fp) e) = Fin x"
proof -
  obtain s e where se: "shortest 1500 1 x (dec_exp x) = Some (s, e)" "0 < s"
    "to_double (of_int s * 10 powi e) = Fin x"
    using shortest_ok [OF assms(1,2)] by blast
  let ?ds = "string_of_nat (nat s)"
  have p: "positive_to_string x = format_digits ?ds (int (length ?ds) + e)"
    by (simp only: positive_to_string_def se(1) Let_def option.case prod.case)
  have v: "of_nat (nat_of_digits ?ds) * 10 powi (int (length ?ds) + e - int (length ?ds)) =
      of_int s * (10 powi e :: rat)"
    using se(2) by simp
  have "0 < nat s" using se(2) by simp
  from read_format [OF string_of_nat_digits string_of_nat_not_Nil hd_string_of_nat [OF this] assms(3),
      of "int (length ?ds) + e"]
  show ?thesis unfolding p v using se(3) by metis
qed

text \<open>A one-digit number prints as its digit.\<close>

lemma digit_to_string:
  assumes "1 \<le> n" "n \<le> 9"
  shows "number_to_string (Fin (of_nat n)) = string_of_nat n"
proof -
  have r: "to_double (of_int k) = Fin (of_int k)" if "0 \<le> k" "k \<le> 10" for k
    using is_double_int [of k] that by (simp add: is_double_def)
  have one: "string_of_nat n = [char_of (48 + n)]" using assms by (subst string_of_nat.simps) simp
  have d: "dec_exp (of_nat n) = 1" using assms one by (simp add: dec_exp_def digit_count_def)
  have "pick_digits (of_nat n) 0 = Some (int n)"
    using r [of "int n"] r [of "int n + 1"] assms by (simp add: pick_digits_def reads_back_def Let_def)
  then have "shortest 1500 1 (of_nat n) 1 = Some (int n, 0)"
    using assms by (subst shortest.simps) simp
  then show ?thesis
    using assms d one by (simp add: positive_to_string_def Let_def format_digits_def zeros_def)
qed

end
