(* ===== verification/Js_Value.thy ===== *)
theory Js_Value
  imports Js_Number
begin

text \<open>
  Values of the language as plain data: what a parsed JSON text and an API response are made
  of. An object is the list of its own properties in order. The conversions \<open>Number(x)\<close>,
  \<open>String(x)\<close> and truth are those of the language for such values (no object here has a
  \<open>toString\<close> or \<open>valueOf\<close> of its own).
\<close>

datatype jsval =
    JUndef
  | JNull
  | JBool bool
  | JNum jsnum
  | JStr string
  | JArr "jsval list"
  | JObj "(string \<times> jsval) list"

text \<open>Reading a property of a non-null value; a missing one is undefined.\<close>

fun js_get :: "jsval \<Rightarrow> string \<Rightarrow> jsval" where
  "js_get (JObj kvs) k = (case map_of kvs k of Some v \<Rightarrow> v | None \<Rightarrow> JUndef)"
| "js_get _ _ = JUndef"

text \<open>\<open>k in v\<close> for an object.\<close>

fun js_has :: "jsval \<Rightarrow> string \<Rightarrow> bool" where
  "js_has (JObj kvs) k = (map_of kvs k \<noteq> None)"
| "js_has _ _ = False"

fun truthy :: "jsval \<Rightarrow> bool" where
  "truthy JUndef = False"
| "truthy JNull = False"
| "truthy (JBool b) = b"
| "truthy (JNum n) = truthy_num n"
| "truthy (JStr s) = (s \<noteq> [])"
| "truthy (JArr _) = True"
| "truthy (JObj _) = True"

definition nullish :: "jsval \<Rightarrow> bool" where
  "nullish v \<longleftrightarrow> v = JUndef \<or> v = JNull"

text \<open>The operator \<open>??\<close>.\<close>

definition js_coalesce :: "jsval \<Rightarrow> jsval \<Rightarrow> jsval" where
  "js_coalesce v w = (if nullish v then w else v)"

text \<open>\<open>typeof v === 'object'\<close>, which includes null and arrays, and \<open>v && typeof v === 'object'\<close>.\<close>

fun is_object :: "jsval \<Rightarrow> bool" where
  "is_object JNull = True"
| "is_object (JArr _) = True"
| "is_object (JObj _) = True"
| "is_object _ = False"

definition is_nonnull_object :: "jsval \<Rightarrow> bool" where
  "is_nonnull_object v \<longleftrightarrow> truthy v \<and> is_object v"

fun as_string :: "jsval \<Rightarrow> string option" where
  "as_string (JStr s) = Some s"
| "as_string _ = None"

definition string_or_empty :: "jsval \<Rightarrow> string" where
  "string_or_empty v = (case as_string v of Some s \<Rightarrow> s | None \<Rightarrow> [])"

text \<open>\<open>String(v)\<close>; in an array null and undefined print as nothing.\<close>

fun js_to_string :: "jsval \<Rightarrow> string" where
  "js_to_string JUndef = ''undefined''"
| "js_to_string JNull = ''null''"
| "js_to_string (JBool b) = (if b then ''true'' else ''false'')"
| "js_to_string (JNum n) = number_to_string n"
| "js_to_string (JStr s) = s"
| "js_to_string (JArr vs) =
     join '','' (map (\<lambda>v. if nullish v then [] else js_to_string v) vs)"
| "js_to_string (JObj _) = ''[object Object]''"

text \<open>\<open>Number(v)\<close>.\<close>

fun to_number :: "jsval \<Rightarrow> jsnum" where
  "to_number JUndef = NaN"
| "to_number JNull = Fin 0"
| "to_number (JBool b) = Fin (if b then 1 else 0)"
| "to_number (JNum n) = n"
| "to_number (JStr s) = string_to_number s"
| "to_number (JArr vs) = string_to_number (js_to_string (JArr vs))"
| "to_number (JObj _) = NaN"

text \<open>\<open>Number(v) || 0\<close> and \<open>Number(v) || undefined\<close>.\<close>

definition number_or_zero :: "jsval \<Rightarrow> jsnum" where
  "number_or_zero v = (if truthy_num (to_number v) then to_number v else Fin 0)"

definition number_or_none :: "jsval \<Rightarrow> jsnum option" where
  "number_or_none v = (if truthy_num (to_number v) then Some (to_number v) else None)"

text \<open>The well-formed plain values: own keys distinct, numbers finite and representable.\<close>

fun plain :: "jsval \<Rightarrow> bool" where
  "plain JUndef = False"
| "plain (JNum n) = (case n of Fin x \<Rightarrow> is_double x | _ \<Rightarrow> False)"
| "plain (JArr vs) = (\<forall>v \<in> set vs. plain v)"
| "plain (JObj kvs) = (distinct (map fst kvs) \<and> (\<forall>kv \<in> set kvs. plain (snd kv)))"
| "plain _ = True"

lemma js_get_Cons: "js_get (JObj ((k, v) # kvs)) j = (if j = k then v else js_get (JObj kvs) j)"
  by simp

lemma number_or_zero_not_nan: "number_or_zero v \<noteq> NaN"
  by (auto simp: number_or_zero_def truthy_num_def)

lemma number_or_none_SomeD: "number_or_none v = Some n \<Longrightarrow> n \<noteq> NaN \<and> n \<noteq> Fin 0"
  by (auto simp: number_or_none_def truthy_num_def split: if_splits)

end
