(* ===== verification/Js_Json.thy ===== *)
theory Js_Json
  imports Js_Value
begin

text \<open>
  \<open>JSON.stringify\<close> and \<open>JSON.parse\<close> on plain values and the round trip between them.
  The parser is recursive descent; its fuel bounds the number of nested calls, each of which
  reads at least one character, so the length of the text is enough. An escape above 255 names
  a code unit outside the strings of the model and is refused.
\<close>

section \<open>Printing\<close>

definition hex_char :: "nat \<Rightarrow> char" where
  "hex_char n = char_of (if n < 10 then 48 + n else 87 + n)"

definition escape :: "char \<Rightarrow> string" where
  "escape c =
     (if code c = 34 then [CHR 0x5C, CHR 0x22]
      else if code c = 92 then [CHR 0x5C, CHR 0x5C]
      else if code c = 8 then [CHR 0x5C, CHR ''b'']
      else if code c = 9 then [CHR 0x5C, CHR ''t'']
      else if code c = 10 then [CHR 0x5C, CHR ''n'']
      else if code c = 12 then [CHR 0x5C, CHR ''f'']
      else if code c = 13 then [CHR 0x5C, CHR ''r'']
      else if code c < 32
        then [CHR 0x5C, CHR ''u'', CHR ''0'', CHR ''0'', hex_char (code c div 16),
              hex_char (code c mod 16)]
      else [c])"

definition quote :: "string \<Rightarrow> string" where
  "quote s = CHR 0x22 # concat (map escape s) @ [CHR 0x22]"

text \<open>A property that is undefined is left out; in an array it prints as null.\<close>

fun json_text :: "jsval \<Rightarrow> string" where
  "json_text JUndef = ''null''"
| "json_text JNull = ''null''"
| "json_text (JBool b) = (if b then ''true'' else ''false'')"
| "json_text (JNum n) = (if is_finite n then number_to_string n else ''null'')"
| "json_text (JStr s) = quote s"
| "json_text (JArr vs) = ''['' @ join '','' (map json_text vs) @ '']''"
| "json_text (JObj kvs) =
     ''{'' @ join '','' (map (\<lambda>kv. quote (fst kv) @ '':'' @ json_text (snd kv))
              (filter (\<lambda>kv. snd kv \<noteq> JUndef) kvs)) @ ''}''"

section \<open>Parsing\<close>

definition is_json_ws :: "char \<Rightarrow> bool" where
  "is_json_ws c \<longleftrightarrow> code c = 32 \<or> code c = 9 \<or> code c = 10 \<or> code c = 13"

definition skip_ws :: "string \<Rightarrow> string" where
  "skip_ws s = dropWhile is_json_ws s"

fun hex_value :: "string \<Rightarrow> nat option" where
  "hex_value [a, b, c, d] = radix_digits 16 [a, b, c, d] 0"
| "hex_value _ = None"

text \<open>The character after a backslash, and what follows the escape.\<close>

fun unescape :: "string \<Rightarrow> (char \<times> string) option" where
  "unescape [] = None"
| "unescape (c # s) =
     (if code c = 34 \<or> code c = 92 \<or> code c = 47 then Some (c, s)
      else if c = CHR ''b'' then Some (char_of (8 :: nat), s)
      else if c = CHR ''t'' then Some (char_of (9 :: nat), s)
      else if c = CHR ''n'' then Some (char_of (10 :: nat), s)
      else if c = CHR ''f'' then Some (char_of (12 :: nat), s)
      else if c = CHR ''r'' then Some (char_of (13 :: nat), s)
      else if c = CHR ''u'' then
        (case hex_value (take 4 s) of
           Some n \<Rightarrow> if n < 256 then Some (char_of n, drop 4 s) else None
         | None \<Rightarrow> None)
      else None)"

lemma unescape_shorter: "unescape s = Some (c, r) \<Longrightarrow> length r < length s"
  by (cases s) (auto split: if_splits option.splits)

function parse_chars :: "string \<Rightarrow> (string \<times> string) option" where
  "parse_chars s = (case s of
     [] \<Rightarrow> None
   | c # r \<Rightarrow>
       if code c = 34 then Some ([], r)
       else if code c = 92 then
         (case unescape r of
            None \<Rightarrow> None
          | Some (x, r') \<Rightarrow> map_option (apfst (Cons x)) (parse_chars r'))
       else if code c < 32 then None
       else map_option (apfst (Cons c)) (parse_chars r))"
  by pat_completeness auto
termination
  by (relation "measure length") (auto dest: unescape_shorter)

declare parse_chars.simps [simp del]

definition parse_number :: "string \<Rightarrow> (jsval \<times> string) option" where
  "parse_number s =
     (let neg = (s \<noteq> [] \<and> hd s = CHR ''-''); body = (if neg then tl s else s);
          (ip, fp, e, rest) = read_decimal body
      in if decimal_ok ip fp
         then Some (JNum (to_double (if neg then - decimal_value ip (frac fp) e
                                     else decimal_value ip (frac fp) e)), rest)
         else None)"

definition parse_keyword :: "string \<Rightarrow> jsval \<Rightarrow> string \<Rightarrow> (jsval \<times> string) option" where
  "parse_keyword k v s = (if prefix k s then Some (v, drop (length k) s) else None)"

text \<open>A later property of the same name takes the place of the earlier one.\<close>

definition obj_set :: "(string \<times> jsval) list \<Rightarrow> string \<Rightarrow> jsval \<Rightarrow> (string \<times> jsval) list" where
  "obj_set kvs k v = (if map_of kvs k = None then kvs @ [(k, v)]
     else map (\<lambda>kv. if fst kv = k then (k, v) else kv) kvs)"

fun parse_value :: "nat \<Rightarrow> string \<Rightarrow> (jsval \<times> string) option"
  and parse_elems :: "nat \<Rightarrow> jsval list \<Rightarrow> string \<Rightarrow> (jsval \<times> string) option"
  and parse_members :: "nat \<Rightarrow> (string \<times> jsval) list \<Rightarrow> string \<Rightarrow> (jsval \<times> string) option"
where
  "parse_value 0 s = None"
| "parse_value (Suc fuel) s =
     (case skip_ws s of
        [] \<Rightarrow> None
      | c # r \<Rightarrow>
          if c = CHR ''['' then
            (case skip_ws r of
               c' # r' \<Rightarrow> if c' = CHR '']'' then Some (JArr [], r') else parse_elems fuel [] r
             | [] \<Rightarrow> None)
          else if c = CHR ''{'' then
            (case skip_ws r of
               c' # r' \<Rightarrow> if c' = CHR ''}'' then Some (JObj [], r') else parse_members fuel [] r
             | [] \<Rightarrow> None)
          else if code c = 34 then map_option (apfst JStr) (parse_chars r)
          else if c = CHR ''n'' then parse_keyword ''null'' JNull (c # r)
          else if c = CHR ''t'' then parse_keyword ''true'' (JBool True) (c # r)
          else if c = CHR ''f'' then parse_keyword ''false'' (JBool False) (c # r)
          else parse_number (c # r))"
| "parse_elems 0 acc s = None"
| "parse_elems (Suc fuel) acc s =
     (case parse_value fuel s of
        None \<Rightarrow> None
      | Some (v, r) \<Rightarrow>
          (case skip_ws r of
             c # r' \<Rightarrow> if c = CHR '','' then parse_elems fuel (acc @ [v]) r'
                      else if c = CHR '']'' then Some (JArr (acc @ [v]), r')
                      else None
           | [] \<Rightarrow> None))"
| "parse_members 0 acc s = None"
| "parse_members (Suc fuel) acc s =
     (case skip_ws s of
        [] \<Rightarrow> None
      | q # r0 \<Rightarrow>
          if code q \<noteq> 34 then None
          else (case parse_chars r0 of
             None \<Rightarrow> None
           | Some (k, r1) \<Rightarrow>
              (case skip_ws r1 of
                 [] \<Rightarrow> None
               | d # r2 \<Rightarrow>
                   if d \<noteq> CHR '':'' then None
                   else (case parse_value fuel r2 of
                      None \<Rightarrow> None
                    | Some (v, r3) \<Rightarrow>
                       (case skip_ws r3 of
                          c # r' \<Rightarrow>
                            if c = CHR '','' then parse_members fuel (obj_set acc k v) r'
                            else if c = CHR ''}'' then Some (JObj (obj_set acc k v), r')
                            else None
                        | [] \<Rightarrow> None)))))"

definition json_parse :: "string \<Rightarrow> js_error + jsval" where
  "json_parse s = (case parse_value (Suc (length s)) s of
     Some (v, r) \<Rightarrow> if skip_ws r = [] then Inr v else Inl SyntaxError
   | None \<Rightarrow> Inl SyntaxError)"

section \<open>Strings\<close>

lemma hex_digit_char [simp]: "n < 16 \<Longrightarrow> hex_digit (hex_char n) = Some n"
  by (auto simp: hex_digit_def hex_char_def is_digit_def)

lemma hex_zero [simp]: "hex_digit CHR ''0'' = Some 0"
  by (simp add: hex_digit_def is_digit_def)

lemma char_of_code [simp]: "char_of (code c) = c"
  by (rule char_of_char)

lemma code_eqD: "code c = n \<Longrightarrow> c = char_of n"
  using char_of_code [of c] by simp

lemma char_of_quote: "char_of (34 :: nat) = CHR 0x22" "char_of (92 :: nat) = CHR 0x5C"
  by code_simp+

lemma unescape_u:
  "code c < 32 \<Longrightarrow>
   unescape (CHR ''u'' # CHR ''0'' # CHR ''0'' # hex_char (code c div 16) # hex_char (code c mod 16) # t)
   = Some (c, t)"
proof -
  assume c: "code c < 32"
  have "hex_value [CHR ''0'', CHR ''0'', hex_char (code c div 16), hex_char (code c mod 16)] =
      Some (16 * (code c div 16) + code c mod 16)"
    using c by simp
  then show ?thesis using c by simp
qed

lemma parse_escape:
  "parse_chars (escape c @ t) = map_option (apfst (Cons c)) (parse_chars t)"
proof -
  consider "code c = 34" | "code c = 92" | "code c = 8" | "code c = 9" | "code c = 10"
    | "code c = 12" | "code c = 13"
    | (u) "code c < 32" "code c \<noteq> 8" "code c \<noteq> 9" "code c \<noteq> 10" "code c \<noteq> 12" "code c \<noteq> 13"
    | (self) "32 \<le> code c" "code c \<noteq> 34" "code c \<noteq> 92"
    by linarith
  then show ?thesis
  proof cases
    case u
    then have "escape c = [CHR 0x5C, CHR ''u'', CHR ''0'', CHR ''0'', hex_char (code c div 16),
        hex_char (code c mod 16)]"
      by (simp add: escape_def)
    then show ?thesis
      using unescape_u [OF u(1), of t] by (subst parse_chars.simps) simp
  next
    case self
    then have "escape c = [c]" by (simp add: escape_def)
    with self show ?thesis by (subst parse_chars.simps) simp
  qed (auto dest!: code_eqD simp: escape_def parse_chars.simps [of "_ # _"] char_of_quote)
qed

lemma parse_quote: "parse_chars (concat (map escape s) @ CHR 0x22 # t) = Some (s, t)"
proof (induction s)
  case Nil
  then show ?case by (subst parse_chars.simps) simp
next
  case (Cons c s)
  then show ?case by (simp add: parse_escape)
qed

section \<open>Numbers\<close>

lemma to_double_neg: "to_double x = Fin y \<Longrightarrow> to_double (- x) = Fin (- y)"
  by (auto simp: to_double_def Let_def split: if_splits)

lemma positive_hd:
  assumes "is_double x" "0 < x"
  shows "positive_to_string x \<noteq> [] \<and> is_digit (hd (positive_to_string x))"
proof -
  let ?s = "positive_to_string x"
  have "stops []" by (simp add: stops_def)
  from positive_to_string_reads [OF assms this] obtain ip fp e where
    "read_decimal ?s = (ip, fp, e, [])" "decimal_ok ip fp" by auto
  then have "takeWhile is_digit ?s \<noteq> []"
    by (auto simp: read_decimal_def split_while_def decimal_ok_def split: prod.splits)
  then show ?thesis by (cases ?s) (auto split: if_splits)
qed

lemma parse_positive:
  assumes "is_double x" "0 < x" "stops rest"
  shows "parse_number (positive_to_string x @ rest) = Some (JNum (Fin x), rest)"
proof -
  have h: "positive_to_string x \<noteq> []" "hd (positive_to_string x) \<noteq> CHR ''-''"
    using positive_hd [OF assms(1,2)] by (auto simp: is_digit_def)
  from positive_to_string_reads [OF assms] h show ?thesis
    by (auto simp: parse_number_def Let_def)
qed

lemma parse_negative:
  assumes "is_double (- x)" "x < 0" "stops rest"
  shows "parse_number (CHR ''-'' # positive_to_string (- x) @ rest) = Some (JNum (Fin x), rest)"
proof -
  have "0 < - x" using assms(2) by simp
  from positive_to_string_reads [OF assms(1) this assms(3)] obtain ip fp e where
    r: "read_decimal (positive_to_string (- x) @ rest) = (ip, fp, e, rest)" "decimal_ok ip fp"
      "to_double (decimal_value ip (frac fp) e) = Fin (- x)" by blast
  from to_double_neg [OF r(3)] r(1,2) show ?thesis by (simp add: parse_number_def)
qed

lemma parse_zero: "stops rest \<Longrightarrow> parse_number (CHR ''0'' # rest) = Some (JNum (Fin 0), rest)"
proof -
  assume s: "stops rest"
  have "split_while is_digit (CHR ''0'' # rest) = (''0'', rest)"
    using span_digits [of "''0''" rest] s by (auto simp: stops_def)
  moreover have "read_fraction rest = (None, rest)"
    using s by (intro read_fraction_none) (auto simp: stops_def)
  ultimately have "read_decimal (CHR ''0'' # rest) = (''0'', None, 0, rest)"
    using read_exponent_stops [OF s] by (simp add: read_decimal_def)
  then show ?thesis
    using nat_of_digits_snoc [of "[]" "CHR ''0''"]
    by (simp add: parse_number_def decimal_ok_def decimal_value_def frac_def to_double_def)
qed

lemma is_double_neg: "is_double x \<Longrightarrow> is_double (- x)"
  by (simp add: is_double_def to_double_neg)

text \<open>The text of a number starts with a digit or a minus sign and is read by the number parser.\<close>

lemma number_text:
  assumes "is_double x"
  obtains c r where "number_to_string (Fin x) = c # r" "is_digit c \<or> c = CHR ''-''"
    "\<And>rest. stops rest \<Longrightarrow> parse_number (c # r @ rest) = Some (JNum (Fin x), rest)"
proof -
  consider (zero) "x = 0" | (pos) "0 < x" | (neg) "x < 0" by linarith
  then show thesis
  proof cases
    case zero
    with that [of "CHR ''0''" "[]"] parse_zero show ?thesis by simp
  next
    case pos
    obtain c r where s: "positive_to_string x = c # r" "is_digit c"
      using positive_hd [OF assms pos] by (cases "positive_to_string x") auto
    with that [of c r] pos parse_positive [OF assms pos] show ?thesis by simp
  next
    case neg
    with that [of "CHR ''-''" "positive_to_string (- x)"]
      parse_negative [OF is_double_neg [OF assms] neg] show ?thesis by simp
  qed
qed

section \<open>The round trip\<close>

fun jsize :: "jsval \<Rightarrow> nat" where
  "jsize (JArr vs) = Suc (sum_list (map (\<lambda>v. Suc (jsize v)) vs))"
| "jsize (JObj kvs) = Suc (sum_list (map (\<lambda>kv. Suc (jsize (snd kv))) kvs))"
| "jsize _ = 1"

lemma stops_punct [simp]:
  "stops (CHR '','' # s)" "stops (CHR '']'' # s)" "stops (CHR ''}'' # s)"
  by (simp_all add: stops_def is_digit_def)

lemma skip_ws_Cons: "\<not> is_json_ws c \<Longrightarrow> skip_ws (c # s) = c # s"
  by (simp add: skip_ws_def)

lemma skip_ws_punct [simp]:
  "skip_ws (CHR '','' # s) = CHR '','' # s" "skip_ws (CHR '']'' # s) = CHR '']'' # s"
  "skip_ws (CHR ''}'' # s) = CHR ''}'' # s" "skip_ws (CHR '':'' # s) = CHR '':'' # s"
  "skip_ws (CHR 0x22 # s) = CHR 0x22 # s" "skip_ws (CHR ''['' # s) = CHR ''['' # s"
  "skip_ws (CHR ''{'' # s) = CHR ''{'' # s"
  by (simp_all add: skip_ws_def is_json_ws_def)

lemma digit_not_special:
  "is_digit c \<or> c = CHR ''-'' \<Longrightarrow> \<not> is_json_ws c \<and> c \<noteq> CHR '']'' \<and> c \<noteq> CHR ''['' \<and> c \<noteq> CHR ''{''
   \<and> code c \<noteq> 34 \<and> c \<noteq> CHR ''n'' \<and> c \<noteq> CHR ''t'' \<and> c \<noteq> CHR ''f''"
  by (auto simp: is_digit_def is_json_ws_def)

lemma json_text_hd:
  assumes "plain v"
  obtains c r where "json_text v = c # r" "\<not> is_json_ws c" "c \<noteq> CHR '']''"
proof (cases v)
  case (JNum n)
  then obtain x where n: "n = Fin x" "is_double x"
    using assms by (cases n) auto
  from number_text [OF n(2)] obtain c r where
    "number_to_string (Fin x) = c # r" "is_digit c \<or> c = CHR ''-''" by metis
  with that [of c r] digit_not_special show ?thesis by (simp add: JNum n is_finite_def)
next
  case (JBool b)
  then show ?thesis using that by (cases b) (auto simp: is_json_ws_def)
qed (use assms that in \<open>auto simp: quote_def is_json_ws_def\<close>)

lemma parse_scalar_number:
  assumes "is_double x" "stops rest" "0 < fuel"
  shows "parse_value fuel (number_to_string (Fin x) @ rest) = Some (JNum (Fin x), rest)"
proof -
  obtain f where f: "fuel = Suc f" using assms(3) by (cases fuel) auto
  from number_text [OF assms(1)] obtain c r where
    cr: "number_to_string (Fin x) = c # r" "is_digit c \<or> c = CHR ''-''"
    and p: "parse_number (c # r @ rest) = Some (JNum (Fin x), rest)" using assms(2) by metis
  show ?thesis
    using digit_not_special [OF cr(2)] p
    by (simp add: f cr(1) skip_ws_Cons del: number_to_string.simps)
qed

lemma parse_elems_text:
  assumes "\<And>v fuel rest. v \<in> set vs \<Longrightarrow> stops rest \<Longrightarrow> jsize v \<le> fuel \<Longrightarrow>
      parse_value fuel (json_text v @ rest) = Some (v, rest)"
    and "vs \<noteq> []" "sum_list (map (\<lambda>v. Suc (jsize v)) vs) \<le> fuel"
  shows "parse_elems fuel acc (join '','' (map json_text vs) @ CHR '']'' # rest) =
    Some (JArr (acc @ vs), rest)"
  using assms
proof (induction vs arbitrary: fuel acc)
  case (Cons v vs)
  obtain f where f: "fuel = Suc f" "jsize v \<le> f" using Cons.prems(3) by (cases fuel) auto
  show ?case
  proof (cases "vs = []")
    case True
    have "parse_value f (json_text v @ CHR '']'' # rest) = Some (v, CHR '']'' # rest)"
      using Cons.prems(1) f(2) by simp
    then show ?thesis by (simp add: True f(1))
  next
    case False
    let ?r = "join '','' (map json_text vs) @ CHR '']'' # rest"
    have "parse_value f (json_text v @ CHR '','' # ?r) = Some (v, CHR '','' # ?r)"
      using Cons.prems(1) f(2) by simp
    moreover have "parse_elems f (acc @ [v]) ?r = Some (JArr ((acc @ [v]) @ vs), rest)"
      using False Cons.prems f(1) by (intro Cons.IH) auto
    ultimately show ?thesis by (simp add: False f(1) join_Cons)
  qed
qed simp

definition member_text :: "string \<times> jsval \<Rightarrow> string" where
  "member_text kv = quote (fst kv) @ '':'' @ json_text (snd kv)"

lemma obj_set_new: "k \<notin> fst ` set acc \<Longrightarrow> obj_set acc k v = acc @ [(k, v)]"
  by (simp add: obj_set_def map_of_eq_None_iff)

lemma parse_members_text:
  assumes "\<And>kv fuel rest. kv \<in> set kvs \<Longrightarrow> stops rest \<Longrightarrow> jsize (snd kv) \<le> fuel \<Longrightarrow>
      parse_value fuel (json_text (snd kv) @ rest) = Some (snd kv, rest)"
    and "kvs \<noteq> []" "sum_list (map (\<lambda>kv. Suc (jsize (snd kv))) kvs) \<le> fuel"
    and "distinct (map fst (acc @ kvs))"
  shows "parse_members fuel acc (join '','' (map member_text kvs) @ CHR ''}'' # rest) =
    Some (JObj (acc @ kvs), rest)"
  using assms
proof (induction kvs arbitrary: fuel acc)
  case (Cons kv kvs)
  obtain k v where kv: "kv = (k, v)" by (cases kv)
  obtain f where f: "fuel = Suc f" "jsize v \<le> f" using Cons.prems(3) kv by (cases fuel) auto
  have set: "obj_set acc k v = acc @ [kv]"
    using Cons.prems(4) by (simp add: kv obj_set_new image_iff)
  have mt: "member_text (k, v) = CHR 0x22 # concat (map escape k) @ CHR 0x22 # CHR '':'' # json_text v"
    by (simp add: member_text_def quote_def)
  have head: "parse_chars (concat (map escape k) @ CHR 0x22 # t) = Some (k, t)" for t
    by (rule parse_quote)
  have val: "parse_value f (json_text v @ r) = Some (v, r)" if "stops r" for r
    using Cons.prems(1) [of kv r f] that f(2) by (simp add: kv)
  show ?case
  proof (cases "kvs = []")
    case True
    then show ?thesis
      using head [of "CHR '':'' # json_text v @ CHR ''}'' # rest"] val [of "CHR ''}'' # rest"] set
      by (simp add: f(1) kv mt)
  next
    case False
    let ?r = "join '','' (map member_text kvs) @ CHR ''}'' # rest"
    have "parse_members f (acc @ [kv]) ?r = Some (JObj ((acc @ [kv]) @ kvs), rest)"
      using False Cons.prems f(1) by (intro Cons.IH) auto
    then show ?thesis
      using False head [of "CHR '':'' # json_text v @ CHR '','' # ?r"] val [of "CHR '','' # ?r"] set
      by (simp add: f(1) kv mt join_Cons)
  qed
qed simp

lemma plain_no_undef: "plain (JObj kvs) \<Longrightarrow> filter (\<lambda>kv. snd kv \<noteq> JUndef) kvs = kvs"
  by (rule filter_True) auto

lemma json_text_obj:
  "plain (JObj kvs) \<Longrightarrow> json_text (JObj kvs) = ''{'' @ join '','' (map member_text kvs) @ ''}''"
  by (simp only: json_text.simps plain_no_undef member_text_def [abs_def])

lemma join_members_hd:
  "kvs \<noteq> [] \<Longrightarrow> \<exists>r. join '','' (map member_text kvs) = CHR 0x22 # r"
  by (cases kvs) (simp_all add: member_text_def quote_def join_Cons, cases "tl kvs", simp_all)

lemma join_elems_hd:
  assumes "vs \<noteq> []" "\<forall>v \<in> set vs. plain v"
  obtains c r where "join '','' (map json_text vs) = c # r" "\<not> is_json_ws c" "c \<noteq> CHR '']''"
proof -
  obtain v ws where vs: "vs = v # ws" using assms(1) by (cases vs) auto
  obtain c r where "json_text v = c # r" "\<not> is_json_ws c" "c \<noteq> CHR '']''"
    using json_text_hd assms(2) vs by (metis list.set_intros(1))
  with that show thesis by (cases ws) (auto simp: vs)
qed

lemma parse_json_text:
  "plain v \<Longrightarrow> stops rest \<Longrightarrow> jsize v \<le> fuel \<Longrightarrow>
   parse_value fuel (json_text v @ rest) = Some (v, rest)"
proof (induction v arbitrary: fuel rest)
  case (JNum n)
  then obtain x where "n = Fin x" "is_double x" by (cases n) auto
  with JNum parse_scalar_number show ?case by (simp add: is_finite_def del: number_to_string.simps)
next
  case (JArr vs)
  then obtain f where f: "fuel = Suc f" by (cases fuel) auto
  show ?case
  proof (cases "vs = []")
    case False
    obtain c r where cr: "join '','' (map json_text vs) = c # r" "\<not> is_json_ws c" "c \<noteq> CHR '']''"
      using join_elems_hd False JArr.prems(1) by (metis plain.simps(3))
    have "parse_elems f [] (join '','' (map json_text vs) @ CHR '']'' # rest) =
        Some (JArr ([] @ vs), rest)"
      using JArr.IH JArr.prems False f by (intro parse_elems_text) auto
    with cr show ?thesis by (simp add: f skip_ws_Cons)
  qed (simp add: f)
next
  case (JObj kvs)
  then obtain f where f: "fuel = Suc f" by (cases fuel) auto
  show ?case
  proof (cases "kvs = []")
    case False
    obtain r where r: "join '','' (map member_text kvs) = CHR 0x22 # r"
      using join_members_hd [OF False] by blast
    have "parse_members f [] (join '','' (map member_text kvs) @ CHR ''}'' # rest) =
        Some (JObj ([] @ kvs), rest)"
    proof (rule parse_members_text)
      show "parse_value fuel' (json_text (snd kv) @ rest') = Some (snd kv, rest')"
        if "kv \<in> set kvs" "stops rest'" "jsize (snd kv) \<le> fuel'" for kv fuel' rest'
        using that JObj.IH [of kv "snd kv"] JObj.prems(1) by (auto simp: snds.simps)
    qed (use JObj.prems False f in auto)
    with r show ?thesis by (simp add: f json_text_obj [OF JObj.prems(1)] del: json_text.simps)
  qed (simp add: f)
qed (auto simp: quote_def parse_quote parse_keyword_def gr0_conv_Suc Suc_le_eq skip_ws_def
    is_json_ws_def)

lemma join_length:
  "sum_list (map (\<lambda>s. Suc (length s)) xs) \<le> Suc (length (join '','' xs))"
proof (induction xs)
  case (Cons x xs)
  then show ?case by (cases "xs = []") (simp_all add: join_Cons)
qed simp

lemma jsize_le: "plain v \<Longrightarrow> jsize v \<le> length (json_text v)"
proof (induction v)
  case (JNum n)
  then obtain x where n: "n = Fin x" "is_double x" by (cases n) auto
  from number_text [OF n(2)] obtain c r where "number_to_string (Fin x) = c # r" by metis
  then show ?case by (simp add: n is_finite_def del: number_to_string.simps)
next
  case (JArr vs)
  have "sum_list (map (\<lambda>v. Suc (jsize v)) vs) \<le> sum_list (map (\<lambda>v. Suc (length (json_text v))) vs)"
    using JArr by (intro sum_list_mono) auto
  also have "\<dots> \<le> Suc (length (join '','' (map json_text vs)))"
    using join_length [of "map json_text vs"] by (simp add: comp_def)
  finally show ?case by simp
next
  case (JObj kvs)
  have "sum_list (map (\<lambda>kv. Suc (jsize (snd kv))) kvs) \<le>
      sum_list (map (\<lambda>kv. Suc (length (member_text kv))) kvs)"
  proof (rule sum_list_mono)
    fix kv assume "kv \<in> set kvs"
    with JObj.IH [of kv "snd kv"] JObj.prems have "jsize (snd kv) \<le> length (json_text (snd kv))"
      by (auto simp: snds.simps)
    then show "Suc (jsize (snd kv)) \<le> Suc (length (member_text kv))" by (simp add: member_text_def)
  qed
  also have "\<dots> \<le> Suc (length (join '','' (map member_text kvs)))"
    using join_length [of "map member_text kvs"] by (simp add: comp_def)
  finally show ?case by (simp add: json_text_obj [OF JObj.prems] del: json_text.simps)
qed (auto simp: quote_def)

lemma json_roundtrip: "plain v \<Longrightarrow> json_parse (json_text v) = Inr v"
proof -
  assume p: "plain v"
  have "stops []" by (simp add: stops_def)
  moreover have "jsize v \<le> Suc (length (json_text v))" using jsize_le [OF p] by simp
  ultimately have "parse_value (Suc (length (json_text v))) (json_text v @ []) = Some (v, [])"
    by (rule parse_json_text [OF p])
  then show ?thesis
    by (simp add: json_parse_def skip_ws_def del: parse_value.simps)
qed

lemma json_text_truthy: "plain v \<Longrightarrow> json_text v \<noteq> []"
  by (erule json_text_hd) simp

section \<open>Lengths\<close>

lemma text_of_member:
  assumes "(k, v) \<in> set kvs" "v \<noteq> JUndef"
  shows "length (json_text v) < length (json_text (JObj kvs))"
proof -
  let ?member = "\<lambda>kv. quote (fst kv) @ '':'' @ json_text (snd kv)"
  have "?member (k, v) \<in> set (map ?member (filter (\<lambda>kv. snd kv \<noteq> JUndef) kvs))"
    using assms unfolding set_map by (intro imageI) simp
  from length_join_member [OF this, of "'',''"] show ?thesis by simp
qed

lemma text_of_element: "v \<in> set vs \<Longrightarrow> length (json_text v) < length (json_text (JArr vs))"
  using length_join_member [of "json_text v" "map json_text vs" "'',''"] by simp

lemma length_quote: "length s < length (quote s)"
proof -
  have "length s \<le> length (concat (map escape s))"
    by (induction s) (auto simp: escape_def Suc_le_eq intro: le_trans)
  then show ?thesis by (simp add: quote_def)
qed

section \<open>Objects with optional properties\<close>

definition obj_of :: "(string \<times> jsval option) list \<Rightarrow> jsval" where
  "obj_of fs = JObj (somes (map (\<lambda>f. map_option (Pair (fst f)) (snd f)) fs))"

lemma map_of_somes:
  "distinct (map fst fs) \<Longrightarrow>
   map_of (somes (map (\<lambda>f. map_option (Pair (fst f)) (snd f)) fs)) k =
   Option.bind (map_of fs k) id"
proof (induction fs)
  case (Cons f fs)
  obtain j o' where f: "f = (j, o')" by (cases f)
  show ?case
  proof (cases o')
    case None
    have "map_of fs j = None" using Cons.prems by (simp add: f map_of_eq_None_iff)
    then show ?thesis using Cons None by (auto simp: f)
  next
    case (Some v)
    then show ?thesis using Cons by (simp add: f)
  qed
qed simp

definition opt_val :: "jsval option \<Rightarrow> jsval" where
  "opt_val x = (case x of Some v \<Rightarrow> v | None \<Rightarrow> JUndef)"

lemma opt_val_simps [simp]: "opt_val (Some v) = v" "opt_val None = JUndef"
  by (simp_all add: opt_val_def)

lemma js_get_obj_of:
  "distinct (map fst fs) \<Longrightarrow>
   js_get (obj_of fs) k = (case map_of fs k of Some x \<Rightarrow> opt_val x | None \<Rightarrow> JUndef)"
  by (simp add: obj_of_def map_of_somes opt_val_def split: option.splits)

lemma js_has_obj_of:
  "distinct (map fst fs) \<Longrightarrow> js_has (obj_of fs) k = (\<exists>v. map_of fs k = Some (Some v))"
  by (auto simp: obj_of_def map_of_somes bind_eq_Some_conv)

lemma set_somes [simp]: "set (somes xs) = {x. Some x \<in> set xs}"
  by (induction xs rule: somes.induct) auto

lemma distinct_somes:
  "distinct (map fst fs) \<Longrightarrow>
   distinct (map fst (somes (map (\<lambda>f. map_option (Pair (fst f)) (snd f)) fs)))"
proof (induction fs)
  case (Cons f fs)
  then show ?case by (cases "snd f") (auto simp: image_iff map_option_case split: option.splits)
qed simp

lemma plain_obj_of:
  "distinct (map fst fs) \<Longrightarrow> (\<forall>f \<in> set fs. \<forall>v. snd f = Some v \<longrightarrow> plain v) \<Longrightarrow> plain (obj_of fs)"
  by (fastforce simp: obj_of_def distinct_somes eq_commute [of "Some _" "map_option _ _"])

end
