(* ===== verification/Pg_Codec.thy ===== *)
theory Pg_Codec
  imports Pg_Payload Js_Json
begin

text \<open>
  The schemas of \<open>lib/storage/storage-schema.ts\<close> and the values they admit. A schema is the
  data the source builds with \<open>zod\<close>; the library's \<open>parse\<close> is a parameter \<open>zparse\<close>,
  and \<open>zod_law\<close> states what it documents: a value that conforms comes back without the
  properties the schema does not name, any other value raises. A message, a configuration and a
  set of switches are related to the values that represent them by an encoder and a decoder.
\<close>

section \<open>Schemas\<close>

datatype zschema =
    ZString
  | ZNumber
  | ZBoolean
  | ZEnum "string list"
  | ZArray zschema nat
  | ZObject "(string \<times> zschema) list"
  | ZOptional zschema
  | ZNullable zschema

fun conforms :: "zschema \<Rightarrow> jsval \<Rightarrow> bool" where
  "conforms ZString v = (case v of JStr _ \<Rightarrow> True | _ \<Rightarrow> False)"
| "conforms ZNumber v = (case v of JNum (Fin _) \<Rightarrow> True | _ \<Rightarrow> False)"
| "conforms ZBoolean v = (case v of JBool _ \<Rightarrow> True | _ \<Rightarrow> False)"
| "conforms (ZEnum ss) v = (case v of JStr s \<Rightarrow> s \<in> set ss | _ \<Rightarrow> False)"
| "conforms (ZArray sc n) v =
     (case v of JArr vs \<Rightarrow> n \<le> length vs \<and> (\<forall>x \<in> set vs. conforms sc x) | _ \<Rightarrow> False)"
| "conforms (ZObject fds) v =
     (case v of JObj _ \<Rightarrow> (\<forall>f \<in> set fds. conforms (snd f) (js_get v (fst f))) | _ \<Rightarrow> False)"
| "conforms (ZOptional sc) v = (v = JUndef \<or> conforms sc v)"
| "conforms (ZNullable sc) v = (v = JNull \<or> conforms sc v)"

fun strip :: "zschema \<Rightarrow> jsval \<Rightarrow> jsval" where
  "strip (ZArray sc n) v = (case v of JArr vs \<Rightarrow> JArr (map (strip sc) vs) | _ \<Rightarrow> v)"
| "strip (ZObject fds) v =
     JObj (concat (map (\<lambda>f. if js_has v (fst f)
        then [(fst f, strip (snd f) (js_get v (fst f)))] else []) fds))"
| "strip (ZOptional sc) v = (if v = JUndef then v else strip sc v)"
| "strip (ZNullable sc) v = (if v = JNull then v else strip sc v)"
| "strip _ v = v"

definition zod_law :: "(zschema \<Rightarrow> jsval \<Rightarrow> js_error + jsval) \<Rightarrow> bool" where
  "zod_law zparse \<longleftrightarrow> (\<forall>sc v.
     (conforms sc v \<longrightarrow> zparse sc v = Inr (strip sc v))
   \<and> (\<not> conforms sc v \<longrightarrow> (\<exists>e. zparse sc v = Inl e)))"

definition zod_reference :: "zschema \<Rightarrow> jsval \<Rightarrow> js_error + jsval" where
  "zod_reference sc v = (if conforms sc v then Inr (strip sc v) else Inl (ApiError ''ZodError''))"

definition playgroundConfigSchema :: zschema where
  "playgroundConfigSchema = ZObject
     [(''model'', ZOptional ZString), (''group'', ZOptional ZString),
      (''temperature'', ZOptional ZNumber), (''top_p'', ZOptional ZNumber),
      (''max_tokens'', ZOptional ZNumber), (''frequency_penalty'', ZOptional ZNumber),
      (''presence_penalty'', ZOptional ZNumber), (''seed'', ZOptional (ZNullable ZNumber)),
      (''stream'', ZOptional ZBoolean)]"

definition parameterEnabledSchema :: zschema where
  "parameterEnabledSchema = ZObject
     [(''temperature'', ZOptional ZBoolean), (''top_p'', ZOptional ZBoolean),
      (''max_tokens'', ZOptional ZBoolean), (''frequency_penalty'', ZOptional ZBoolean),
      (''presence_penalty'', ZOptional ZBoolean), (''seed'', ZOptional ZBoolean)]"

definition messageRoleSchema :: zschema where
  "messageRoleSchema = ZEnum [''user'', ''assistant'', ''system'']"

definition messageStatusSchema :: zschema where
  "messageStatusSchema = ZEnum [''loading'', ''streaming'', ''complete'', ''error'']"

definition messageVersionSchema :: zschema where
  "messageVersionSchema = ZObject [(''id'', ZString), (''content'', ZString)]"

definition sourceSchema :: zschema where
  "sourceSchema = ZObject [(''href'', ZString), (''title'', ZString)]"

definition reasoningSchema :: zschema where
  "reasoningSchema = ZObject
     [(''content'', ZString), (''duration'', ZNumber), (''startedAt'', ZOptional ZNumber),
      (''completedAt'', ZOptional ZNumber), (''durationMs'', ZOptional ZNumber)]"

definition messageSchema :: zschema where
  "messageSchema = ZObject
     [(''key'', ZString), (''from'', messageRoleSchema),
      (''versions'', ZArray messageVersionSchema 1),
      (''createdAt'', ZOptional ZNumber), (''startedAt'', ZOptional ZNumber),
      (''completedAt'', ZOptional ZNumber), (''durationMs'', ZOptional ZNumber),
      (''sources'', ZOptional (ZArray sourceSchema 0)),
      (''reasoning'', ZOptional reasoningSchema),
      (''isReasoningStreaming'', ZOptional ZBoolean),
      (''isReasoningComplete'', ZOptional ZBoolean),
      (''isContentComplete'', ZOptional ZBoolean),
      (''status'', ZOptional messageStatusSchema),
      (''errorCode'', ZOptional (ZNullable ZString))]"

definition messagesSchema :: zschema where
  "messagesSchema = ZArray messageSchema 0"
section \<open>Messages as values\<close>
section \<open>Objects with optional properties\<close>

abbreviation js_number :: "number \<Rightarrow> jsval" where
  "js_number x \<equiv> JNum (Fin x)"

definition role_name :: "MessageRole \<Rightarrow> string" where
  "role_name r = (case r of User \<Rightarrow> ''user'' | Assistant \<Rightarrow> ''assistant'' | System \<Rightarrow> ''system'')"

definition status_name :: "MessageStatus \<Rightarrow> string" where
  "status_name s = (case s of Loading \<Rightarrow> ''loading'' | Streaming \<Rightarrow> ''streaming''
     | Complete \<Rightarrow> ''complete'' | Error \<Rightarrow> ''error'')"

definition js_of_version :: "MessageVersion \<Rightarrow> jsval" where
  "js_of_version v =
     obj_of [(''id'', Some (JStr (v_id v))), (''content'', Some (JStr (v_content v)))]"

definition js_of_source :: "Source \<Rightarrow> jsval" where
  "js_of_source s =
     obj_of [(''href'', Some (JStr (s_href s))), (''title'', Some (JStr (s_title s)))]"

definition js_of_reasoning :: "Reasoning \<Rightarrow> jsval" where
  "js_of_reasoning r = obj_of
     [(''content'', Some (JStr (r_content r))), (''duration'', Some (js_number (r_duration r))),
      (''startedAt'', map_option js_number (r_startedAt r)),
      (''completedAt'', map_option js_number (r_completedAt r)),
      (''durationMs'', map_option js_number (r_durationMs r))]"

definition js_nullable :: "('a \<Rightarrow> jsval) \<Rightarrow> 'a option \<Rightarrow> jsval" where
  "js_nullable f x = (case x of None \<Rightarrow> JNull | Some y \<Rightarrow> f y)"

definition js_of_message :: "Message \<Rightarrow> jsval" where
  "js_of_message m = obj_of
     [(''key'', Some (JStr (m_key m))), (''from'', Some (JStr (role_name (m_from m)))),
      (''versions'', Some (JArr (map js_of_version (m_versions m)))),
      (''createdAt'', map_option js_number (m_createdAt m)),
      (''startedAt'', map_option js_number (m_startedAt m)),
      (''completedAt'', map_option js_number (m_completedAt m)),
      (''durationMs'', map_option js_number (m_durationMs m)),
      (''sources'', map_option (\<lambda>ss. JArr (map js_of_source ss)) (m_sources m)),
      (''reasoning'', map_option js_of_reasoning (m_reasoning m)),
      (''isReasoningStreaming'', map_option JBool (m_isReasoningStreaming m)),
      (''isReasoningComplete'', map_option JBool (m_isReasoningComplete m)),
      (''isContentComplete'', map_option JBool (m_isContentComplete m)),
      (''status'', map_option (\<lambda>s. JStr (status_name s)) (m_status m)),
      (''errorCode'', map_option (js_nullable JStr) (m_errorCode m))]"

definition js_of_messages :: "Message list \<Rightarrow> jsval" where
  "js_of_messages ms = JArr (map js_of_message ms)"

section \<open>Reading the values back\<close>

text \<open>The casts of the source: only applied to values that went through a schema.\<close>

fun js_rat :: "jsval \<Rightarrow> number" where
  "js_rat (JNum (Fin x)) = x"
| "js_rat _ = 0"

fun js_bool :: "jsval \<Rightarrow> bool" where
  "js_bool (JBool b) = b"
| "js_bool _ = False"

fun js_list :: "jsval \<Rightarrow> jsval list" where
  "js_list (JArr vs) = vs"
| "js_list _ = []"

definition opt_field :: "(jsval \<Rightarrow> 'a) \<Rightarrow> jsval \<Rightarrow> string \<Rightarrow> 'a option" where
  "opt_field f v k = (if js_get v k = JUndef then None else Some (f (js_get v k)))"

definition role_of :: "string \<Rightarrow> MessageRole" where
  "role_of s = (if s = ''user'' then User else if s = ''assistant'' then Assistant else System)"

definition status_of :: "string \<Rightarrow> MessageStatus" where
  "status_of s = (if s = ''loading'' then Loading else if s = ''streaming'' then Streaming
     else if s = ''complete'' then Complete else Error)"

definition version_of :: "jsval \<Rightarrow> MessageVersion" where
  "version_of v = \<lparr>v_id = string_or_empty (js_get v ''id''),
     v_content = string_or_empty (js_get v ''content'')\<rparr>"

definition source_of :: "jsval \<Rightarrow> Source" where
  "source_of v = \<lparr>s_href = string_or_empty (js_get v ''href''),
     s_title = string_or_empty (js_get v ''title'')\<rparr>"

definition reasoning_of :: "jsval \<Rightarrow> Reasoning" where
  "reasoning_of v = \<lparr>r_content = string_or_empty (js_get v ''content''),
     r_duration = js_rat (js_get v ''duration''),
     r_startedAt = opt_field js_rat v ''startedAt'',
     r_completedAt = opt_field js_rat v ''completedAt'',
     r_durationMs = opt_field js_rat v ''durationMs''\<rparr>"

definition message_of :: "jsval \<Rightarrow> Message" where
  "message_of v = \<lparr>m_key = string_or_empty (js_get v ''key''),
     m_from = role_of (string_or_empty (js_get v ''from'')),
     m_versions = map version_of (js_list (js_get v ''versions'')),
     m_createdAt = opt_field js_rat v ''createdAt'',
     m_startedAt = opt_field js_rat v ''startedAt'',
     m_completedAt = opt_field js_rat v ''completedAt'',
     m_durationMs = opt_field js_rat v ''durationMs'',
     m_sources = opt_field (\<lambda>x. map source_of (js_list x)) v ''sources'',
     m_reasoning = opt_field reasoning_of v ''reasoning'',
     m_isReasoningStreaming = opt_field js_bool v ''isReasoningStreaming'',
     m_isReasoningComplete = opt_field js_bool v ''isReasoningComplete'',
     m_isContentComplete = opt_field js_bool v ''isContentComplete'',
     m_status = opt_field (\<lambda>x. status_of (string_or_empty x)) v ''status'',
     m_errorCode = opt_field as_string v ''errorCode''\<rparr>"

definition messages_of :: "jsval \<Rightarrow> Message list" where
  "messages_of v = map message_of (js_list v)"

section \<open>Partial configurations\<close>

record PartialConfig =
  pc_model :: "string option"
  pc_group :: "string option"
  pc_temperature :: "number option"
  pc_top_p :: "number option"
  pc_max_tokens :: "number option"
  pc_frequency_penalty :: "number option"
  pc_presence_penalty :: "number option"
  pc_seed :: "number option option"
  pc_stream :: "bool option"

record PartialEnabled =
  pn_temperature :: "bool option"
  pn_top_p :: "bool option"
  pn_max_tokens :: "bool option"
  pn_frequency_penalty :: "bool option"
  pn_presence_penalty :: "bool option"
  pn_seed :: "bool option"

definition empty_config :: PartialConfig where
  "empty_config = \<lparr>pc_model = None, pc_group = None, pc_temperature = None, pc_top_p = None,
     pc_max_tokens = None, pc_frequency_penalty = None, pc_presence_penalty = None,
     pc_seed = None, pc_stream = None\<rparr>"

definition empty_enabled :: PartialEnabled where
  "empty_enabled = \<lparr>pn_temperature = None, pn_top_p = None, pn_max_tokens = None,
     pn_frequency_penalty = None, pn_presence_penalty = None, pn_seed = None\<rparr>"

definition partial_config :: "PlaygroundConfig \<Rightarrow> PartialConfig" where
  "partial_config c = \<lparr>pc_model = Some (g_model c), pc_group = Some (g_group c),
     pc_temperature = Some (g_temperature c), pc_top_p = Some (g_top_p c),
     pc_max_tokens = Some (g_max_tokens c), pc_frequency_penalty = Some (g_frequency_penalty c),
     pc_presence_penalty = Some (g_presence_penalty c), pc_seed = Some (g_seed c),
     pc_stream = Some (g_stream c)\<rparr>"

definition partial_enabled :: "ParameterEnabled \<Rightarrow> PartialEnabled" where
  "partial_enabled p = \<lparr>pn_temperature = Some (n_temperature p), pn_top_p = Some (n_top_p p),
     pn_max_tokens = Some (n_max_tokens p), pn_frequency_penalty = Some (n_frequency_penalty p),
     pn_presence_penalty = Some (n_presence_penalty p), pn_seed = Some (n_seed p)\<rparr>"

definition js_of_config :: "PartialConfig \<Rightarrow> jsval" where
  "js_of_config c = obj_of
     [(''model'', map_option JStr (pc_model c)), (''group'', map_option JStr (pc_group c)),
      (''temperature'', map_option js_number (pc_temperature c)),
      (''top_p'', map_option js_number (pc_top_p c)),
      (''max_tokens'', map_option js_number (pc_max_tokens c)),
      (''frequency_penalty'', map_option js_number (pc_frequency_penalty c)),
      (''presence_penalty'', map_option js_number (pc_presence_penalty c)),
      (''seed'', map_option (js_nullable js_number) (pc_seed c)),
      (''stream'', map_option JBool (pc_stream c))]"

definition js_of_enabled :: "PartialEnabled \<Rightarrow> jsval" where
  "js_of_enabled p = obj_of
     [(''temperature'', map_option JBool (pn_temperature p)),
      (''top_p'', map_option JBool (pn_top_p p)),
      (''max_tokens'', map_option JBool (pn_max_tokens p)),
      (''frequency_penalty'', map_option JBool (pn_frequency_penalty p)),
      (''presence_penalty'', map_option JBool (pn_presence_penalty p)),
      (''seed'', map_option JBool (pn_seed p))]"

definition js_nullable_rat :: "jsval \<Rightarrow> number option" where
  "js_nullable_rat v = (if v = JNull then None else Some (js_rat v))"

definition config_of :: "jsval \<Rightarrow> PartialConfig" where
  "config_of v = \<lparr>pc_model = opt_field string_or_empty v ''model'',
     pc_group = opt_field string_or_empty v ''group'',
     pc_temperature = opt_field js_rat v ''temperature'',
     pc_top_p = opt_field js_rat v ''top_p'',
     pc_max_tokens = opt_field js_rat v ''max_tokens'',
     pc_frequency_penalty = opt_field js_rat v ''frequency_penalty'',
     pc_presence_penalty = opt_field js_rat v ''presence_penalty'',
     pc_seed = opt_field js_nullable_rat v ''seed'',
     pc_stream = opt_field js_bool v ''stream''\<rparr>"

definition enabled_of :: "jsval \<Rightarrow> PartialEnabled" where
  "enabled_of v = \<lparr>pn_temperature = opt_field js_bool v ''temperature'',
     pn_top_p = opt_field js_bool v ''top_p'', pn_max_tokens = opt_field js_bool v ''max_tokens'',
     pn_frequency_penalty = opt_field js_bool v ''frequency_penalty'',
     pn_presence_penalty = opt_field js_bool v ''presence_penalty'',
     pn_seed = opt_field js_bool v ''seed''\<rparr>"

section \<open>Facts\<close>

lemma zod_reference_law: "zod_law zod_reference"
  by (simp add: zod_law_def zod_reference_def)

lemma strip_fields:
  assumes "list_all2 (\<lambda>z f. fst z = fst f \<and> (\<forall>v. snd f = Some v \<longrightarrow> strip (snd z) v = v)) zs gs"
    and "\<forall>f \<in> set gs. map_of fs (fst f) = Some (snd f)" and "distinct (map fst fs)"
  shows "concat (map (\<lambda>z. if js_has (obj_of fs) (fst z)
      then [(fst z, strip (snd z) (js_get (obj_of fs) (fst z)))] else []) zs) =
    somes (map (\<lambda>f. map_option (Pair (fst f)) (snd f)) gs)"
  using assms(1,2)
proof (induction rule: list_all2_induct)
  case (Cons z zs g gs)
  then show ?case
    by (cases "snd g") (auto simp: js_has_obj_of [OF assms(3)] js_get_obj_of [OF assms(3)])
qed simp

lemma strip_obj_of:
  assumes "list_all2 (\<lambda>z f. fst z = fst f \<and> (\<forall>v. snd f = Some v \<longrightarrow> strip (snd z) v = v)) zs fs"
    and "distinct (map fst fs)"
  shows "strip (ZObject zs) (obj_of fs) = obj_of fs"
proof -
  have "\<forall>f \<in> set fs. map_of fs (fst f) = Some (snd f)"
    using assms(2) by (auto simp: map_of_eq_Some_iff)
  from strip_fields [OF assms(1) this assms(2)] show ?thesis
    by (simp only: strip.simps) (simp only: obj_of_def)
qed

lemma conforms_obj_of:
  assumes "list_all2 (\<lambda>z f. fst z = fst f \<and>
      conforms (snd z) (opt_val (snd f))) zs fs"
    and "distinct (map fst fs)"
  shows "conforms (ZObject zs) (obj_of fs)"
proof -
  have "conforms (snd z) (js_get (obj_of fs) (fst z))" if z: "z \<in> set zs" for z
  proof -
    obtain i where i: "i < length zs" "z = zs ! i" using z by (auto simp: in_set_conv_nth)
    with assms(1) have f: "fs ! i \<in> set fs" "fst z = fst (fs ! i)"
      "conforms (snd z) (opt_val (snd (fs ! i)))"
      by (auto simp: list_all2_conv_all_nth)
    have "map_of fs (fst z) = Some (snd (fs ! i))"
      using assms(2) f(1,2) by (simp add: map_of_eq_Some_iff)
    with f(3) show ?thesis using assms(2) by (simp add: js_get_obj_of split: option.splits)
  qed
  then show ?thesis by (simp add: obj_of_def)
qed

section \<open>Messages\<close>

fun opt_double :: "number option \<Rightarrow> bool" where
  "opt_double None = True"
| "opt_double (Some x) = is_double x"

definition reasoning_numbers_ok :: "Reasoning \<Rightarrow> bool" where
  "reasoning_numbers_ok r \<longleftrightarrow> is_double (r_duration r) \<and> opt_double (r_startedAt r)
     \<and> opt_double (r_completedAt r) \<and> opt_double (r_durationMs r)"

definition message_numbers_ok :: "Message \<Rightarrow> bool" where
  "message_numbers_ok m \<longleftrightarrow> opt_double (m_createdAt m) \<and> opt_double (m_startedAt m)
     \<and> opt_double (m_completedAt m) \<and> opt_double (m_durationMs m)
     \<and> (case m_reasoning m of None \<Rightarrow> True | Some r \<Rightarrow> reasoning_numbers_ok r)"

lemma opt_double_SomeD: "opt_double x \<Longrightarrow> x = Some y \<Longrightarrow> is_double y"
  by simp

lemma conforms_optional:
  "(\<And>x. conforms sc (f x)) \<Longrightarrow>
   conforms (ZOptional sc) (opt_val (map_option f x))"
  by (cases x) simp_all

lemma conforms_base:
  "conforms ZString (JStr s)" "conforms ZNumber (js_number x)" "conforms ZBoolean (JBool b)"
  "conforms (ZNullable ZString) (js_nullable JStr y)"
  "conforms (ZNullable ZNumber) (js_nullable js_number z)"
  by (cases y; cases z; simp add: js_nullable_def)+

lemma conforms_array:
  "n \<le> length xs \<Longrightarrow> (\<And>x. conforms sc (f x)) \<Longrightarrow> conforms (ZArray sc n) (JArr (map f xs))"
  by simp

lemma opt_field_get:
  "js_get v k = opt_val (map_option f x) \<Longrightarrow> (\<And>y. f y \<noteq> JUndef) \<Longrightarrow> (\<And>y. g (f y) = y) \<Longrightarrow>
   opt_field g v k = x"
  by (cases x) (simp_all add: opt_field_def)

lemma js_nullable_get [simp]:
  "js_nullable JStr x \<noteq> JUndef" "as_string (js_nullable JStr x) = x"
  "js_nullable js_number y \<noteq> JUndef" "js_nullable_rat (js_nullable js_number y) = y"
  by (cases x; cases y; simp add: js_nullable_def js_nullable_rat_def)+

lemma string_or_empty_JStr [simp]: "string_or_empty (JStr s) = s"
  by (simp add: string_or_empty_def)

lemma version_strip: "strip messageVersionSchema (js_of_version v) = js_of_version v"
  unfolding messageVersionSchema_def js_of_version_def
  by (rule strip_obj_of) (auto simp: js_nullable_def split: option.splits)

lemma version_conforms: "conforms messageVersionSchema (js_of_version v)"
  unfolding messageVersionSchema_def js_of_version_def
  by (rule conforms_obj_of) (simp_all add: conforms_optional conforms_base del: conforms.simps)

lemma version_decode: "version_of (js_of_version v) = v"
  unfolding js_of_version_def version_of_def
  by (simp add: js_get_obj_of)

lemma version_plain: "plain (js_of_version v)"
  unfolding js_of_version_def
  by (rule plain_obj_of) (auto simp: js_nullable_def split: option.splits dest: opt_double_SomeD)

lemma source_strip: "strip sourceSchema (js_of_source v) = js_of_source v"
  unfolding sourceSchema_def js_of_source_def
  by (rule strip_obj_of) (auto simp: js_nullable_def split: option.splits)

lemma source_conforms: "conforms sourceSchema (js_of_source v)"
  unfolding sourceSchema_def js_of_source_def
  by (rule conforms_obj_of) (simp_all add: conforms_optional conforms_base del: conforms.simps)

lemma source_decode: "source_of (js_of_source v) = v"
  unfolding js_of_source_def source_of_def
  by (simp add: js_get_obj_of)

lemma source_plain: "plain (js_of_source v)"
  unfolding js_of_source_def
  by (rule plain_obj_of) (auto simp: js_nullable_def split: option.splits dest: opt_double_SomeD)

lemma reasoning_strip: "strip reasoningSchema (js_of_reasoning r) = js_of_reasoning r"
  unfolding reasoningSchema_def js_of_reasoning_def
  by (rule strip_obj_of) (auto simp: js_nullable_def split: option.splits)

lemma reasoning_conforms: "conforms reasoningSchema (js_of_reasoning r)"
  unfolding reasoningSchema_def js_of_reasoning_def
  by (rule conforms_obj_of) (simp_all add: conforms_optional conforms_base del: conforms.simps)

lemma reasoning_decode: "reasoning_of (js_of_reasoning r) = r"
  unfolding js_of_reasoning_def reasoning_of_def
  by (rule Reasoning.equality) (simp_all add: js_get_obj_of opt_field_get)

lemma reasoning_plain: "reasoning_numbers_ok r \<Longrightarrow> plain (js_of_reasoning r)"
  unfolding js_of_reasoning_def
  by (rule plain_obj_of) (auto simp: js_nullable_def reasoning_numbers_ok_def split: option.splits dest: opt_double_SomeD)

lemma obj_of_not_undef [simp]: "obj_of fs \<noteq> JUndef"
  by (simp add: obj_of_def)

lemma js_of_reasoning_not_undef [simp]: "js_of_reasoning r \<noteq> JUndef"
  by (simp add: js_of_reasoning_def)

lemma role_of_name [simp]: "role_of (role_name r) = r"
  by (cases r) (simp_all add: role_of_def role_name_def)

lemma status_of_name [simp]: "status_of (status_name s) = s"
  by (cases s) (simp_all add: status_of_def status_name_def)

lemma role_name_enum: "conforms messageRoleSchema (JStr (role_name r))"
  by (cases r) (simp_all add: role_name_def messageRoleSchema_def)

lemma status_name_enum: "conforms messageStatusSchema (JStr (status_name s))"
  by (cases s) (simp_all add: status_name_def messageStatusSchema_def)

lemma enum_strip [simp]:
  "strip messageRoleSchema v = v" "strip messageStatusSchema v = v"
  by (simp_all add: messageRoleSchema_def messageStatusSchema_def)

lemma message_strip: "strip messageSchema (js_of_message m) = js_of_message m"
  unfolding messageSchema_def js_of_message_def
  by (rule strip_obj_of) (auto simp: js_nullable_def version_strip source_strip reasoning_strip
      split: option.splits intro!: map_idI)

lemmas codec_conforms = conforms_optional conforms_base conforms_array version_conforms
  source_conforms reasoning_conforms role_name_enum status_name_enum

lemma message_conforms: "m_versions m \<noteq> [] \<Longrightarrow> conforms messageSchema (js_of_message m)"
  unfolding messageSchema_def js_of_message_def
  by (rule conforms_obj_of) (simp_all add: codec_conforms Suc_le_eq del: conforms.simps)

lemma message_conformsD:
  assumes "conforms messageSchema (js_of_message m)"
  shows "m_versions m \<noteq> []"
proof -
  have "js_get (js_of_message m) ''versions'' = JArr (map js_of_version (m_versions m))"
    by (simp add: js_of_message_def js_get_obj_of)
  moreover have "conforms (ZArray messageVersionSchema 1) (js_get (js_of_message m) ''versions'')"
    using assms unfolding messageSchema_def js_of_message_def obj_of_def
    by (simp only: conforms.simps(6) jsval.case) simp
  ultimately show ?thesis by auto
qed

lemma js_of_message_get:
  "js_get (js_of_message m) ''createdAt'' = opt_val (map_option js_number (m_createdAt m))"
  "js_get (js_of_message m) ''startedAt'' = opt_val (map_option js_number (m_startedAt m))"
  "js_get (js_of_message m) ''completedAt'' = opt_val (map_option js_number (m_completedAt m))"
  "js_get (js_of_message m) ''durationMs'' = opt_val (map_option js_number (m_durationMs m))"
  "js_get (js_of_message m) ''sources'' =
     opt_val (map_option (\<lambda>ss. JArr (map js_of_source ss)) (m_sources m))"
  "js_get (js_of_message m) ''reasoning'' = opt_val (map_option js_of_reasoning (m_reasoning m))"
  "js_get (js_of_message m) ''isReasoningStreaming'' =
     opt_val (map_option JBool (m_isReasoningStreaming m))"
  "js_get (js_of_message m) ''isReasoningComplete'' =
     opt_val (map_option JBool (m_isReasoningComplete m))"
  "js_get (js_of_message m) ''isContentComplete'' =
     opt_val (map_option JBool (m_isContentComplete m))"
  "js_get (js_of_message m) ''status'' =
     opt_val (map_option (\<lambda>s. JStr (status_name s)) (m_status m))"
  "js_get (js_of_message m) ''errorCode'' = opt_val (map_option (js_nullable JStr) (m_errorCode m))"
  "js_get (js_of_message m) ''key'' = JStr (m_key m)"
  "js_get (js_of_message m) ''from'' = JStr (role_name (m_from m))"
  "js_get (js_of_message m) ''versions'' = JArr (map js_of_version (m_versions m))"
  by (simp_all add: js_of_message_def js_get_obj_of)

lemma message_decode: "message_of (js_of_message m) = m"
  unfolding message_of_def
  by (rule Message.equality)
    (simp_all add: js_of_message_get(12-14) version_decode source_decode reasoning_decode comp_def
      js_of_message_get(1-11) [THEN opt_field_get])

lemma message_plain: "message_numbers_ok m \<Longrightarrow> plain (js_of_message m)"
  unfolding js_of_message_def
  by (rule plain_obj_of) (auto simp: js_nullable_def message_numbers_ok_def version_plain
      source_plain reasoning_plain split: option.splits dest: opt_double_SomeD)

lemma messages_strip: "strip messagesSchema (js_of_messages ms) = js_of_messages ms"
  by (simp add: messagesSchema_def js_of_messages_def message_strip)

lemma messages_conforms:
  "conforms messagesSchema (js_of_messages ms) \<longleftrightarrow> (\<forall>m \<in> set ms. m_versions m \<noteq> [])"
  by (auto simp: messagesSchema_def js_of_messages_def intro: message_conforms dest: message_conformsD)

lemma messages_decode: "messages_of (js_of_messages ms) = ms"
  by (simp add: messages_of_def js_of_messages_def message_decode comp_def)

lemma messages_plain: "\<forall>m \<in> set ms. message_numbers_ok m \<Longrightarrow> plain (js_of_messages ms)"
  by (simp add: js_of_messages_def message_plain)

section \<open>Configurations\<close>

definition config_numbers_ok :: "PartialConfig \<Rightarrow> bool" where
  "config_numbers_ok c \<longleftrightarrow> opt_double (pc_temperature c) \<and> opt_double (pc_top_p c)
     \<and> opt_double (pc_max_tokens c) \<and> opt_double (pc_frequency_penalty c)
     \<and> opt_double (pc_presence_penalty c)
     \<and> (case pc_seed c of None \<Rightarrow> True | Some x \<Rightarrow> opt_double x)"

lemma config_strip: "strip playgroundConfigSchema (js_of_config c) = js_of_config c"
  unfolding playgroundConfigSchema_def js_of_config_def
  by (rule strip_obj_of) auto

lemma config_conforms: "conforms playgroundConfigSchema (js_of_config c)"
  unfolding playgroundConfigSchema_def js_of_config_def
  by (rule conforms_obj_of) (simp_all add: codec_conforms del: conforms.simps)

lemma js_of_config_get:
  "js_get (js_of_config c) ''model'' = opt_val (map_option JStr (pc_model c))"
  "js_get (js_of_config c) ''group'' = opt_val (map_option JStr (pc_group c))"
  "js_get (js_of_config c) ''temperature'' = opt_val (map_option js_number (pc_temperature c))"
  "js_get (js_of_config c) ''top_p'' = opt_val (map_option js_number (pc_top_p c))"
  "js_get (js_of_config c) ''max_tokens'' = opt_val (map_option js_number (pc_max_tokens c))"
  "js_get (js_of_config c) ''frequency_penalty'' =
     opt_val (map_option js_number (pc_frequency_penalty c))"
  "js_get (js_of_config c) ''presence_penalty'' =
     opt_val (map_option js_number (pc_presence_penalty c))"
  "js_get (js_of_config c) ''seed'' = opt_val (map_option (js_nullable js_number) (pc_seed c))"
  "js_get (js_of_config c) ''stream'' = opt_val (map_option JBool (pc_stream c))"
  by (simp_all add: js_of_config_def js_get_obj_of)

lemma config_decode: "config_of (js_of_config c) = c"
  unfolding config_of_def
  by (rule PartialConfig.equality) (simp_all add: js_of_config_get [THEN opt_field_get])

lemma config_plain: "config_numbers_ok c \<Longrightarrow> plain (js_of_config c)"
  unfolding js_of_config_def
  by (rule plain_obj_of) (auto simp: js_nullable_def config_numbers_ok_def
      split: option.splits dest: opt_double_SomeD)

lemma enabled_strip: "strip parameterEnabledSchema (js_of_enabled p) = js_of_enabled p"
  unfolding parameterEnabledSchema_def js_of_enabled_def
  by (rule strip_obj_of) auto

lemma enabled_conforms: "conforms parameterEnabledSchema (js_of_enabled p)"
  unfolding parameterEnabledSchema_def js_of_enabled_def
  by (rule conforms_obj_of) (simp_all add: codec_conforms del: conforms.simps)

lemma js_of_enabled_get:
  "js_get (js_of_enabled p) ''temperature'' = opt_val (map_option JBool (pn_temperature p))"
  "js_get (js_of_enabled p) ''top_p'' = opt_val (map_option JBool (pn_top_p p))"
  "js_get (js_of_enabled p) ''max_tokens'' = opt_val (map_option JBool (pn_max_tokens p))"
  "js_get (js_of_enabled p) ''frequency_penalty'' =
     opt_val (map_option JBool (pn_frequency_penalty p))"
  "js_get (js_of_enabled p) ''presence_penalty'' =
     opt_val (map_option JBool (pn_presence_penalty p))"
  "js_get (js_of_enabled p) ''seed'' = opt_val (map_option JBool (pn_seed p))"
  by (simp_all add: js_of_enabled_def js_get_obj_of)

lemma enabled_decode: "enabled_of (js_of_enabled p) = p"
  unfolding enabled_of_def
  by (rule PartialEnabled.equality) (simp_all add: js_of_enabled_get [THEN opt_field_get])

lemma enabled_plain: "plain (js_of_enabled p)"
  unfolding js_of_enabled_def by (rule plain_obj_of) auto

end
