(* ===== verification/Pg_Storage.thy ===== *)
theory Pg_Storage
  imports Pg_Codec
begin

text \<open>
  Persistence, \<open>lib/storage/storage.ts\<close>, and the initial state it feeds,
  \<open>lib/state/playground-state-utils.ts\<close>. The browser's \<open>localStorage\<close> is a map of
  strings with a predicate that tells whether it accepts a write. Errors are caught by the code
  and logged; here they take the branch the code takes. The pattern of the section headings is
  matched by hand (\<open>heading_match\<close>).
\<close>

section \<open>The store\<close>

record LocalStorage =
  ls_items :: "string \<Rightarrow> string option"
  ls_accepts :: "string \<Rightarrow> string \<Rightarrow> bool"

definition getItem :: "LocalStorage \<Rightarrow> string \<Rightarrow> string option" where
  "getItem ls key = ls_items ls key"

definition setItem :: "string \<Rightarrow> string \<Rightarrow> LocalStorage \<Rightarrow> js_error + LocalStorage" where
  "setItem key value ls =
     (if ls_accepts ls key value then Inr (ls\<lparr>ls_items := (ls_items ls)(key \<mapsto> value)\<rparr>)
      else Inl QuotaExceeded)"

definition removeItem :: "string \<Rightarrow> LocalStorage \<Rightarrow> LocalStorage" where
  "removeItem key ls = ls\<lparr>ls_items := (ls_items ls)(key := None)\<rparr>"

definition KEY_CONFIG :: string where
  "KEY_CONFIG = ''playground_config''"

definition KEY_MESSAGES :: string where
  "KEY_MESSAGES = ''playground_messages''"

definition KEY_PARAMETER_ENABLED :: string where
  "KEY_PARAMETER_ENABLED = ''playground_parameter_enabled''"

definition STORAGE_VERSION :: number where
  "STORAGE_VERSION = 1"

definition MAX_STORED_MESSAGES :: nat where
  "MAX_STORED_MESSAGES = 100"

definition MAX_STORED_MESSAGES_BYTES :: nat where
  "MAX_STORED_MESSAGES_BYTES = 1024 * 1024"

definition MAX_LOADED_MESSAGES_CHARS :: nat where
  "MAX_LOADED_MESSAGES_CHARS = 120000"

definition MAX_LOADED_MESSAGE_CHARS :: nat where
  "MAX_LOADED_MESSAGE_CHARS = 40000"

definition TRUNCATED_CONTENT_SUFFIX :: string where
  "TRUNCATED_CONTENT_SUFFIX = [CHR 0x0A, CHR 0x0A] @ ''[...]''"

definition MIN_PREFIX_COLLAPSE_LENGTH :: nat where
  "MIN_PREFIX_COLLAPSE_LENGTH = 2000"

definition MIN_REPEATED_SECTION_COUNT :: nat where
  "MIN_REPEATED_SECTION_COUNT = 3"

definition readStoredValue :: "LocalStorage \<Rightarrow> string \<Rightarrow> js_error + jsval" where
  "readStoredValue ls key =
     (if \<not> truthy_str (getItem ls key) then Inr JNull else json_parse (the (getItem ls key)))"

definition readStoredMessagesValue :: "LocalStorage \<Rightarrow> (js_error + jsval) \<times> LocalStorage" where
  "readStoredMessagesValue ls =
     (let saved = getItem ls KEY_MESSAGES
      in if \<not> truthy_str saved then (Inr JNull, ls)
         else if MAX_STORED_MESSAGES_BYTES < length (the saved)
         then (Inr JNull, removeItem KEY_MESSAGES ls)
         else (json_parse (the saved), ls))"

definition unwrapStoredValue :: "jsval \<Rightarrow> jsval" where
  "unwrapStoredValue value =
     (if \<not> truthy value \<or> \<not> is_object value then value
      else if js_has value ''version'' \<and> js_has value ''data'' then js_get value ''data''
      else value)"

definition envelope :: "jsval \<Rightarrow> jsval" where
  "envelope data = JObj [(''version'', js_number STORAGE_VERSION), (''data'', data)]"

definition writeStoredValue :: "string \<Rightarrow> jsval \<Rightarrow> LocalStorage \<Rightarrow> js_error + LocalStorage" where
  "writeStoredValue key data ls = setItem key (json_text (envelope data)) ls"

section \<open>Trimming\<close>

definition trimMessages :: "Message list \<Rightarrow> Message list" where
  "trimMessages messages =
     (if length messages \<le> MAX_STORED_MESSAGES then messages
      else take_last MAX_STORED_MESSAGES messages)"

definition getMessageSize :: "Message \<Rightarrow> nat" where
  "getMessageSize message =
     foldl (\<lambda>total version. total + length (v_content version)) 0 (m_versions message)
     + (case m_reasoning message of Some r \<Rightarrow> length (r_content r) | None \<Rightarrow> 0)"

definition truncateText :: "string \<Rightarrow> nat \<Rightarrow> string" where
  "truncateText text_in maxLength =
     (if length text_in \<le> maxLength then text_in
      else if maxLength \<le> length TRUNCATED_CONTENT_SUFFIX then slice 0 maxLength text_in
      else slice 0 (maxLength - length TRUNCATED_CONTENT_SUFFIX) text_in @ TRUNCATED_CONTENT_SUFFIX)"

section \<open>Repeated sections\<close>

record SectionOccurrence =
  so_heading :: string
  so_index :: nat

text \<open>
  The length of a match of the heading pattern at the start of a line. The run of hashes is 2
  to 6 long, blanks may span lines, and after the dot the blanks are maximal when text follows.
  At the end of the text the last blank that is not a line end stands for the text.
\<close>

definition heading_tail :: "string \<Rightarrow> nat option" where
  "heading_tail s =
     (let ws = takeWhile is_ws s; r = dropWhile is_ws s
      in if ws = [] then None
         else if r \<noteq> [] then Some (length ws + length (takeWhile (\<lambda>c. \<not> is_line_end c) r))
         else map_option Suc (find (\<lambda>i. \<not> is_line_end (ws ! i)) (rev [1..<length ws])))"

definition heading_match :: "string \<Rightarrow> nat option" where
  "heading_match s =
     (let h = length (takeWhile (\<lambda>c. c = CHR 0x23) s); s1 = drop h s;
          w = length (takeWhile is_ws s1); s2 = drop w s1;
          d = length (takeWhile is_digit s2); s3 = drop d s2
      in if h < 2 \<or> 6 < h \<or> w = 0 \<or> d = 0 \<or> s3 = [] \<or> hd s3 \<noteq> CHR ''.'' then None
         else map_option (\<lambda>n. h + w + d + 1 + n) (heading_tail (tl s3)))"

lemma heading_match_pos: "heading_match s = Some n \<Longrightarrow> 0 < n"
  by (auto simp: heading_match_def Let_def split: if_splits)

text \<open>
  \<open>matchAll\<close>: the matches from left to right, each search starting where the last match
  ended. \<open>bol\<close> tells whether the position starts a line.
\<close>

function section_scan :: "bool \<Rightarrow> nat \<Rightarrow> string \<Rightarrow> SectionOccurrence list" where
  "section_scan bol index s =
     (case s of
        [] \<Rightarrow> []
      | c # r \<Rightarrow>
         (case (if bol then heading_match s else None) of
            Some n \<Rightarrow> \<lparr>so_heading = take n s, so_index = index\<rparr>
                 # section_scan (is_line_end (last (take n s))) (index + n) (drop n s)
          | None \<Rightarrow> section_scan (is_line_end c) (index + 1) r))"
  by pat_completeness auto
termination
  by (relation "measure (\<lambda>(_, _, s). length s)") (auto split: if_splits dest: heading_match_pos)

declare section_scan.simps [simp del]

definition getSectionOccurrences :: "string \<Rightarrow> SectionOccurrence list" where
  "getSectionOccurrences text_in = section_scan True 0 text_in"

definition getHeadingCounts :: "SectionOccurrence list \<Rightarrow> string \<Rightarrow> nat option" where
  "getHeadingCounts occurrences =
     foldl (\<lambda>counts occurrence. counts(so_heading occurrence \<mapsto>
        (case counts (so_heading occurrence) of Some n \<Rightarrow> n | None \<Rightarrow> 0) + 1))
       Map.empty occurrences"

text \<open>The loop from the last occurrence to the first, with the headings seen so far.\<close>

fun repeated_indexes ::
  "(string \<Rightarrow> nat option) \<Rightarrow> string list \<Rightarrow> SectionOccurrence list \<Rightarrow> nat list"
where
  "repeated_indexes counts seen [] = []"
| "repeated_indexes counts seen (occurrence # os) =
     (let count = (case counts (so_heading occurrence) of Some n \<Rightarrow> n | None \<Rightarrow> 0)
      in if count < MIN_REPEATED_SECTION_COUNT \<or> so_heading occurrence \<in> set seen
         then repeated_indexes counts seen os
         else so_index occurrence # repeated_indexes counts (so_heading occurrence # seen) os)"

definition findLastRepeatedSectionRunStart :: "string \<Rightarrow> nat option" where
  "findLastRepeatedSectionRunStart text_in =
     (let occurrences = getSectionOccurrences text_in;
          lastRepeatedIndexes =
            repeated_indexes (getHeadingCounts occurrences) [] (rev occurrences)
      in if lastRepeatedIndexes = [] then None
         else Some (fold min (tl lastRepeatedIndexes) (hd lastRepeatedIndexes)))"

definition collapseRepeatedSectionSnapshots :: "string \<Rightarrow> string" where
  "collapseRepeatedSectionSnapshots text_in =
     (if length text_in < MIN_PREFIX_COLLAPSE_LENGTH then text_in
      else (case findLastRepeatedSectionRunStart text_in of
              None \<Rightarrow> text_in
            | Some lastRepeatedRunStart \<Rightarrow> drop lastRepeatedRunStart text_in))"

section \<open>Normalising a stored message\<close>

definition normalizeVersion :: "MessageVersion \<Rightarrow> MessageVersion" where
  "normalizeVersion version =
     version\<lparr>v_content := truncateText (collapseRepeatedSectionSnapshots (v_content version))
        MAX_LOADED_MESSAGE_CHARS\<rparr>"

definition normalizeReasoning :: "Reasoning \<Rightarrow> Reasoning" where
  "normalizeReasoning r = r\<lparr>r_content := truncateText (r_content r) MAX_LOADED_MESSAGE_CHARS\<rparr>"

text \<open>
  The code keeps the message object when nothing changed; as a value it is the same either way.
\<close>

definition normalizeContents :: "Message \<Rightarrow> Message" where
  "normalizeContents message =
     message\<lparr>m_versions := map normalizeVersion (m_versions message),
       m_reasoning := map_option normalizeReasoning (m_reasoning message)\<rparr>"

definition normalizeStoredMessageForLoad :: "number \<Rightarrow> Message \<Rightarrow> Message" where
  "normalizeStoredMessageForLoad now message =
     (let normalized = normalizeContents message
      in if \<not> isAssistantMessagePending normalized then normalized
         else let hasContent = hasMessageContent normalized;
                  hasReasoning = (case m_reasoning normalized of None \<Rightarrow> False
                    | Some r \<Rightarrow> trim (r_content r) \<noteq> [])
              in if \<not> hasContent \<and> \<not> hasReasoning then normalized
                 else let completedAt = (case coalesce (m_completedAt normalized)
                          (coalesce (Option.bind (m_reasoning normalized) r_completedAt)
                            (coalesce (m_startedAt normalized) (m_createdAt normalized))) of
                          Some x \<Rightarrow> x | None \<Rightarrow> now)
                      in completeAssistantTiming
                           ((finalizeMessage now normalized None)
                              \<lparr>m_status := Some Complete, m_isReasoningStreaming := Some False\<rparr>)
                           completedAt)"

text \<open>The loop of \<open>trimMessagesByContentSize\<close>, over the reversed list.\<close>

fun size_trim :: "nat \<Rightarrow> Message list \<Rightarrow> Message list \<Rightarrow> Message list" where
  "size_trim totalSize result [] = result"
| "size_trim totalSize result (message # rest) =
     (let messageSize = getMessageSize message
      in if 0 < length result \<and> MAX_LOADED_MESSAGES_CHARS < totalSize + messageSize then result
         else size_trim (totalSize + messageSize) (message # result) rest)"

definition trimMessagesByContentSize :: "Message list \<Rightarrow> Message list" where
  "trimMessagesByContentSize messages = size_trim 0 [] (rev messages)"

section \<open>Loading and saving\<close>

type_synonym zod = "zschema \<Rightarrow> jsval \<Rightarrow> js_error + jsval"

definition load_partial ::
  "zod \<Rightarrow> LocalStorage \<Rightarrow> string \<Rightarrow> zschema \<Rightarrow> (jsval \<Rightarrow> 'a) \<Rightarrow> 'a \<Rightarrow> 'a"
where
  "load_partial zparse ls key schema decode dflt =
     (case readStoredValue ls key of
        Inl _ \<Rightarrow> dflt
      | Inr saved \<Rightarrow>
          if \<not> truthy saved then dflt
          else (case zparse schema (unwrapStoredValue saved) of
                  Inl _ \<Rightarrow> dflt | Inr v \<Rightarrow> decode v))"

definition save_value :: "zod \<Rightarrow> string \<Rightarrow> zschema \<Rightarrow> jsval \<Rightarrow> LocalStorage \<Rightarrow> LocalStorage" where
  "save_value zparse key schema v ls =
     (case zparse schema v of
        Inl _ \<Rightarrow> ls
      | Inr parsed \<Rightarrow> (case writeStoredValue key parsed ls of Inl _ \<Rightarrow> ls | Inr ls' \<Rightarrow> ls'))"

definition loadConfig :: "zod \<Rightarrow> LocalStorage \<Rightarrow> PartialConfig" where
  "loadConfig zparse ls =
     load_partial zparse ls KEY_CONFIG playgroundConfigSchema config_of empty_config"

definition saveConfig :: "zod \<Rightarrow> PartialConfig \<Rightarrow> LocalStorage \<Rightarrow> LocalStorage" where
  "saveConfig zparse config ls =
     save_value zparse KEY_CONFIG playgroundConfigSchema (js_of_config config) ls"

definition loadParameterEnabled :: "zod \<Rightarrow> LocalStorage \<Rightarrow> PartialEnabled" where
  "loadParameterEnabled zparse ls =
     load_partial zparse ls KEY_PARAMETER_ENABLED parameterEnabledSchema enabled_of empty_enabled"

definition saveParameterEnabled :: "zod \<Rightarrow> PartialEnabled \<Rightarrow> LocalStorage \<Rightarrow> LocalStorage" where
  "saveParameterEnabled zparse parameterEnabled ls =
     save_value zparse KEY_PARAMETER_ENABLED parameterEnabledSchema
       (js_of_enabled parameterEnabled) ls"

definition saveMessages :: "zod \<Rightarrow> Message list \<Rightarrow> LocalStorage \<Rightarrow> LocalStorage" where
  "saveMessages zparse messages ls =
     save_value zparse KEY_MESSAGES messagesSchema (js_of_messages (trimMessages messages)) ls"

text \<open>
  \<open>trimMessagesByContentSize\<close> returns a new array, so the comparison
  \<open>sizeTrimmed !== trimmed\<close> holds and the repaired messages are always saved.
\<close>

definition repairMessages :: "(string \<Rightarrow> string) \<Rightarrow> number \<Rightarrow> Message list \<Rightarrow> Message list" where
  "repairMessages t now parsed =
     (let normalized = map (normalizeStoredMessageForLoad now) parsed;
          trimmed = trimMessages normalized;
          sizeTrimmed = trimMessagesByContentSize trimmed
      in sanitizeMessagesOnLoad t now sizeTrimmed)"

definition loadMessages ::
  "(string \<Rightarrow> string) \<Rightarrow> number \<Rightarrow> zod \<Rightarrow> LocalStorage \<Rightarrow> Message list option \<times> LocalStorage"
where
  "loadMessages t now zparse ls =
     (let (saved, ls) = readStoredMessagesValue ls
      in case saved of
           Inl _ \<Rightarrow> (None, ls)
         | Inr value \<Rightarrow>
             if \<not> truthy value then (None, ls)
             else (case zparse messagesSchema (unwrapStoredValue value) of
                     Inl _ \<Rightarrow> (None, ls)
                   | Inr v \<Rightarrow>
                       let sanitized = repairMessages t now (messages_of v)
                       in (Some sanitized, saveMessages zparse sanitized ls)))"

definition clearPlaygroundData :: "LocalStorage \<Rightarrow> LocalStorage" where
  "clearPlaygroundData ls =
     removeItem KEY_MESSAGES (removeItem KEY_PARAMETER_ENABLED (removeItem KEY_CONFIG ls))"

section \<open>The initial state\<close>

definition merge_config :: "PlaygroundConfig \<Rightarrow> PartialConfig \<Rightarrow> PlaygroundConfig" where
  "merge_config d c =
     \<lparr>g_model = case_option (g_model d) id (pc_model c),
      g_group = case_option (g_group d) id (pc_group c),
      g_temperature = case_option (g_temperature d) id (pc_temperature c),
      g_top_p = case_option (g_top_p d) id (pc_top_p c),
      g_max_tokens = case_option (g_max_tokens d) id (pc_max_tokens c),
      g_frequency_penalty = case_option (g_frequency_penalty d) id (pc_frequency_penalty c),
      g_presence_penalty = case_option (g_presence_penalty d) id (pc_presence_penalty c),
      g_seed = case_option (g_seed d) id (pc_seed c),
      g_stream = case_option (g_stream d) id (pc_stream c)\<rparr>"

definition merge_enabled :: "ParameterEnabled \<Rightarrow> PartialEnabled \<Rightarrow> ParameterEnabled" where
  "merge_enabled d p =
     \<lparr>n_temperature = case_option (n_temperature d) id (pn_temperature p),
      n_top_p = case_option (n_top_p d) id (pn_top_p p),
      n_max_tokens = case_option (n_max_tokens d) id (pn_max_tokens p),
      n_frequency_penalty = case_option (n_frequency_penalty d) id (pn_frequency_penalty p),
      n_presence_penalty = case_option (n_presence_penalty d) id (pn_presence_penalty p),
      n_seed = case_option (n_seed d) id (pn_seed p)\<rparr>"

definition getInitialPlaygroundConfig :: "zod \<Rightarrow> LocalStorage \<Rightarrow> PlaygroundConfig" where
  "getInitialPlaygroundConfig zparse ls = merge_config DEFAULT_CONFIG (loadConfig zparse ls)"

definition getInitialParameterEnabled :: "zod \<Rightarrow> LocalStorage \<Rightarrow> ParameterEnabled" where
  "getInitialParameterEnabled zparse ls =
     merge_enabled DEFAULT_PARAMETER_ENABLED (loadParameterEnabled zparse ls)"

definition getInitialMessages ::
  "(string \<Rightarrow> string) \<Rightarrow> number \<Rightarrow> zod \<Rightarrow> LocalStorage \<Rightarrow> Message list \<times> LocalStorage"
where
  "getInitialMessages t now zparse ls =
     (let (loaded, ls) = loadMessages t now zparse ls
      in (case loaded of Some ms \<Rightarrow> ms | None \<Rightarrow> [], ls))"

datatype MessageStateUpdater =
    UpdateList "Message list"
  | UpdateFun "Message list \<Rightarrow> Message list"

definition applyMessageStateUpdate :: "Message list \<Rightarrow> MessageStateUpdater \<Rightarrow> Message list" where
  "applyMessageStateUpdate previousMessages updater =
     (case updater of UpdateFun f \<Rightarrow> f previousMessages | UpdateList ms \<Rightarrow> ms)"

section \<open>The interface of a key-value store\<close>

locale kv_store =
  fixes get :: "'s \<Rightarrow> string \<Rightarrow> string option"
    and put :: "string \<Rightarrow> string \<Rightarrow> 's \<Rightarrow> js_error + 's"
    and del :: "string \<Rightarrow> 's \<Rightarrow> 's"
  assumes get_put: "put k v s = Inr s' \<Longrightarrow> get s' j = (if j = k then Some v else get s j)"
    and get_del: "get (del k s) j = (if j = k then None else get s j)"
begin

lemma get_put_same: "put k v s = Inr s' \<Longrightarrow> get s' k = Some v"
  by (simp add: get_put)

lemma get_put_other: "put k v s = Inr s' \<Longrightarrow> j \<noteq> k \<Longrightarrow> get s' j = get s j"
  by (simp add: get_put)

lemma get_del_all: "get (fold del ks s) j = (if j \<in> set ks then None else get s j)"
  by (induction ks arbitrary: s) (auto simp: get_del)

end

interpretation local_storage: kv_store getItem setItem removeItem
  by unfold_locales (auto simp: getItem_def setItem_def removeItem_def split: if_splits)

section \<open>Reading what was written\<close>

lemma plain_envelope: "plain v \<Longrightarrow> plain (envelope v)"
  using is_double_int [of 1] by (simp add: envelope_def STORAGE_VERSION_def)

lemma envelope_object: "truthy (envelope v)" "is_object (envelope v)"
  by (simp_all add: envelope_def)

lemma unwrap_envelope: "unwrapStoredValue (envelope v) = v"
  by (simp add: unwrapStoredValue_def envelope_def)

lemma read_written:
  assumes "writeStoredValue key v ls = Inr ls'" "plain v"
  shows "readStoredValue ls' key = Inr (envelope v)"
proof -
  have "getItem ls' key = Some (json_text (envelope v))"
    using assms(1) unfolding writeStoredValue_def by (rule local_storage.get_put_same)
  with json_roundtrip [OF plain_envelope [OF assms(2)]] json_text_truthy [OF plain_envelope [OF assms(2)]]
  show ?thesis by (simp add: readStoredValue_def truthy_str_def del: json_text.simps)
qed

lemma writeStoredValue_accepted:
  "ls_accepts ls key (json_text (envelope v)) \<Longrightarrow> \<exists>ls'. writeStoredValue key v ls = Inr ls'"
  by (simp add: writeStoredValue_def setItem_def)

text \<open>A value that its schema keeps is read back as it was saved.\<close>

lemma load_saved:
  assumes "zod_law zparse" "conforms sc v" "strip sc v = v" "plain v"
    and "ls_accepts ls key (json_text (envelope v))"
  shows "load_partial zparse (save_value zparse key sc v ls) key sc f d = f v"
proof -
  have z: "zparse sc v = Inr v" using assms(1-3) by (metis zod_law_def)
  obtain ls' where w: "writeStoredValue key v ls = Inr ls'"
    using writeStoredValue_accepted [OF assms(5)] by blast
  from read_written [OF w assms(4)] show ?thesis
    by (simp add: load_partial_def save_value_def z w envelope_object unwrap_envelope)
qed

lemma save_rejected: "zod_law zparse \<Longrightarrow> \<not> conforms sc v \<Longrightarrow> save_value zparse key sc v ls = ls"
proof -
  assume "zod_law zparse" "\<not> conforms sc v"
  then obtain e where "zparse sc v = Inl e" unfolding zod_law_def by blast
  then show ?thesis by (simp add: save_value_def)
qed

section \<open>Bounds\<close>

lemma suffix_trimMessages: "suffix (trimMessages ms) ms"
  by (simp add: trimMessages_def suffix_take_last)

lemma length_trimMessages: "length (trimMessages ms) \<le> MAX_STORED_MESSAGES"
  by (simp add: trimMessages_def length_take_last)

lemma trimMessages_short: "length ms \<le> MAX_STORED_MESSAGES \<Longrightarrow> trimMessages ms = ms"
  by (simp add: trimMessages_def)

lemma truncateText_length: "length (truncateText s n) \<le> n"
  by (auto simp: truncateText_def slice_def)

lemma truncateText_short: "length s \<le> n \<Longrightarrow> truncateText s n = s"
  by (simp add: truncateText_def)

definition total_size :: "Message list \<Rightarrow> nat" where
  "total_size ms = sum_list (map getMessageSize ms)"

lemma total_size_simps [simp]:
  "total_size [] = 0" "total_size (m # ms) = getMessageSize m + total_size ms"
  by (simp_all add: total_size_def)

lemma size_trim_spec:
  assumes "length res \<le> 1 \<or> total_size res \<le> MAX_LOADED_MESSAGES_CHARS"
  shows "\<exists>pre. rev rest @ res = pre @ size_trim (total_size res) res rest
    \<and> (length (size_trim (total_size res) res rest) \<le> 1
       \<or> total_size (size_trim (total_size res) res rest) \<le> MAX_LOADED_MESSAGES_CHARS)
    \<and> (pre \<noteq> [] \<longrightarrow> size_trim (total_size res) res rest \<noteq> []
       \<and> MAX_LOADED_MESSAGES_CHARS
           < total_size (last pre # size_trim (total_size res) res rest))"
  using assms
proof (induction rest arbitrary: res)
  case (Cons m rest)
  show ?case
  proof (cases "res \<noteq> [] \<and> MAX_LOADED_MESSAGES_CHARS < total_size res + getMessageSize m")
    case True
    then show ?thesis using Cons.prems by (intro exI [of _ "rev rest @ [m]"]) (simp add: Let_def)
  next
    case False
    have "length (m # res) \<le> 1 \<or> total_size (m # res) \<le> MAX_LOADED_MESSAGES_CHARS"
      using False by auto
    from Cons.IH [OF this] False show ?thesis by (auto simp: Let_def add.commute)
  qed
qed simp

lemma trimBySize_spec:
  "\<exists>pre. ms = pre @ trimMessagesByContentSize ms
    \<and> (length (trimMessagesByContentSize ms) \<le> 1
       \<or> total_size (trimMessagesByContentSize ms) \<le> MAX_LOADED_MESSAGES_CHARS)
    \<and> (pre \<noteq> [] \<longrightarrow> trimMessagesByContentSize ms \<noteq> []
       \<and> MAX_LOADED_MESSAGES_CHARS < total_size (last pre # trimMessagesByContentSize ms))"
  using size_trim_spec [of "[]" "rev ms"] by (simp add: trimMessagesByContentSize_def)

lemma total_size_append [simp]: "total_size (xs @ ys) = total_size xs + total_size ys"
  by (simp add: total_size_def)

lemma trimBySize_small:
  assumes "total_size ms \<le> MAX_LOADED_MESSAGES_CHARS"
  shows "trimMessagesByContentSize ms = ms"
proof -
  obtain pre R where R: "R = trimMessagesByContentSize ms" and p: "ms = pre @ R"
    "pre \<noteq> [] \<longrightarrow> MAX_LOADED_MESSAGES_CHARS < total_size (last pre # R)"
    using trimBySize_spec [of ms] by blast
  have "pre = []"
  proof (rule ccontr)
    assume ne: "pre \<noteq> []"
    then obtain us u where "pre = us @ [u]" by (cases pre rule: rev_cases) auto
    with p assms show False by simp
  qed
  with p(1) R show ?thesis by simp
qed

section \<open>Loading saved messages\<close>

lemma find_last_index_None: "\<forall>x \<in> set xs. \<not> P x \<Longrightarrow> find_last_index P xs = None"
  by (simp add: find_last_index_def find_index_None)

lemma sanitize_no_pending:
  "\<forall>m \<in> set ms. \<not> isPendingAssistantMessage (Some m) \<Longrightarrow> sanitizeMessagesOnLoad t now ms = ms"
  by (simp add: sanitizeMessagesOnLoad_def find_last_index_None)

text \<open>Messages that loading leaves alone: settled and short.\<close>

definition storable :: "Message \<Rightarrow> bool" where
  "storable m \<longleftrightarrow> m_versions m \<noteq> [] \<and> message_numbers_ok m \<and> \<not> isAssistantMessagePending m
     \<and> (\<forall>v \<in> set (m_versions m). length (v_content v) < MIN_PREFIX_COLLAPSE_LENGTH)
     \<and> (\<forall>r. m_reasoning m = Some r \<longrightarrow> length (r_content r) \<le> MAX_LOADED_MESSAGE_CHARS)"

lemma normalizeVersion_short:
  "length (v_content v) < MIN_PREFIX_COLLAPSE_LENGTH \<Longrightarrow> normalizeVersion v = v"
  by (simp add: normalizeVersion_def collapseRepeatedSectionSnapshots_def truncateText_short
      MIN_PREFIX_COLLAPSE_LENGTH_def MAX_LOADED_MESSAGE_CHARS_def)

lemma normalize_storable: "storable m \<Longrightarrow> normalizeStoredMessageForLoad now m = m"
proof -
  assume s: "storable m"
  have "map normalizeVersion (m_versions m) = m_versions m"
    using s by (intro map_idI normalizeVersion_short) (simp add: storable_def)
  moreover have "map_option normalizeReasoning (m_reasoning m) = m_reasoning m"
    using s by (cases "m_reasoning m")
      (simp_all add: storable_def normalizeReasoning_def truncateText_short)
  ultimately have "normalizeContents m = m" by (simp add: normalizeContents_def)
  with s show ?thesis by (simp add: normalizeStoredMessageForLoad_def storable_def)
qed

lemma storable_not_pending: "storable m \<Longrightarrow> \<not> isPendingAssistantMessage (Some m)"
  by (simp add: storable_def isPendingAssistantMessage_def)

lemma repair_storable:
  assumes "\<forall>m \<in> set ms. storable m" "length ms \<le> MAX_STORED_MESSAGES"
    and "total_size ms \<le> MAX_LOADED_MESSAGES_CHARS"
  shows "repairMessages t now ms = ms"
proof -
  have "map (normalizeStoredMessageForLoad now) ms = ms"
    using assms(1) by (intro map_idI) (simp add: normalize_storable)
  then show ?thesis
    using assms by (simp add: repairMessages_def trimMessages_short trimBySize_small
        sanitize_no_pending storable_not_pending)
qed

definition messages_text :: "Message list \<Rightarrow> string" where
  "messages_text ms = json_text (envelope (js_of_messages (trimMessages ms)))"

lemma saveMessages_written:
  assumes "zod_law zparse" "\<forall>m \<in> set ms. m_versions m \<noteq> []"
    and "ls_accepts ls KEY_MESSAGES (messages_text ms)"
  shows "saveMessages zparse ms ls = ls\<lparr>ls_items := (ls_items ls)(KEY_MESSAGES \<mapsto> messages_text ms)\<rparr>"
proof -
  have "\<forall>m \<in> set (trimMessages ms). m_versions m \<noteq> []"
    using assms(2) set_mono_suffix [OF suffix_trimMessages] by blast
  then have "zparse messagesSchema (js_of_messages (trimMessages ms)) =
      Inr (js_of_messages (trimMessages ms))"
    using assms(1) messages_strip messages_conforms by (metis zod_law_def)
  then show ?thesis
    using assms(3) by (simp add: saveMessages_def save_value_def writeStoredValue_def setItem_def
        messages_text_def)
qed

lemma load_saved_messages:
  assumes "zod_law zparse" "\<forall>m \<in> set ms. m_versions m \<noteq> [] \<and> message_numbers_ok m"
    and "ls_accepts ls KEY_MESSAGES (messages_text ms)"
    and "length (messages_text ms) \<le> MAX_STORED_MESSAGES_BYTES"
  shows "fst (loadMessages t now zparse (saveMessages zparse ms ls)) =
    Some (repairMessages t now (trimMessages ms))"
proof -
  let ?v = "js_of_messages (trimMessages ms)"
  have sub: "set (trimMessages ms) \<subseteq> set ms" using set_mono_suffix [OF suffix_trimMessages] .
  have p: "plain ?v" using sub assms(2) by (intro messages_plain) blast
  have z: "zparse messagesSchema ?v = Inr ?v"
    using assms(1,2) sub messages_strip messages_conforms by (metis subsetD zod_law_def)
  have "saveMessages zparse ms ls =
      ls\<lparr>ls_items := (ls_items ls)(KEY_MESSAGES \<mapsto> messages_text ms)\<rparr>"
    using assms(1-3) by (intro saveMessages_written) auto
  then have g: "getItem (saveMessages zparse ms ls) KEY_MESSAGES = Some (messages_text ms)"
    by (simp add: getItem_def)
  have "readStoredMessagesValue (saveMessages zparse ms ls) =
      (Inr (envelope ?v), saveMessages zparse ms ls)"
    using assms(4) json_roundtrip [OF plain_envelope [OF p]] json_text_truthy [OF plain_envelope [OF p]]
    by (simp add: readStoredMessagesValue_def g truthy_str_def messages_text_def del: json_text.simps)
  then show ?thesis
    by (simp add: loadMessages_def envelope_object unwrap_envelope z messages_decode Let_def)
qed

section \<open>Collapsed sections\<close>

lemma section_scan_sound:
  assumes "occ \<in> set (section_scan bol i s)"
  shows "i \<le> so_index occ \<and> so_index occ < i + length s
    \<and> prefix (so_heading occ) (drop (so_index occ - i) s) \<and> so_heading occ \<noteq> []"
  using assms
proof (induction bol i s rule: section_scan.induct)
  case (1 bol i s)
  show ?case
  proof (cases s)
    case Nil
    with "1.prems" show ?thesis by (subst (asm) section_scan.simps) simp
  next
    case (Cons c r)
    show ?thesis
    proof (cases "if bol then heading_match s else None")
      case None
      from "1.prems" Cons None have o: "occ \<in> set (section_scan (is_line_end c) (i + 1) r)"
        by (subst (asm) section_scan.simps) simp
      from "1.IH"(1) [OF Cons None o] Cons show ?thesis
        by (auto simp: Suc_diff_Suc drop_Cons' Suc_le_eq)
    next
      case (Some n)
      then have n: "0 < n" using heading_match_pos by (simp split: if_splits)
      from "1.prems" Cons Some consider
        (here) "occ = \<lparr>so_heading = take n s, so_index = i\<rparr>"
        | (later) "occ \<in> set (section_scan (is_line_end (last (take n s))) (i + n) (drop n s))"
        by (subst (asm) section_scan.simps) auto
      then show ?thesis
      proof cases
        case here
        then show ?thesis using n Cons by (simp add: take_is_prefix)
      next
        case later
        from "1.IH"(2) [OF Cons Some later] show ?thesis
          by (auto simp: add.commute)
      qed
    qed
  qed
qed

lemma heading_counts:
  "case_option 0 id (getHeadingCounts os h) = length (filter (\<lambda>x. so_heading x = h) os)"
  by (induction os rule: rev_induct) (auto simp: getHeadingCounts_def split: option.splits)

lemma repeated_indexes_sound:
  "i \<in> set (repeated_indexes counts seen os) \<Longrightarrow>
   \<exists>x \<in> set os. so_index x = i \<and> MIN_REPEATED_SECTION_COUNT \<le> case_option 0 id (counts (so_heading x))"
proof (induction os arbitrary: seen)
  case (Cons x os)
  show ?case
  proof (cases "i = so_index x \<and> MIN_REPEATED_SECTION_COUNT \<le> case_option 0 id (counts (so_heading x))")
    case False
    then have "\<exists>seen. i \<in> set (repeated_indexes counts seen os)"
      using Cons.prems by (auto simp: Let_def not_less split: if_splits option.splits)
    with Cons.IH show ?thesis by fastforce
  qed auto
qed simp

lemma repeated_indexes_complete:
  assumes "find (\<lambda>x. so_heading x = h) os = Some x" "h \<notin> set seen"
    and "MIN_REPEATED_SECTION_COUNT \<le> case_option 0 id (counts h)"
  shows "so_index x \<in> set (repeated_indexes counts seen os)"
  using assms
  by (induction os arbitrary: seen) (auto simp: Let_def split: if_splits option.splits)

lemma fold_min: "fold min xs (y :: nat) \<in> set (y # xs) \<and> (\<forall>x \<in> set (y # xs). fold min xs y \<le> x)"
proof (induction xs arbitrary: y)
  case (Cons x xs)
  from Cons [of "min x y"] show ?case by (auto simp: min_def split: if_splits)
qed simp

lemma collapse_keeps:
  assumes "findLastRepeatedSectionRunStart s = Some i"
  shows "i < length s"
    and "\<exists>x \<in> set (getSectionOccurrences s). prefix (so_heading x) (drop i s) \<and> so_heading x \<noteq> []
      \<and> MIN_REPEATED_SECTION_COUNT \<le>
          length (filter (\<lambda>y. so_heading y = so_heading x) (getSectionOccurrences s))"
    and "find (\<lambda>x. so_heading x = h) (rev (getSectionOccurrences s)) = Some x \<Longrightarrow>
      MIN_REPEATED_SECTION_COUNT \<le> length (filter (\<lambda>y. so_heading y = h) (getSectionOccurrences s)) \<Longrightarrow>
      i \<le> so_index x"
proof -
  let ?os = "getSectionOccurrences s"
  define idx where "idx = repeated_indexes (getHeadingCounts ?os) [] (rev ?os)"
  have "idx \<noteq> []" and i: "i = fold min (tl idx) (hd idx)"
    using assms by (auto simp: findLastRepeatedSectionRunStart_def Let_def idx_def split: if_splits)
  then have mem: "i \<in> set idx" and least: "\<forall>j \<in> set idx. i \<le> j"
    using fold_min [of "tl idx" "hd idx"] by (auto simp: i)
  from mem obtain x where x: "x \<in> set ?os" "so_index x = i"
    "MIN_REPEATED_SECTION_COUNT \<le> case_option 0 id (getHeadingCounts ?os (so_heading x))"
    using repeated_indexes_sound unfolding idx_def by (metis set_rev)
  have "0 \<le> so_index x \<and> so_index x < 0 + length s
      \<and> prefix (so_heading x) (drop (so_index x - 0) s) \<and> so_heading x \<noteq> []"
    using x(1) unfolding getSectionOccurrences_def by (rule section_scan_sound)
  with x show "i < length s"
    and "\<exists>x \<in> set ?os. prefix (so_heading x) (drop i s) \<and> so_heading x \<noteq> []
      \<and> MIN_REPEATED_SECTION_COUNT \<le> length (filter (\<lambda>y. so_heading y = so_heading x) ?os)"
    by (auto simp: heading_counts)
  show "i \<le> so_index x"
    if "find (\<lambda>x. so_heading x = h) (rev ?os) = Some x"
      and "MIN_REPEATED_SECTION_COUNT \<le> length (filter (\<lambda>y. so_heading y = h) ?os)" for x
    using repeated_indexes_complete [OF that(1), of "[]" "getHeadingCounts ?os"] that(2) least
    by (simp add: heading_counts idx_def)
qed

section \<open>Properties\<close>

definition open_storage :: LocalStorage where
  "open_storage = \<lparr>ls_items = Map.empty, ls_accepts = (\<lambda>_ _. True)\<rparr>"

definition example_user :: Message where
  "example_user = createUserMessage ''u'' ''v'' ''hi'' 1"

lemma example_user_fits:
  "storable example_user" "total_size [example_user] \<le> MAX_LOADED_MESSAGES_CHARS"
  "length (messages_text [example_user]) \<le> MAX_STORED_MESSAGES_BYTES"
proof -
  have "is_double 1" using is_double_int [of 1] by simp
  then show "storable example_user"
    by (simp add: storable_def example_user_def createUserMessage_def createMessageVersion_def
        message_numbers_ok_def isAssistantMessagePending_def MIN_PREFIX_COLLAPSE_LENGTH_def)
  show "total_size [example_user] \<le> MAX_LOADED_MESSAGES_CHARS"
    by (simp add: getMessageSize_def example_user_def createUserMessage_def createMessageVersion_def
        MAX_LOADED_MESSAGES_CHARS_def)
  have "number_to_string (Fin 1) = [char_of (49 :: nat)]"
    using digit_to_string [of 1] by (simp add: string_of_nat.simps)
  then show "length (messages_text [example_user]) \<le> MAX_STORED_MESSAGES_BYTES"
    by (simp add: messages_text_def envelope_def js_of_messages_def js_of_message_def
        example_user_def trimMessages_def createUserMessage_def createMessageVersion_def
        js_of_version_def obj_of_def role_name_def quote_def escape_def STORAGE_VERSION_def
        is_finite_def MAX_STORED_MESSAGES_def MAX_STORED_MESSAGES_BYTES_def
        del: number_to_string.simps)
qed





text \<open>
  (C28) A conversation whose text is above the size limit is written without a check and lost by
  the next load: loading returns nothing and removes the entry.
\<close>

theorem oversized_messages_are_dropped:
  assumes "zod_law zparse" and "\<forall>m \<in> set ms. m_versions m \<noteq> []"
    and "ls_accepts ls KEY_MESSAGES (messages_text ms)"
    and "MAX_STORED_MESSAGES_BYTES < length (messages_text ms)"
  shows "getItem (saveMessages zparse ms ls) KEY_MESSAGES = Some (messages_text ms)
    \<and> loadMessages t now zparse (saveMessages zparse ms ls) =
        (None, removeItem KEY_MESSAGES (saveMessages zparse ms ls))"
proof -
  have g: "getItem (saveMessages zparse ms ls) KEY_MESSAGES = Some (messages_text ms)"
    using saveMessages_written [OF assms(1-3)] by (simp add: getItem_def)
  moreover have "messages_text ms \<noteq> []" using assms(4) by auto
  ultimately show ?thesis
    using assms(4) by (simp add: loadMessages_def readStoredMessagesValue_def truthy_str_def Let_def)
qed

definition huge_user :: Message where
  "huge_user = createUserMessage ''u'' ''v'' (replicate 1048576 CHR ''a'') 1"

lemma huge_text: "MAX_STORED_MESSAGES_BYTES < length (messages_text [huge_user])"
proof -
  let ?v = "JStr (replicate 1048576 CHR ''a'')"
  let ?version = "JObj [(''id'', JStr ''v''), (''content'', ?v)]"
  let ?message = "JObj [(''key'', JStr ''u''), (''from'', JStr ''user''), (''versions'', JArr [?version]),
      (''createdAt'', JNum (Fin 1))]"
  have "json_text (JStr (replicate 1048576 CHR ''a'')) = quote (replicate 1048576 CHR ''a'')"
    by (rule json_text.simps)
  then have "1048576 < length (json_text ?v)"
    using length_quote [of "replicate 1048576 CHR ''a''"] by (simp only: length_replicate)
  also have "\<dots> < length (json_text ?version)" by (rule text_of_member [of "''content''"]) simp_all
  also have "\<dots> < length (json_text (JArr [?version]))" by (rule text_of_element) simp
  also have "\<dots> < length (json_text ?message)" by (rule text_of_member [of "''versions''"]) simp_all
  also have "\<dots> < length (json_text (JArr [?message]))" by (rule text_of_element) simp
  also have "\<dots> < length (json_text (envelope (JArr [?message])))"
    unfolding envelope_def by (rule text_of_member [of "''data''"]) simp_all
  also have "envelope (JArr [?message]) = envelope (js_of_messages (trimMessages [huge_user]))"
    by (simp add: js_of_messages_def js_of_message_def huge_user_def trimMessages_def
        createUserMessage_def createMessageVersion_def js_of_version_def obj_of_def
        MAX_STORED_MESSAGES_def role_name_def)
  finally show ?thesis by (simp add: messages_text_def MAX_STORED_MESSAGES_BYTES_def)
qed

theorem oversized_messages_are_dropped_witness:
  "fst (loadMessages id 5 zod_reference (saveMessages zod_reference [huge_user] open_storage)) = None"
proof -
  have "\<forall>m \<in> set [huge_user]. m_versions m \<noteq> []"
    by (simp add: huge_user_def createUserMessage_def)
  from oversized_messages_are_dropped [OF zod_reference_law this _ huge_text, of open_storage id 5]
  show ?thesis by (simp add: open_storage_def)
qed

text \<open>
  (C29) The configuration round trip: a saved configuration with representable numbers is the
  initial configuration of the next session, and so are the parameter switches; clearing the
  data restores the defaults and touches no other entry of the store.
\<close>

theorem config_save_load:
  assumes "zod_law zparse" and "config_numbers_ok (partial_config c)"
    and "ls_accepts ls KEY_CONFIG (json_text (envelope (js_of_config (partial_config c))))"
    and "ls_accepts ls KEY_PARAMETER_ENABLED
           (json_text (envelope (js_of_enabled (partial_enabled p))))"
  shows "getInitialPlaygroundConfig zparse (saveConfig zparse (partial_config c) ls) = c
    \<and> getInitialParameterEnabled zparse (saveParameterEnabled zparse (partial_enabled p) ls) = p
    \<and> getInitialPlaygroundConfig zparse (clearPlaygroundData ls) = DEFAULT_CONFIG
    \<and> getInitialParameterEnabled zparse (clearPlaygroundData ls) = DEFAULT_PARAMETER_ENABLED
    \<and> (\<forall>k. k \<notin> {KEY_CONFIG, KEY_MESSAGES, KEY_PARAMETER_ENABLED} \<longrightarrow>
          getItem (clearPlaygroundData ls) k = getItem ls k)"
proof (intro conjI allI impI)
  show "getInitialPlaygroundConfig zparse (saveConfig zparse (partial_config c) ls) = c"
    unfolding getInitialPlaygroundConfig_def loadConfig_def saveConfig_def
      load_saved [OF assms(1) config_conforms config_strip config_plain [OF assms(2)] assms(3)]
    by (simp add: config_decode merge_config_def partial_config_def)
  show "getInitialParameterEnabled zparse (saveParameterEnabled zparse (partial_enabled p) ls) = p"
    unfolding getInitialParameterEnabled_def loadParameterEnabled_def saveParameterEnabled_def
      load_saved [OF assms(1) enabled_conforms enabled_strip enabled_plain assms(4)]
    by (simp add: enabled_decode merge_enabled_def partial_enabled_def)
  have gone: "getItem (clearPlaygroundData ls) k =
      (if k \<in> {KEY_CONFIG, KEY_MESSAGES, KEY_PARAMETER_ENABLED} then None else getItem ls k)" for k
    using local_storage.get_del_all [of "[KEY_CONFIG, KEY_PARAMETER_ENABLED, KEY_MESSAGES]" ls k]
    by (auto simp: clearPlaygroundData_def)
  show "getItem (clearPlaygroundData ls) k = getItem ls k"
    if "k \<notin> {KEY_CONFIG, KEY_MESSAGES, KEY_PARAMETER_ENABLED}" for k
    using that by (simp add: gone)
  show "getInitialPlaygroundConfig zparse (clearPlaygroundData ls) = DEFAULT_CONFIG"
    by (simp add: getInitialPlaygroundConfig_def loadConfig_def load_partial_def readStoredValue_def
        gone truthy_str_def merge_config_def empty_config_def)
  show "getInitialParameterEnabled zparse (clearPlaygroundData ls) = DEFAULT_PARAMETER_ENABLED"
    by (simp add: getInitialParameterEnabled_def loadParameterEnabled_def load_partial_def
        readStoredValue_def gone truthy_str_def merge_enabled_def empty_enabled_def)
qed

lemma is_double_default: "is_double (3152519739159347 / 4503599627370496)"
proof -
  have q: "quotient_of (3152519739159347 / 4503599627370496 :: rat) = (3152519739159347, 4503599627370496)"
    by code_simp
  have b: "bits 3152519739159347 = 52" "bits 4503599627370496 = 53"
    by (simp_all add: bits.simps [of "numeral _"] bits.simps [of "Suc 0"] bits.simps [of 0])
  have u: "ulp_exp (3152519739159347 / 4503599627370496) = - 53"
    by (simp add: ulp_exp_def ilog2_def q b)
  show ?thesis
    using to_double_exact [of "3152519739159347 / 4503599627370496" 6305039478318694]
    by (simp add: u overflow_bound_def)
qed

theorem config_save_load_witness:
  "zod_law zod_reference \<and>
   getInitialPlaygroundConfig zod_reference
     (saveConfig zod_reference (partial_config (DEFAULT_CONFIG\<lparr>g_model := ''gpt-5''\<rparr>)) open_storage)
   = DEFAULT_CONFIG\<lparr>g_model := ''gpt-5''\<rparr>"
proof -
  have n: "is_double 1" "is_double 4096" using is_double_int [of 1] is_double_int [of 4096] by simp_all
  have "config_numbers_ok (partial_config (DEFAULT_CONFIG\<lparr>g_model := ''gpt-5''\<rparr>))"
    using n is_double_default by (simp add: config_numbers_ok_def partial_config_def DEFAULT_CONFIG_def)
  from config_save_load [OF zod_reference_law this, of open_storage DEFAULT_PARAMETER_ENABLED]
  show ?thesis by (simp add: open_storage_def zod_reference_law)
qed

text \<open>
  Collapsing repeated sections keeps a suffix of the text. When it cuts, the rest starts
  with a heading that occurs at least three times, and the last occurrence of every such heading
  lies in the part that is kept.
\<close>

theorem collapse_keeps_last_sections:
  "suffix (collapseRepeatedSectionSnapshots s) s
   \<and> (collapseRepeatedSectionSnapshots s \<noteq> s \<longrightarrow>
      (\<exists>x \<in> set (getSectionOccurrences s).
         prefix (so_heading x) (collapseRepeatedSectionSnapshots s) \<and> so_heading x \<noteq> []
         \<and> 3 \<le> length (filter (\<lambda>y. so_heading y = so_heading x) (getSectionOccurrences s)))
      \<and> (\<forall>h x. find (\<lambda>x. so_heading x = h) (rev (getSectionOccurrences s)) = Some x
           \<and> 3 \<le> length (filter (\<lambda>y. so_heading y = h) (getSectionOccurrences s))
           \<longrightarrow> length s - length (collapseRepeatedSectionSnapshots s) \<le> so_index x))"
proof (cases "collapseRepeatedSectionSnapshots s = s")
  case False
  then obtain i where i: "findLastRepeatedSectionRunStart s = Some i"
    and c: "collapseRepeatedSectionSnapshots s = drop i s"
    by (auto simp: collapseRepeatedSectionSnapshots_def split: if_splits option.splits)
  show ?thesis
    using collapse_keeps [OF i] unfolding c MIN_REPEATED_SECTION_COUNT_def
    by (auto simp: suffix_drop)
qed simp

definition repeated_text :: string where
  "repeated_text = concat (replicate 3 (''## 1. x'' @ [CHR 0x0A])) @ replicate 2000 CHR ''a''"

lemma scan_padding: "section_scan b i (replicate n CHR ''a'') = []"
  by (induction n arbitrary: b i)
     (simp_all add: section_scan.simps [of _ _ "_ # _"] section_scan.simps [of _ _ "[]"] heading_match_def)

lemma repeated_text_occurrences:
  "getSectionOccurrences repeated_text =
     map (\<lambda>i. \<lparr>so_heading = ''## 1. x'', so_index = i\<rparr>) [0, 8, 16]"
  by (simp add: getSectionOccurrences_def repeated_text_def section_scan.simps [of _ _ "_ # _"]
      scan_padding numeral_3_eq_3 heading_match_def heading_tail_def is_ws_def is_line_end_def
      is_digit_def Let_def)

theorem collapse_keeps_last_sections_witness:
  "collapseRepeatedSectionSnapshots repeated_text = drop 16 repeated_text
   \<and> collapseRepeatedSectionSnapshots repeated_text \<noteq> repeated_text
   \<and> (\<exists>x \<in> set (getSectionOccurrences repeated_text).
        prefix (so_heading x) (collapseRepeatedSectionSnapshots repeated_text))"
proof -
  have c: "collapseRepeatedSectionSnapshots repeated_text = drop 16 repeated_text"
    by (simp add: collapseRepeatedSectionSnapshots_def findLastRepeatedSectionRunStart_def
        repeated_text_occurrences getHeadingCounts_def MIN_REPEATED_SECTION_COUNT_def Let_def
        MIN_PREFIX_COLLAPSE_LENGTH_def) (simp add: repeated_text_def numeral_3_eq_3)
  have "length (drop 16 repeated_text) < length repeated_text"
    by (simp add: repeated_text_def numeral_3_eq_3)
  then have "collapseRepeatedSectionSnapshots repeated_text \<noteq> repeated_text" unfolding c by (metis less_irrefl)
  with c show ?thesis using collapse_keeps_last_sections [of repeated_text] by blast
qed

end
