(* ===== verification/Pg_Session.thy ===== *)
theory Pg_Session
  imports Pg_Conversation Pg_Chat Pg_Storage
begin

text \<open>
  The hooks that own the state of the playground page: \<open>use-playground-state.ts\<close> (settings,
  messages and their debounced saving), \<open>use-playground-conversation.ts\<close>,
  \<open>use-message-action-guard.ts\<close> and \<open>use-playground-options.ts\<close> with the readers of
  \<open>api.ts\<close>, and the page that wires them to the chat handler, \<open>index.tsx\<close>. State updates
  of React are applied in order; a handler reads the messages of the last render, which are the
  current ones between events. Timers carry the time they are due.
\<close>

section \<open>State of the page\<close>

definition MESSAGE_SAVE_DEBOUNCE_MS :: nat where
  "MESSAGE_SAVE_DEBOUNCE_MS = 500"

record PlaygroundState =
  s_config :: PlaygroundConfig
  s_parameterEnabled :: ParameterEnabled
  s_messages :: "Message list"
  s_isLoadingMessages :: bool
  s_saveTimerRef :: bool
  s_saveDue :: "nat option"
  s_latestMessages :: "Message list"
  s_hasLoadedMessages :: bool
  s_models :: "ModelOption list"
  s_groups :: "GroupOption list"
  s_loadTimer :: bool
  s_cancelled :: bool
  s_store :: LocalStorage

definition initialPlaygroundState :: "zod \<Rightarrow> LocalStorage \<Rightarrow> PlaygroundState" where
  "initialPlaygroundState zparse ls =
     \<lparr>s_config = getInitialPlaygroundConfig zparse ls,
      s_parameterEnabled = getInitialParameterEnabled zparse ls, s_messages = [],
      s_isLoadingMessages = True, s_saveTimerRef = False, s_saveDue = None,
      s_latestMessages = [], s_hasLoadedMessages = False, s_models = [], s_groups = [],
      s_loadTimer = True, s_cancelled = False, s_store = ls\<rparr>"

definition persistMessages :: "nat \<Rightarrow> Message list \<Rightarrow> PlaygroundState \<Rightarrow> PlaygroundState" where
  "persistMessages time messagesToSave s =
     (let s = s\<lparr>s_latestMessages := messagesToSave\<rparr>
      in if \<not> s_hasLoadedMessages s then s
         else s\<lparr>s_saveTimerRef := True, s_saveDue := Some (time + MESSAGE_SAVE_DEBOUNCE_MS)\<rparr>)"

definition onSaveTimeout :: "zod \<Rightarrow> PlaygroundState \<Rightarrow> PlaygroundState" where
  "onSaveTimeout zparse s =
     s\<lparr>s_saveTimerRef := False, s_saveDue := None,
       s_store := saveMessages zparse (s_latestMessages s) (s_store s)\<rparr>"

definition onLoadTimeout ::
  "(string \<Rightarrow> string) \<Rightarrow> number \<Rightarrow> zod \<Rightarrow> PlaygroundState \<Rightarrow> PlaygroundState"
where
  "onLoadTimeout t now zparse s =
     (let (loaded, ls) = loadMessages t now zparse (s_store s);
          loadedMessages = (case loaded of Some ms \<Rightarrow> ms | None \<Rightarrow> []);
          s = s\<lparr>s_store := ls, s_loadTimer := False\<rparr>
      in if s_cancelled s then s
         else s\<lparr>s_latestMessages := loadedMessages, s_hasLoadedMessages := True,
               s_messages := loadedMessages, s_isLoadingMessages := False\<rparr>)"

text \<open>The cleanups of both effects, in their order; the ref of the timer is left as it is.\<close>

definition unmountState :: "zod \<Rightarrow> PlaygroundState \<Rightarrow> PlaygroundState" where
  "unmountState zparse s =
     (let s = s\<lparr>s_cancelled := True\<rparr>
      in if s_saveTimerRef s
         then s\<lparr>s_saveDue := None, s_store := saveMessages zparse (s_latestMessages s) (s_store s)\<rparr>
         else s)"

datatype ConfigEntry =
    C_model string
  | C_group string
  | C_temperature number
  | C_top_p number
  | C_max_tokens number
  | C_frequency_penalty number
  | C_presence_penalty number
  | C_seed "number option"
  | C_stream bool

fun set_entry :: "ConfigEntry \<Rightarrow> PlaygroundConfig \<Rightarrow> PlaygroundConfig" where
  "set_entry (C_model x) prev = prev\<lparr>g_model := x\<rparr>"
| "set_entry (C_group x) prev = prev\<lparr>g_group := x\<rparr>"
| "set_entry (C_temperature x) prev = prev\<lparr>g_temperature := x\<rparr>"
| "set_entry (C_top_p x) prev = prev\<lparr>g_top_p := x\<rparr>"
| "set_entry (C_max_tokens x) prev = prev\<lparr>g_max_tokens := x\<rparr>"
| "set_entry (C_frequency_penalty x) prev = prev\<lparr>g_frequency_penalty := x\<rparr>"
| "set_entry (C_presence_penalty x) prev = prev\<lparr>g_presence_penalty := x\<rparr>"
| "set_entry (C_seed x) prev = prev\<lparr>g_seed := x\<rparr>"
| "set_entry (C_stream x) prev = prev\<lparr>g_stream := x\<rparr>"

definition updateConfig :: "zod \<Rightarrow> ConfigEntry \<Rightarrow> PlaygroundState \<Rightarrow> PlaygroundState" where
  "updateConfig zparse entry s =
     (let updated = set_entry entry (s_config s)
      in s\<lparr>s_config := updated,
           s_store := saveConfig zparse (partial_config updated) (s_store s)\<rparr>)"

datatype ParameterKey = K_temperature | K_top_p | K_max_tokens | K_frequency_penalty
  | K_presence_penalty | K_seed

fun set_parameter :: "ParameterKey \<Rightarrow> bool \<Rightarrow> ParameterEnabled \<Rightarrow> ParameterEnabled" where
  "set_parameter K_temperature b prev = prev\<lparr>n_temperature := b\<rparr>"
| "set_parameter K_top_p b prev = prev\<lparr>n_top_p := b\<rparr>"
| "set_parameter K_max_tokens b prev = prev\<lparr>n_max_tokens := b\<rparr>"
| "set_parameter K_frequency_penalty b prev = prev\<lparr>n_frequency_penalty := b\<rparr>"
| "set_parameter K_presence_penalty b prev = prev\<lparr>n_presence_penalty := b\<rparr>"
| "set_parameter K_seed b prev = prev\<lparr>n_seed := b\<rparr>"

definition updateParameterEnabled ::
  "zod \<Rightarrow> ParameterKey \<Rightarrow> bool \<Rightarrow> PlaygroundState \<Rightarrow> PlaygroundState"
where
  "updateParameterEnabled zparse key value s =
     (let updated = set_parameter key value (s_parameterEnabled s)
      in s\<lparr>s_parameterEnabled := updated,
           s_store := saveParameterEnabled zparse (partial_enabled updated) (s_store s)\<rparr>)"

definition updateMessages :: "nat \<Rightarrow> MessageStateUpdater \<Rightarrow> PlaygroundState \<Rightarrow> PlaygroundState" where
  "updateMessages time updater s =
     (let newMessages = applyMessageStateUpdate (s_messages s) updater
      in (persistMessages time newMessages s)\<lparr>s_messages := newMessages\<rparr>)"

definition clearMessages :: "nat \<Rightarrow> PlaygroundState \<Rightarrow> PlaygroundState" where
  "clearMessages time s = updateMessages time (UpdateList []) s"

definition resetConfig :: "zod \<Rightarrow> PlaygroundState \<Rightarrow> PlaygroundState" where
  "resetConfig zparse s =
     s\<lparr>s_config := DEFAULT_CONFIG, s_parameterEnabled := DEFAULT_PARAMETER_ENABLED,
       s_store := saveParameterEnabled zparse (partial_enabled DEFAULT_PARAMETER_ENABLED)
                    (saveConfig zparse (partial_config DEFAULT_CONFIG) (s_store s))\<rparr>"

section \<open>Options\<close>

text \<open>The bodies of the two option endpoints; \<open>None\<close> is a \<open>data\<close> that is not what it should be.\<close>

record 'a OptionResponse =
  or_success :: bool
  or_data :: "'a option"

record GroupInfo =
  gi_desc :: string
  gi_ratio :: number

definition getUserModels :: "string list OptionResponse \<Rightarrow> ModelOption list" where
  "getUserModels data =
     (if \<not> or_success data \<or> or_data data = None then []
      else map (\<lambda>model. \<lparr>o_label = model, o_value = model\<rparr>) (the (or_data data)))"

definition getUserGroups :: "(string \<times> GroupInfo) list OptionResponse \<Rightarrow> GroupOption list" where
  "getUserGroups data =
     (if \<not> or_success data \<or> or_data data = None then []
      else map (\<lambda>(group, info). \<lparr>gr_label = group, gr_value = group, gr_ratio = gi_ratio info,
                  gr_desc = Some (gi_desc info)\<rparr>) (the (or_data data)))"

text \<open>The four effects; a query that has no data yet is \<open>None\<close>.\<close>

definition modelsErrorEffect :: "(string \<Rightarrow> string) \<Rightarrow> caught option \<Rightarrow> string list" where
  "modelsErrorEffect t error = (case error of None \<Rightarrow> []
     | Some e \<Rightarrow> [getOptionLoadErrorMessage e (t ''Failed to load playground models'')])"

definition groupsErrorEffect :: "(string \<Rightarrow> string) \<Rightarrow> caught option \<Rightarrow> string list" where
  "groupsErrorEffect t error = (case error of None \<Rightarrow> []
     | Some e \<Rightarrow> [getOptionLoadErrorMessage e (t ''Failed to load playground groups'')])"

definition modelsEffect :: "zod \<Rightarrow> ModelOption list option \<Rightarrow> PlaygroundState \<Rightarrow> PlaygroundState" where
  "modelsEffect zparse modelsData s =
     (case modelsData of
        None \<Rightarrow> s
      | Some models \<Rightarrow>
          let s = s\<lparr>s_models := models\<rparr>; currentModel = g_model (s_config s);
              fallback = getModelFallback models currentModel
          in if truthy_str fallback then updateConfig zparse (C_model (the fallback)) s
             else if shouldClearModelForGroup models currentModel
             then updateConfig zparse (C_model []) s
             else s)"

definition groupsEffect :: "zod \<Rightarrow> GroupOption list option \<Rightarrow> PlaygroundState \<Rightarrow> PlaygroundState" where
  "groupsEffect zparse groupsData s =
     (case groupsData of
        None \<Rightarrow> s
      | Some groups \<Rightarrow>
          let s = s\<lparr>s_groups := groups\<rparr>; fallback = getGroupFallback groups (g_group (s_config s))
          in if truthy_str fallback then updateConfig zparse (C_group (the fallback)) s else s)"

section \<open>The page\<close>

record Playground =
  p_state :: PlaygroundState
  p_chat :: ChatState
  p_editing :: "string option"
  p_warnings :: "string list"

definition initialPlayground :: "zod \<Rightarrow> LocalStorage \<Rightarrow> Playground" where
  "initialPlayground zparse ls =
     \<lparr>p_state = initialPlaygroundState zparse ls, p_chat = initial_chat, p_editing = None,
      p_warnings = []\<rparr>"

text \<open>
  The chat handler sees the messages of the page, and its calls of \<open>onMessageUpdate\<close> are
  calls of \<open>updateMessages\<close>. React drops an update of a page that is gone.
\<close>

definition update_page :: "nat \<Rightarrow> MessageStateUpdater \<Rightarrow> Playground \<Rightarrow> Playground" where
  "update_page time updater p =
     (if s_cancelled (p_state p) then p
      else p\<lparr>p_state := updateMessages time updater (p_state p)\<rparr>)"

definition chat_view :: "Playground \<Rightarrow> ChatState" where
  "chat_view p = (p_chat p)\<lparr>h_messages := s_messages (p_state p), h_updates := 0\<rparr>"

definition chat_commit :: "nat \<Rightarrow> ChatState \<Rightarrow> Playground \<Rightarrow> Playground" where
  "chat_commit time c p =
     (if h_updates c = 0 then p\<lparr>p_chat := c\<rparr>
      else update_page time (UpdateList (h_messages c)) (p\<lparr>p_chat := c\<rparr>))"

definition page_send ::
  "chat_env \<Rightarrow> nat \<Rightarrow> number \<Rightarrow> bool \<Rightarrow> Message list \<Rightarrow> Playground \<Rightarrow> Playground"
where
  "page_send env time now started messages p =
     chat_commit time (sendChat env now started (s_config (p_state p))
       (s_parameterEnabled (p_state p)) messages (chat_view p)) p"

definition handleSendMessage ::
  "chat_env \<Rightarrow> nat \<Rightarrow> number \<Rightarrow> bool \<Rightarrow> string \<times> string \<Rightarrow> string \<times> string \<Rightarrow> string
   \<Rightarrow> Playground \<Rightarrow> Playground"
where
  "handleSendMessage env time now started uid aid text_in p =
     (let nextMessages = appendUserMessagePair uid aid now (s_messages (p_state p)) text_in
      in page_send env time now started nextMessages (update_page time (UpdateList nextMessages) p))"

definition handleRegenerateMessage ::
  "chat_env \<Rightarrow> nat \<Rightarrow> number \<Rightarrow> bool \<Rightarrow> string \<times> string \<Rightarrow> Message \<Rightarrow> Playground \<Rightarrow> Playground"
where
  "handleRegenerateMessage env time now started aid message p =
     (case createRegeneratedMessages aid now (s_messages (p_state p)) (m_key message) of
        None \<Rightarrow> p
      | Some nextMessages \<Rightarrow>
          page_send env time now started nextMessages (update_page time (UpdateList nextMessages) p))"

definition handleEditMessage :: "Message \<Rightarrow> Playground \<Rightarrow> Playground" where
  "handleEditMessage message p = p\<lparr>p_editing := Some (m_key message)\<rparr>"

definition handleEditOpenChange :: "bool \<Rightarrow> Playground \<Rightarrow> Playground" where
  "handleEditOpenChange op p = (if \<not> op then p\<lparr>p_editing := None\<rparr> else p)"

definition applyEdit ::
  "chat_env \<Rightarrow> nat \<Rightarrow> number \<Rightarrow> bool \<Rightarrow> string \<times> string \<Rightarrow> string \<Rightarrow> bool
   \<Rightarrow> Playground \<Rightarrow> Playground"
where
  "applyEdit env time now started aid newContent shouldSubmit p =
     (if \<not> truthy_str (p_editing p) then p
      else (case applyMessageEdit aid now (s_messages (p_state p)) (the (p_editing p)) newContent
                  shouldSubmit of
              None \<Rightarrow> p
            | Some editResult \<Rightarrow>
                let p = update_page time (UpdateList (e_messages editResult)) (p\<lparr>p_editing := None\<rparr>)
                in if e_shouldSend editResult
                   then page_send env time now started (e_messages editResult) p else p))"

definition handleDeleteMessage :: "nat \<Rightarrow> Message \<Rightarrow> Playground \<Rightarrow> Playground" where
  "handleDeleteMessage time message p =
     update_page time (UpdateFun (\<lambda>previousMessages. removeMessageByKey previousMessages (m_key message))) p"

definition handleClearMessages :: "nat \<Rightarrow> Playground \<Rightarrow> Playground" where
  "handleClearMessages time p =
     (let p = handleEditOpenChange False p
      in if s_cancelled (p_state p) then p else p\<lparr>p_state := clearMessages time (p_state p)\<rparr>)"

definition WAIT_GENERATION :: string where
  "WAIT_GENERATION = ''Please wait for the current generation to complete''"

definition guardAction ::
  "(string \<Rightarrow> string) \<Rightarrow> bool \<Rightarrow> (Playground \<Rightarrow> Playground) \<Rightarrow> Playground \<Rightarrow> Playground"
where
  "guardAction t generating action p =
     (if generating then p\<lparr>p_warnings := p_warnings p @ [t WAIT_GENERATION]\<rparr> else action p)"

definition unmountPlayground :: "zod \<Rightarrow> Playground \<Rightarrow> Playground" where
  "unmountPlayground zparse p =
     p\<lparr>p_state := unmountState zparse (p_state p), p_chat := unmountChat (p_chat p)\<rparr>"

section \<open>Events of the page\<close>

text \<open>
  Everything that can happen to the page: its timers, the events of the chat, the actions of the
  user and the data of the option queries. The actions on a message pass the guard.
\<close>

inductive playground_step :: "chat_env \<Rightarrow> zod \<Rightarrow> Playground \<Rightarrow> Playground \<Rightarrow> bool" for env zparse where
  pg_load: "s_loadTimer (p_state p) \<Longrightarrow>
     playground_step env zparse p
       (p\<lparr>p_state := onLoadTimeout (env_t env) now zparse (p_state p)\<rparr>)"
| pg_save: "s_saveDue (p_state p) = Some due \<Longrightarrow>
     playground_step env zparse p (p\<lparr>p_state := onSaveTimeout zparse (p_state p)\<rparr>)"
| pg_stream: "stream_event env (chat_view p) c \<Longrightarrow>
     playground_step env zparse p (chat_commit time c p)"
| pg_settle: "0 < i \<Longrightarrow> i \<le> h_requestId (p_chat p) \<Longrightarrow>
     playground_step env zparse p
       (chat_commit time (settleNonStreamingChat env now i outcome (chat_view p)) p)"
| pg_stop: "\<not> s_cancelled (p_state p) \<Longrightarrow>
     playground_step env zparse p (chat_commit time (stopGeneration now (chat_view p)) p)"
| pg_send: "\<not> s_cancelled (p_state p) \<Longrightarrow>
     playground_step env zparse p (handleSendMessage env time now started uid aid text_in p)"
| pg_regenerate: "\<not> s_cancelled (p_state p) \<Longrightarrow>
     playground_step env zparse p (guardAction (env_t env) (isGenerating (p_chat p))
       (handleRegenerateMessage env time now started aid message) p)"
| pg_edit: "\<not> s_cancelled (p_state p) \<Longrightarrow>
     playground_step env zparse p (guardAction (env_t env) (isGenerating (p_chat p))
       (handleEditMessage message) p)"
| pg_edit_open: "\<not> s_cancelled (p_state p) \<Longrightarrow>
     playground_step env zparse p (handleEditOpenChange op p)"
| pg_apply: "\<not> s_cancelled (p_state p) \<Longrightarrow>
     playground_step env zparse p (applyEdit env time now started aid newContent submit p)"
| pg_delete: "\<not> s_cancelled (p_state p) \<Longrightarrow>
     playground_step env zparse p (guardAction (env_t env) (isGenerating (p_chat p))
       (handleDeleteMessage time message) p)"
| pg_clear: "\<not> s_cancelled (p_state p) \<Longrightarrow>
     playground_step env zparse p (handleClearMessages time p)"
| pg_config: "\<not> s_cancelled (p_state p) \<Longrightarrow>
     playground_step env zparse p (p\<lparr>p_state := updateConfig zparse entry (p_state p)\<rparr>)"
| pg_parameter: "\<not> s_cancelled (p_state p) \<Longrightarrow>
     playground_step env zparse p (p\<lparr>p_state := updateParameterEnabled zparse key b (p_state p)\<rparr>)"
| pg_reset: "\<not> s_cancelled (p_state p) \<Longrightarrow>
     playground_step env zparse p (p\<lparr>p_state := resetConfig zparse (p_state p)\<rparr>)"
| pg_models: "\<not> s_cancelled (p_state p) \<Longrightarrow>
     playground_step env zparse p (p\<lparr>p_state := modelsEffect zparse models (p_state p)\<rparr>)"
| pg_groups: "\<not> s_cancelled (p_state p) \<Longrightarrow>
     playground_step env zparse p (p\<lparr>p_state := groupsEffect zparse groups (p_state p)\<rparr>)"
| pg_unmount: "\<not> s_cancelled (p_state p) \<Longrightarrow>
     playground_step env zparse p (unmountPlayground zparse p)"

inductive_cases playground_stepE: "playground_step env zparse p p'"

section \<open>Messages read from the store\<close>

lemma versions_ok_suffix: "suffix xs ys \<Longrightarrow> versions_ok ys \<Longrightarrow> versions_ok xs"
  unfolding versions_ok_def using set_mono_suffix by blast

lemma js_get_strip:
  assumes "(k, sc) \<in> set fds" "distinct (map fst fds)" "js_has v k"
  shows "js_get (strip (ZObject fds) v) k = strip sc (js_get v k)"
proof -
  have "map_of (concat (map (\<lambda>f. if js_has v (fst f)
      then [(fst f, strip (snd f) (js_get v (fst f)))] else []) fds)) k = Some (strip sc (js_get v k))"
    using assms by (induction fds) (auto simp: image_iff)
  then show ?thesis by simp
qed

lemma message_of_versions:
  assumes "conforms messageSchema v"
  shows "m_versions (message_of (strip messageSchema v)) \<noteq> []"
proof -
  have c: "conforms (ZArray messageVersionSchema 1) (js_get v ''versions'')"
    using assms by (auto simp: messageSchema_def split: jsval.splits)
  then obtain x xs where x: "js_get v ''versions'' = JArr (x # xs)"
    by (auto simp: Suc_le_length_iff split: jsval.splits)
  have "js_has v ''versions''" using x by (cases v) (auto split: option.splits)
  then have "js_get (strip messageSchema v) ''versions'' =
      strip (ZArray messageVersionSchema 1) (js_get v ''versions'')"
    unfolding messageSchema_def by (intro js_get_strip) simp_all
  then show ?thesis by (simp add: x message_of_def)
qed

lemma parsed_versions:
  assumes "zod_law zparse" "zparse messagesSchema v = Inr w"
  shows "versions_ok (messages_of w)"
proof -
  have c: "conforms messagesSchema v" and w: "w = strip messagesSchema v"
    using assms unfolding zod_law_def by (metis Inl_Inr_False sum.inject(2))+
  obtain vs where vs: "v = JArr vs" "\<forall>x \<in> set vs. conforms messageSchema x"
    using c by (auto simp: messagesSchema_def split: jsval.splits)
  then show ?thesis
    by (simp add: w messagesSchema_def messages_of_def versions_ok_def message_of_versions)
qed

lemma normalize_versions:
  "m_versions m \<noteq> [] \<Longrightarrow> m_versions (normalizeStoredMessageForLoad now m) \<noteq> []"
  by (simp add: normalizeStoredMessageForLoad_def normalizeContents_def Let_def message_simps)

lemma repair_versions:
  assumes "versions_ok ms"
  shows "versions_ok (repairMessages t now ms)"
proof -
  let ?trimmed = "trimMessages (map (normalizeStoredMessageForLoad now) ms)"
  let ?kept = "trimMessagesByContentSize ?trimmed"
  have "versions_ok (map (normalizeStoredMessageForLoad now) ms)"
    using assms by (auto simp: versions_ok_def normalize_versions)
  then have "versions_ok ?trimmed" using suffix_trimMessages versions_ok_suffix by blast
  moreover have "suffix ?kept ?trimmed"
    using trimBySize_spec [of ?trimmed] by (metis suffixI)
  ultimately have "versions_ok ?kept" using versions_ok_suffix by blast
  then have "versions_ok (sanitizeMessagesOnLoad t now ?kept)"
    by (auto simp: versions_ok_def sanitizeMessagesOnLoad_def message_simps Let_def
        split: option.splits dest!: set_update_subset_insert [THEN subsetD])
  then show ?thesis by (simp add: repairMessages_def Let_def)
qed

section \<open>What the store holds\<close>

definition stored_current :: "zod \<Rightarrow> LocalStorage \<Rightarrow> Message list \<Rightarrow> bool" where
  "stored_current zparse ls ms \<longleftrightarrow> getItem ls KEY_MESSAGES = Some (messages_text ms)
     \<or> ms = [] \<and> (\<forall>t now. fst (loadMessages t now zparse ls) = None)"

definition accepts_all :: "LocalStorage \<Rightarrow> bool" where
  "accepts_all ls \<longleftrightarrow> (\<forall>k v. ls_accepts ls k v)"

lemma keys_differ:
  "KEY_CONFIG \<noteq> KEY_MESSAGES" "KEY_PARAMETER_ENABLED \<noteq> KEY_MESSAGES"
  by (simp_all add: KEY_CONFIG_def KEY_MESSAGES_def KEY_PARAMETER_ENABLED_def)

lemma save_value_frame:
  "ls_accepts (save_value zparse key sc v ls) = ls_accepts ls"
  "key \<noteq> k \<Longrightarrow> getItem (save_value zparse key sc v ls) k = getItem ls k"
  by (auto simp: save_value_def writeStoredValue_def setItem_def getItem_def split: sum.splits)

lemma config_saves_frame [simp]:
  "ls_accepts (saveConfig zparse c ls) = ls_accepts ls"
  "ls_accepts (saveParameterEnabled zparse p ls) = ls_accepts ls"
  "ls_accepts (saveMessages zparse ms ls) = ls_accepts ls"
  "getItem (saveConfig zparse c ls) KEY_MESSAGES = getItem ls KEY_MESSAGES"
  "getItem (saveParameterEnabled zparse p ls) KEY_MESSAGES = getItem ls KEY_MESSAGES"
  by (simp_all add: saveConfig_def saveParameterEnabled_def saveMessages_def save_value_frame
      keys_differ)

lemma load_depends_on_entry:
  "getItem ls KEY_MESSAGES = getItem ls' KEY_MESSAGES \<Longrightarrow>
   fst (loadMessages t now zparse ls) = fst (loadMessages t now zparse ls')"
  by (simp add: loadMessages_def readStoredMessagesValue_def Let_def split: sum.splits)

lemma stored_current_cong:
  "getItem ls KEY_MESSAGES = getItem ls' KEY_MESSAGES \<Longrightarrow>
   stored_current zparse ls ms = stored_current zparse ls' ms"
  unfolding stored_current_def using load_depends_on_entry by metis

lemma stored_after_save:
  assumes "zod_law zparse" "versions_ok ms" "accepts_all ls"
  shows "stored_current zparse (saveMessages zparse ms ls) ms"
  using saveMessages_written [OF assms(1), of ms ls] assms(2,3)
  by (simp add: stored_current_def getItem_def versions_ok_def accepts_all_def)

lemma load_none_again:
  assumes "loadMessages t now zparse ls = (None, ls')"
  shows "fst (loadMessages t' now' zparse ls') = None"
  using assms
  by (auto simp: loadMessages_def readStoredMessagesValue_def Let_def getItem_def removeItem_def
      truthy_str_def split: sum.splits if_splits)

lemma load_accepts: "ls_accepts (snd (loadMessages t now zparse ls)) = ls_accepts ls"
  by (simp add: loadMessages_def readStoredMessagesValue_def removeItem_def Let_def split: sum.splits)

lemma stored_after_load:
  assumes "zod_law zparse" "accepts_all ls" "loadMessages t now zparse ls = (loaded, ls')"
  shows "versions_ok (case loaded of Some ms \<Rightarrow> ms | None \<Rightarrow> [])"
    and "stored_current zparse ls' (case loaded of Some ms \<Rightarrow> ms | None \<Rightarrow> [])"
proof -
  have "versions_ok ms \<and> stored_current zparse ls' ms" if "loaded = Some ms" for ms
  proof -
    from assms(3) that obtain v w ls1 where *: "zparse messagesSchema v = Inr w"
      "ms = repairMessages t now (messages_of w)" "ls' = saveMessages zparse ms ls1"
      "ls_accepts ls1 = ls_accepts ls"
      by (auto simp: loadMessages_def readStoredMessagesValue_def removeItem_def Let_def
          split: sum.splits if_splits prod.splits)
    then have "versions_ok ms" using repair_versions parsed_versions assms(1) by blast
    with * stored_after_save assms(1,2) show ?thesis by (simp add: accepts_all_def)
  qed
  moreover have "stored_current zparse ls' []" if "loaded = None"
    using load_none_again assms(3) that by (auto simp: stored_current_def)
  ultimately show "versions_ok (case loaded of Some ms \<Rightarrow> ms | None \<Rightarrow> [])"
    and "stored_current zparse ls' (case loaded of Some ms \<Rightarrow> ms | None \<Rightarrow> [])"
    by (auto simp: versions_ok_def split: option.splits)
qed

section \<open>The invariant of the page\<close>

definition state_ok :: "zod \<Rightarrow> LocalStorage \<Rightarrow> PlaygroundState \<Rightarrow> bool" where
  "state_ok zparse ls s \<longleftrightarrow>
     versions_ok (s_messages s)
   \<and> s_isLoadingMessages s = (\<not> s_hasLoadedMessages s)
   \<and> (s_hasLoadedMessages s \<longrightarrow> s_latestMessages s = s_messages s \<and> \<not> s_loadTimer s)
   \<and> (s_saveTimerRef s \<longrightarrow> s_hasLoadedMessages s \<and> (s_saveDue s = None \<longrightarrow> s_cancelled s))
   \<and> (s_saveDue s \<noteq> None \<longrightarrow> s_saveTimerRef s)
   \<and> (s_hasLoadedMessages s \<and> s_saveDue s = None \<longrightarrow> stored_current zparse (s_store s) (s_messages s))
   \<and> (s_loadTimer s \<longrightarrow> getItem (s_store s) KEY_MESSAGES = getItem ls KEY_MESSAGES)
   \<and> accepts_all (s_store s)"

lemma initial_state_ok: "accepts_all ls \<Longrightarrow> state_ok zparse ls (initialPlaygroundState zparse ls)"
  by (simp add: state_ok_def initialPlaygroundState_def versions_ok_def)

lemma state_ok_settings:
  assumes "state_ok zparse ls s" "s_messages s' = s_messages s"
    "s_isLoadingMessages s' = s_isLoadingMessages s" "s_saveTimerRef s' = s_saveTimerRef s"
    "s_saveDue s' = s_saveDue s" "s_latestMessages s' = s_latestMessages s"
    "s_hasLoadedMessages s' = s_hasLoadedMessages s" "s_loadTimer s' = s_loadTimer s"
    "s_cancelled s' = s_cancelled s" "ls_accepts (s_store s') = ls_accepts (s_store s)"
    "getItem (s_store s') KEY_MESSAGES = getItem (s_store s) KEY_MESSAGES"
  shows "state_ok zparse ls s'"
  using assms stored_current_cong [OF assms(11)]
  by (simp add: state_ok_def accepts_all_def)

lemma updateConfig_ok: "state_ok zparse ls s \<Longrightarrow> state_ok zparse ls (updateConfig zparse e s)"
  by (erule state_ok_settings) (simp_all add: updateConfig_def Let_def)

lemma settings_ok:
  assumes "state_ok zparse ls s"
  shows "state_ok zparse ls (updateParameterEnabled zparse k b s)"
    and "state_ok zparse ls (resetConfig zparse s)"
    and "state_ok zparse ls (s\<lparr>s_models := ms\<rparr>)"
    and "state_ok zparse ls (s\<lparr>s_groups := gs\<rparr>)"
  using assms by (auto elim!: state_ok_settings simp: updateParameterEnabled_def resetConfig_def Let_def)

lemma options_ok:
  "state_ok zparse ls s \<Longrightarrow> state_ok zparse ls (modelsEffect zparse models s)"
  "state_ok zparse ls s \<Longrightarrow> state_ok zparse ls (groupsEffect zparse groups s)"
  by (auto simp: modelsEffect_def groupsEffect_def Let_def updateConfig_ok settings_ok
      split: option.splits)

lemma updateMessages_ok:
  assumes "state_ok zparse ls s" "versions_ok (applyMessageStateUpdate (s_messages s) u)"
  shows "state_ok zparse ls (updateMessages time u s)"
  using assms by (auto simp: state_ok_def updateMessages_def persistMessages_def Let_def)

lemma timeouts_ok:
  assumes "zod_law zparse" "state_ok zparse ls s"
  shows "s_saveDue s = Some d \<Longrightarrow> state_ok zparse ls (onSaveTimeout zparse s)"
    and "s_loadTimer s \<Longrightarrow> state_ok zparse ls (onLoadTimeout t now zparse s)"
    and "state_ok zparse ls (unmountState zparse s)"
proof -
  show "state_ok zparse ls (onSaveTimeout zparse s)" if "s_saveDue s = Some d"
    using assms that stored_after_save [OF assms(1)]
    by (auto simp: state_ok_def onSaveTimeout_def accepts_all_def)
  obtain loaded ls' where l: "loadMessages t now zparse (s_store s) = (loaded, ls')" by fastforce
  have a: "accepts_all (s_store s)" using assms(2) by (simp add: state_ok_def)
  have "ls_accepts ls' = ls_accepts (s_store s)" using load_accepts [of t now zparse "s_store s"] l by simp
  then have a': "accepts_all ls'" using a by (simp add: accepts_all_def)
  show "state_ok zparse ls (onLoadTimeout t now zparse s)" if "s_loadTimer s"
    using assms(2) that stored_after_load [OF assms(1) a l] a'
    by (auto simp: state_ok_def onLoadTimeout_def l Let_def)
  show "state_ok zparse ls (unmountState zparse s)"
    using assms stored_after_save [OF assms(1)]
    by (auto simp: state_ok_def unmountState_def accepts_all_def Let_def)
qed

lemma conversation_versions:
  assumes "versions_ok ms"
  shows "versions_ok (appendUserMessagePair uid aid now ms content)"
    and "createRegeneratedMessages aid now ms k = Some ms' \<Longrightarrow> versions_ok ms'"
    and "applyMessageEdit aid now ms k content submit = Some r \<Longrightarrow> versions_ok (e_messages r)"
    and "versions_ok (removeMessageByKey ms k)"
proof -
  have new: "m_versions (createLoadingAssistantMessage i j now) \<noteq> []"
    "m_versions (createUserMessage i j content now) \<noteq> []" for i j
    by (simp_all add: createLoadingAssistantMessage_def createUserMessage_def)
  have sub: "set (slice 0 n xs) \<subseteq> set xs" for n and xs :: "Message list"
    by (simp add: slice_def set_take_subset)
  show "versions_ok (appendUserMessagePair uid aid now ms content)"
    using assms new by (auto simp: versions_ok_def appendUserMessagePair_def)
  show "versions_ok ms'" if "createRegeneratedMessages aid now ms k = Some ms'"
    using that assms new sub
    by (fastforce simp: versions_ok_def createRegeneratedMessages_def split: option.splits if_splits)
  have edit: "versions_ok (map (editMessage now k content submit) ms)"
    using assms by (auto simp: versions_ok_def editMessage_def message_simps)
  show "versions_ok (e_messages r)" if "applyMessageEdit aid now ms k content submit = Some r"
    using that edit new sub unfolding versions_ok_def
    by (fastforce simp: applyMessageEdit_def Let_def simp del: set_map split: option.splits if_splits)
  show "versions_ok (removeMessageByKey ms k)"
    using assms by (auto simp: versions_ok_def removeMessageByKey_def)
qed

abbreviation page_ok :: "zod \<Rightarrow> LocalStorage \<Rightarrow> Playground \<Rightarrow> bool" where
  "page_ok zparse ls p \<equiv> state_ok zparse ls (p_state p)"

lemma page_versions: "page_ok zparse ls p \<Longrightarrow> versions_ok (s_messages (p_state p))"
  by (simp add: state_ok_def)

lemma update_page_ok:
  "page_ok zparse ls p \<Longrightarrow> versions_ok (applyMessageStateUpdate (s_messages (p_state p)) u) \<Longrightarrow>
   page_ok zparse ls (update_page time u p)"
  by (simp add: update_page_def updateMessages_ok)

lemma commit_ok:
  assumes "page_ok zparse ls p" "versions_ok (s_messages (p_state p)) \<Longrightarrow> versions_ok (h_messages c)"
  shows "page_ok zparse ls (chat_commit time c p)"
  using assms page_versions update_page_ok [of zparse ls "p\<lparr>p_chat := c\<rparr>"]
  by (simp add: chat_commit_def applyMessageStateUpdate_def)

lemma chat_view_messages [simp]: "h_messages (chat_view p) = s_messages (p_state p)"
  by (simp add: chat_view_def)

lemma page_send_ok: "page_ok zparse ls p \<Longrightarrow> page_ok zparse ls (page_send env time now started ms p)"
  unfolding page_send_def by (erule commit_ok) (simp add: send_messages)

lemma update_and_send_ok:
  "page_ok zparse ls p \<Longrightarrow> versions_ok ms \<Longrightarrow>
   page_ok zparse ls (page_send env time now started ms (update_page time (UpdateList ms) p))"
  by (simp add: page_send_ok update_page_ok applyMessageStateUpdate_def)

lemma handlers_ok:
  assumes "page_ok zparse ls p"
  shows "page_ok zparse ls (handleSendMessage env time now started uid aid text_in p)"
    and "page_ok zparse ls (handleRegenerateMessage env time now started aid message p)"
    and "page_ok zparse ls (handleEditMessage message p)"
    and "page_ok zparse ls (handleEditOpenChange op p)"
    and "page_ok zparse ls (handleDeleteMessage time message p)"
    and "page_ok zparse ls (handleClearMessages time p)"
  using assms page_versions [OF assms]
  by (auto simp: handleSendMessage_def handleRegenerateMessage_def handleEditMessage_def Let_def
      handleEditOpenChange_def handleDeleteMessage_def handleClearMessages_def clearMessages_def
      conversation_versions applyMessageStateUpdate_def versions_ok_def [of "[]"]
      intro!: update_and_send_ok update_page_ok updateMessages_ok split: option.splits)

lemma applyEdit_ok:
  assumes "page_ok zparse ls p"
  shows "page_ok zparse ls (applyEdit env time now started aid content submit p)"
proof (cases "truthy_str (p_editing p)")
  case True
  show ?thesis
  proof (cases "applyMessageEdit aid now (s_messages (p_state p)) (the (p_editing p)) content submit")
    case (Some r)
    have "page_ok zparse ls (update_page time (UpdateList (e_messages r)) (p\<lparr>p_editing := None\<rparr>))"
      using assms conversation_versions(3) [OF page_versions [OF assms] Some]
      by (intro update_page_ok) (simp_all add: applyMessageStateUpdate_def)
    then show ?thesis using True Some by (simp add: applyEdit_def page_send_ok Let_def)
  qed (simp add: applyEdit_def assms)
qed (simp add: applyEdit_def assms)

lemma guard_ok: "page_ok zparse ls p \<Longrightarrow> page_ok zparse ls (f p) \<Longrightarrow> page_ok zparse ls (guardAction t g f p)"
  by (simp add: guardAction_def)

lemma playground_step_ok:
  assumes "zod_law zparse" "playground_step env zparse p p'" "page_ok zparse ls p"
  shows "page_ok zparse ls p'"
  using assms(2,3)
proof (cases rule: playground_step.cases)
  case (pg_stream c time)
  then show ?thesis using stream_event_versions [OF pg_stream(2)] assms(3) by (simp add: commit_ok)
next
  case (pg_settle i time now outcome)
  have "versions_ok (h_messages (settleNonStreamingChat env now i outcome (chat_view p)))"
    if "versions_ok (s_messages (p_state p))"
    using chat_step_versions [OF st_settle, of i "chat_view p" env now outcome] pg_settle that
    by (simp add: chat_view_def)
  then show ?thesis using pg_settle assms(3) by (simp add: commit_ok)
next
  case (pg_stop time now)
  then show ?thesis
    using chat_step_versions [OF st_stop, of "chat_view p"] assms(3) by (simp add: commit_ok)
qed (use assms in \<open>auto intro!: guard_ok applyEdit_ok simp: handlers_ok settings_ok updateConfig_ok
      options_ok timeouts_ok unmountPlayground_def\<close>)

lemma playground_run_ok:
  assumes "zod_law zparse" "(playground_step env zparse)\<^sup>*\<^sup>* p p'" "page_ok zparse ls p"
  shows "page_ok zparse ls p'"
  using assms(2,3) by (induction rule: rtranclp_induct) (auto intro: playground_step_ok [OF assms(1)])

lemma load_entry:
  assumes "zod_law zparse" "accepts_all ls" "getItem ls KEY_MESSAGES = Some (messages_text ms)"
    and "\<forall>m \<in> set ms. storable m" "length ms \<le> MAX_STORED_MESSAGES"
    "total_size ms \<le> MAX_LOADED_MESSAGES_CHARS"
    "length (messages_text ms) \<le> MAX_STORED_MESSAGES_BYTES"
  shows "fst (loadMessages t now zparse ls) = Some ms"
proof -
  have v: "\<forall>m \<in> set ms. m_versions m \<noteq> [] \<and> message_numbers_ok m"
    using assms(4) by (simp add: storable_def)
  have a: "ls_accepts ls KEY_MESSAGES (messages_text ms)" using assms(2) by (simp add: accepts_all_def)
  have "saveMessages zparse ms ls = ls\<lparr>ls_items := (ls_items ls)(KEY_MESSAGES \<mapsto> messages_text ms)\<rparr>"
    using v by (intro saveMessages_written assms(1) a) blast
  then have "fst (loadMessages t now zparse ls) = fst (loadMessages t now zparse (saveMessages zparse ms ls))"
    using assms(3) by (intro load_depends_on_entry) (simp add: getItem_def)
  also have "\<dots> = Some (repairMessages t now (trimMessages ms))"
    by (rule load_saved_messages [OF assms(1) v a assms(7)])
  also have "repairMessages t now (trimMessages ms) = ms"
    using repair_storable [OF assms(4-6)] assms(5) by (simp add: trimMessages_short)
  finally show ?thesis .
qed

section \<open>Properties\<close>

text \<open>
  (C1) In every reachable state of the page, over a store that accepts its writes: the loading
  flag tells whether the messages were loaded; a save is pending only after the load, and then
  the messages to save are the ones shown; when no save is pending the store holds the messages
  shown, also after the page is gone; until the load nothing is written over the stored messages;
  and every message has a version.
\<close>

theorem playground_invariant:
  assumes "zod_law zparse" and "accepts_all ls"
    and "(playground_step env zparse)\<^sup>*\<^sup>* (initialPlayground zparse ls) p"
  shows "(s_isLoadingMessages (p_state p) \<longleftrightarrow> \<not> s_hasLoadedMessages (p_state p))
    \<and> (s_saveDue (p_state p) \<noteq> None \<longrightarrow> s_hasLoadedMessages (p_state p)
         \<and> s_latestMessages (p_state p) = s_messages (p_state p))
    \<and> (s_hasLoadedMessages (p_state p) \<and> s_saveDue (p_state p) = None \<longrightarrow>
         stored_current zparse (s_store (p_state p)) (s_messages (p_state p)))
    \<and> (s_loadTimer (p_state p) \<longrightarrow>
         getItem (s_store (p_state p)) KEY_MESSAGES = getItem ls KEY_MESSAGES)
    \<and> (\<forall>m \<in> set (s_messages (p_state p)). m_versions m \<noteq> [])"
proof -
  have "page_ok zparse ls (initialPlayground zparse ls)"
    using initial_state_ok [OF assms(2)] by (simp add: initialPlayground_def)
  from playground_run_ok [OF assms(1,3) this] show ?thesis
    unfolding state_ok_def versions_ok_def by blast
qed

definition example_store :: LocalStorage where
  "example_store = saveMessages zod_reference [example_user] open_storage"

definition example_page :: Playground where
  "example_page = (initialPlayground zod_reference example_store)
     \<lparr>p_state := onLoadTimeout id 5 zod_reference (initialPlaygroundState zod_reference example_store)\<rparr>"

lemma example_store_accepts: "accepts_all example_store"
  by (simp add: accepts_all_def example_store_def open_storage_def)

lemma example_page_reached:
  "(playground_step (example_env\<lparr>env_t := id\<rparr>) zod_reference)\<^sup>*\<^sup>*
     (initialPlayground zod_reference example_store) example_page"
  using pg_load [of "initialPlayground zod_reference example_store" "example_env\<lparr>env_t := id\<rparr>"
      zod_reference 5]
  by (auto simp: example_page_def initialPlayground_def initialPlaygroundState_def)

lemma example_page_loaded:
  "s_messages (p_state example_page) = [example_user]" "s_hasLoadedMessages (p_state example_page)"
  "\<not> s_cancelled (p_state example_page)" "s_saveDue (p_state example_page) = None"
proof -
  have v: "\<forall>m \<in> set [example_user]. m_versions m \<noteq> []"
    using example_user_fits(1) by (simp add: storable_def)
  have "getItem example_store KEY_MESSAGES = Some (messages_text [example_user])"
    using saveMessages_written [OF zod_reference_law v, of open_storage]
    by (simp add: example_store_def open_storage_def getItem_def)
  from load_entry [OF zod_reference_law example_store_accepts this, of id 5]
  obtain ls' where "loadMessages id 5 zod_reference example_store = (Some [example_user], ls')"
    using example_user_fits by (auto simp: MAX_STORED_MESSAGES_def) (metis prod.collapse)
  then show "s_messages (p_state example_page) = [example_user]"
    "s_hasLoadedMessages (p_state example_page)" "\<not> s_cancelled (p_state example_page)"
    "s_saveDue (p_state example_page) = None"
    by (simp_all add: example_page_def onLoadTimeout_def initialPlaygroundState_def Let_def)
qed

theorem playground_invariant_witness:
  "zod_law zod_reference \<and> accepts_all example_store
   \<and> (playground_step (example_env\<lparr>env_t := id\<rparr>) zod_reference)\<^sup>*\<^sup>*
       (initialPlayground zod_reference example_store) example_page
   \<and> stored_current zod_reference (s_store (p_state example_page)) [example_user]"
  using playground_invariant [OF zod_reference_law example_store_accepts example_page_reached]
  by (simp add: zod_reference_law example_store_accepts example_page_reached example_page_loaded)



lemma model_chosen:
  assumes "g_model (s_config s) \<in> o_value ` set models \<or> g_model (s_config s) = [] \<and>
      (models = [] \<or> o_value (models ! 0) = [])"
  shows "modelsEffect zparse (Some models) s = s\<lparr>s_models := models\<rparr>"
  using assms
  by (auto simp: modelsEffect_def getModelFallback_def shouldClearModelForGroup_def Let_def
      truthy_str_def list_ex_iff)

lemma model_choice:
  obtains "modelsEffect zparse (Some models) s = s\<lparr>s_models := models\<rparr>"
      "g_model (s_config s) \<in> o_value ` set models \<or> g_model (s_config s) = [] \<and>
        (models = [] \<or> o_value (models ! 0) = [])"
  | v where "modelsEffect zparse (Some models) s = updateConfig zparse (C_model v) (s\<lparr>s_models := models\<rparr>)"
      "v \<in> o_value ` set models \<or> v = [] \<and> (models = [] \<or> o_value (models ! 0) = [])"
proof (cases "g_model (s_config s) \<in> o_value ` set models \<or> g_model (s_config s) = [] \<and>
        (models = [] \<or> o_value (models ! 0) = [])")
  case True
  with model_chosen that(1) show ?thesis by blast
next
  case False
  let ?v = "if models = [] then [] else o_value (models ! 0)"
  have "modelsEffect zparse (Some models) s = updateConfig zparse (C_model ?v) (s\<lparr>s_models := models\<rparr>)"
    using False
    by (auto simp: modelsEffect_def getModelFallback_def shouldClearModelForGroup_def Let_def
        truthy_str_def list_ex_iff image_iff)
  moreover have "?v \<in> o_value ` set models \<or> ?v = [] \<and> (models = [] \<or> o_value (models ! 0) = [])"
    by auto
  ultimately show ?thesis by (rule that(2))
qed

lemma group_fallback_offered:
  "getGroupFallback groups cur = Some v \<Longrightarrow> v \<in> gr_value ` set groups \<and> cur \<notin> gr_value ` set groups"
  by (auto simp: getGroupFallback_def Let_def list_ex_iff find_Some_iff split: if_splits option.splits)

lemma group_fallback_none:
  "getGroupFallback groups cur = None \<longleftrightarrow> cur \<in> gr_value ` set groups \<or> groups = []"
  by (auto simp: getGroupFallback_def Let_def list_ex_iff split: option.splits)

lemma group_choice:
  obtains "groupsEffect zparse (Some groups) s = s\<lparr>s_groups := groups\<rparr>"
      "\<not> truthy_str (getGroupFallback groups (g_group (s_config s)))"
  | v where "groupsEffect zparse (Some groups) s = updateConfig zparse (C_group v) (s\<lparr>s_groups := groups\<rparr>)"
      "v \<in> gr_value ` set groups"
proof (cases "truthy_str (getGroupFallback groups (g_group (s_config s)))")
  case True
  then obtain v where v: "getGroupFallback groups (g_group (s_config s)) = Some v" "v \<noteq> []"
    by (auto simp: truthy_str_def split: option.splits)
  show ?thesis
    by (rule that(2) [of v]) (use v group_fallback_offered in
        \<open>simp_all add: groupsEffect_def Let_def truthy_str_def\<close>)
next
  case False
  show ?thesis by (rule that(1)) (use False in \<open>simp_all add: groupsEffect_def Let_def\<close>)
qed

text \<open>
  (C30) The option effects settle. After the models arrive the chosen model is one of them or
  empty, and running the effect again changes nothing, so its own update of the configuration
  does not start a loop; the same holds for the groups, where the chosen group is one of the
  groups that came, if there are any and none of them is unnamed.
\<close>

theorem option_effects_settle:
  "(let s' = modelsEffect zparse (Some models) s
    in (g_model (s_config s') \<in> o_value ` set models \<or> g_model (s_config s') = [])
       \<and> modelsEffect zparse (Some models) s' = s')
   \<and> (let s' = groupsEffect zparse (Some groups) s
      in (groups \<noteq> [] \<and> [] \<notin> gr_value ` set groups \<longrightarrow>
            g_group (s_config s') \<in> gr_value ` set groups)
         \<and> groupsEffect zparse (Some groups) s' = s')"
proof -
  have m: "(g_model (s_config s') \<in> o_value ` set models \<or> g_model (s_config s') = [])
      \<and> modelsEffect zparse (Some models) s' = s'" if s': "s' = modelsEffect zparse (Some models) s" for s'
  proof (rule model_choice [of zparse models s])
    fix v
    assume v: "modelsEffect zparse (Some models) s =
        updateConfig zparse (C_model v) (s\<lparr>s_models := models\<rparr>)"
      "v \<in> o_value ` set models \<or> v = [] \<and> (models = [] \<or> o_value (models ! 0) = [])"
    have "g_model (s_config s') = v" by (simp add: s' v(1) updateConfig_def Let_def)
    moreover have "s'\<lparr>s_models := models\<rparr> = s'" by (simp add: s' v(1) updateConfig_def Let_def)
    ultimately show ?thesis using v(2) model_chosen [of s' models zparse] by auto
  qed (use model_chosen [of s' models zparse] in \<open>auto simp: s'\<close>)
  have g: "(groups \<noteq> [] \<and> [] \<notin> gr_value ` set groups \<longrightarrow> g_group (s_config s') \<in> gr_value ` set groups)
      \<and> groupsEffect zparse (Some groups) s' = s'" if s': "s' = groupsEffect zparse (Some groups) s" for s'
  proof (rule group_choice [of zparse groups s])
    fix v
    assume v: "groupsEffect zparse (Some groups) s =
        updateConfig zparse (C_group v) (s\<lparr>s_groups := groups\<rparr>)" "v \<in> gr_value ` set groups"
    have "g_group (s_config s') = v" "s'\<lparr>s_groups := groups\<rparr> = s'"
      by (simp_all add: s' v(1) updateConfig_def Let_def)
    moreover have "getGroupFallback groups v = None" using v(2) by (simp add: group_fallback_none)
    ultimately show ?thesis using v(2) by (simp add: groupsEffect_def truthy_str_def Let_def)
  next
    assume e: "groupsEffect zparse (Some groups) s = s\<lparr>s_groups := groups\<rparr>"
      and n: "\<not> truthy_str (getGroupFallback groups (g_group (s_config s)))"
    have "g_group (s_config s) \<in> gr_value ` set groups" if "groups \<noteq> []" "[] \<notin> gr_value ` set groups"
      using n that group_fallback_offered [of groups "g_group (s_config s)"]
        group_fallback_none [of groups "g_group (s_config s)"]
      by (cases "getGroupFallback groups (g_group (s_config s))") (auto simp: truthy_str_def)
    then show ?thesis using n by (simp add: s' e) (simp add: groupsEffect_def Let_def)
  qed
  show ?thesis unfolding Let_def using m [OF refl] g [OF refl] by blast
qed

theorem option_effects_settle_witness:
  "g_group (s_config (groupsEffect zod_reference
      (Some [\<lparr>gr_label = ''vip'', gr_value = ''vip'', gr_ratio = 1, gr_desc = None\<rparr>])
      (initialPlaygroundState zod_reference open_storage))) = ''vip''"
  using option_effects_settle [of zod_reference "[]" "initialPlaygroundState zod_reference open_storage"
      "[\<lparr>gr_label = ''vip'', gr_value = ''vip'', gr_ratio = 1, gr_desc = None\<rparr>]"]
  by (simp add: Let_def)

end
