(* ===== verification/Js_Text.thy ===== *)
theory Js_Text
  imports Js_Value "HOL-Library.Word"
begin

text \<open>
  More of the standard library for strings: simple anchored patterns, hexadecimal printing,
  \<open>padStart\<close> and \<open>encodeURIComponent\<close>, which is injective.
\<close>

section \<open>Patterns\<close>

text \<open>The pattern \<open>^[first][rest]{0,n}$\<close>, and \<open>^[class]{m,n}$\<close>.\<close>

definition matches :: "(char \<Rightarrow> bool) \<Rightarrow> (char \<Rightarrow> bool) \<Rightarrow> nat \<Rightarrow> string \<Rightarrow> bool" where
  "matches first rest n s \<longleftrightarrow> s \<noteq> [] \<and> first (hd s) \<and> list_all rest (tl s) \<and> length s \<le> Suc n"

definition matches_class :: "(char \<Rightarrow> bool) \<Rightarrow> nat \<Rightarrow> nat \<Rightarrow> string \<Rightarrow> bool" where
  "matches_class cls m n s \<longleftrightarrow> list_all cls s \<and> m \<le> length s \<and> length s \<le> n"

definition word_char :: "char \<Rightarrow> bool" where
  "word_char c \<longleftrightarrow> is_alnum c \<or> c = CHR ''_'' \<or> c = CHR ''-''"

definition name_char :: "char \<Rightarrow> bool" where
  "name_char c \<longleftrightarrow> is_lower c \<or> is_digit c \<or> c = CHR ''_''"

lemma matches_mono:
  "matches f r n s \<Longrightarrow> (\<And>c. f c \<Longrightarrow> f' c) \<Longrightarrow> (\<And>c. r c \<Longrightarrow> r' c) \<Longrightarrow> n \<le> n' \<Longrightarrow> matches f' r' n' s"
  by (auto simp: matches_def list_all_iff)

lemma matches_set: "matches f r n s \<Longrightarrow> c \<in> set s \<Longrightarrow> f c \<or> r c"
  by (cases s) (auto simp: matches_def list_all_iff)

section \<open>Hexadecimal\<close>

definition hex_digit :: "nat \<Rightarrow> char" where
  "hex_digit d = (if d < 10 then char_of (48 + d) else char_of (87 + d))"

fun hex_of_nat :: "nat \<Rightarrow> string" where
  "hex_of_nat n = (if n < 16 then [hex_digit n] else hex_of_nat (n div 16) @ [hex_digit (n mod 16)])"

declare hex_of_nat.simps [simp del]

definition is_hex :: "char \<Rightarrow> bool" where
  "is_hex c \<longleftrightarrow> is_digit c \<or> 97 \<le> code c \<and> code c \<le> 102"

definition pad_start :: "nat \<Rightarrow> char \<Rightarrow> string \<Rightarrow> string" where
  "pad_start n c s = replicate (n - length s) c @ s"

lemma is_hex_digit [simp]: "d < 16 \<Longrightarrow> is_hex (hex_digit d)"
  by (auto simp: is_hex_def hex_digit_def is_digit_def)

lemma hex_of_nat_hex: "list_all is_hex (hex_of_nat n)"
proof (induction n rule: hex_of_nat.induct)
  case (1 n)
  then show ?case by (subst hex_of_nat.simps) simp
qed

lemma length_hex_of_nat: "n < 16 ^ Suc k \<Longrightarrow> length (hex_of_nat n) \<le> Suc k"
proof (induction k arbitrary: n)
  case 0
  then show ?case by (simp add: hex_of_nat.simps)
next
  case (Suc k)
  then have "n div 16 < 16 ^ Suc k" by (simp add: less_mult_imp_div_less)
  with Suc.IH [of "n div 16"] show ?case by (subst hex_of_nat.simps) simp
qed

definition hex_value_of :: "char \<Rightarrow> nat" where
  "hex_value_of c = (if code c < 58 then code c - 48 else code c - 87)"

definition nat_of_hex :: "string \<Rightarrow> nat" where
  "nat_of_hex s = foldl (\<lambda>n c. 16 * n + hex_value_of c) 0 s"

lemma hex_value_digit [simp]: "d < 16 \<Longrightarrow> hex_value_of (hex_digit d) = d"
  by (auto simp: hex_value_of_def hex_digit_def)

lemma nat_of_hex_of_nat: "nat_of_hex (hex_of_nat n) = n"
proof (induction n rule: hex_of_nat.induct)
  case (1 n)
  then show ?case by (subst hex_of_nat.simps) (simp add: nat_of_hex_def)
qed

lemma nat_of_hex_pad: "nat_of_hex (pad_start k CHR ''0'' s) = nat_of_hex s"
proof -
  have "foldl (\<lambda>n c. 16 * n + hex_value_of c) 0 (replicate m CHR ''0'') = 0" for m
    by (induction m) (simp_all add: hex_value_of_def)
  then show ?thesis by (simp add: nat_of_hex_def pad_start_def)
qed

lemma pad_start_class: "cls c \<Longrightarrow> list_all cls s \<Longrightarrow> list_all cls (pad_start n c s)"
  by (auto simp: pad_start_def list_all_iff)

lemma length_pad_start: "length (pad_start n c s) = max n (length s)"
  by (simp add: pad_start_def)

section \<open>\<open>encodeURIComponent\<close>\<close>

text \<open>A character above 127 is two bytes in UTF-8, each escaped.\<close>

definition uri_unreserved :: "char \<Rightarrow> bool" where
  "uri_unreserved c \<longleftrightarrow> is_alnum c \<or> c \<in> set ''-_.!~*()'' \<or> code c = 39"

definition hex_upper :: "nat \<Rightarrow> char" where
  "hex_upper d = (if d < 10 then char_of (48 + d) else char_of (55 + d))"

definition percent :: "nat \<Rightarrow> string" where
  "percent b = [CHR 0x25, hex_upper (b div 16), hex_upper (b mod 16)]"

definition encode_char :: "char \<Rightarrow> string" where
  "encode_char c =
     (if uri_unreserved c then [c]
      else if code c < 128 then percent (code c)
      else percent (192 + code c div 64) @ percent (128 + code c mod 64))"

definition encodeURIComponent :: "string \<Rightarrow> string" where
  "encodeURIComponent s = concat (map encode_char s)"

lemma hex_upper_inj: "a < 16 \<Longrightarrow> b < 16 \<Longrightarrow> hex_upper a = hex_upper b \<Longrightarrow> a = b"
proof -
  assume a: "a < 16" "b < 16" "hex_upper a = hex_upper b"
  then have "code (hex_upper a) = code (hex_upper b)" by simp
  with a(1,2) show "a = b" by (auto simp: hex_upper_def split: if_splits)
qed

lemma percent_inj:
  assumes "a < 256" "b < 256" "percent a @ s = percent b @ t"
  shows "a = b \<and> s = t"
proof -
  have "a div 16 = b div 16" "a mod 16 = b mod 16"
    using assms by (auto simp: percent_def intro!: hex_upper_inj)
  then have "a = b" by (metis div_mult_mod_eq)
  with assms(3) show ?thesis by simp
qed

lemma encode_char_head:
  "uri_unreserved c \<Longrightarrow> encode_char c @ s = c # s"
  "\<not> uri_unreserved c \<Longrightarrow> \<exists>r. encode_char c @ s = CHR 0x25 # r"
  by (auto simp: encode_char_def percent_def)

lemma percent_not_unreserved: "\<not> uri_unreserved (CHR 0x25)"
  by (simp add: uri_unreserved_def char_class_defs)

lemma encode_char_inj:
  assumes "encode_char c @ s = encode_char d @ t"
  shows "c = d \<and> s = t"
proof (cases "uri_unreserved c \<or> uri_unreserved d")
  case True
  then show ?thesis
    using assms encode_char_head [of c s] encode_char_head [of d t] percent_not_unreserved
    by (metis list.inject)
next
  case False
  have b: "code c div 64 < 64" "code d div 64 < 64" "code c < 256" "code d < 256"
    using code_less_256 [of c] code_less_256 [of d] by linarith+
  show ?thesis
  proof (cases "code c < 128"; cases "code d < 128")
    assume "code c < 128" "code d < 128"
    then have "percent (code c) @ s = percent (code d) @ t"
      using assms False by (simp add: encode_char_def)
    from percent_inj [OF b(3,4) this] show ?thesis by simp
  next
    assume c: "code c < 128" and d: "\<not> code d < 128"
    then have "percent (code c) @ s = percent (192 + code d div 64) @ percent (128 + code d mod 64) @ t"
      using assms False by (simp add: encode_char_def)
    moreover have "192 + code d div 64 < 256" using b by linarith
    ultimately have "code c = 192 + code d div 64" using b(3) percent_inj by blast
    with c show ?thesis by simp
  next
    assume c: "\<not> code c < 128" and d: "code d < 128"
    then have "percent (192 + code c div 64) @ percent (128 + code c mod 64) @ s = percent (code d) @ t"
      using assms False by (simp add: encode_char_def)
    moreover have "192 + code c div 64 < 256" using b by linarith
    ultimately have "192 + code c div 64 = code d" using b(4) percent_inj by blast
    with d show ?thesis by simp
  next
    assume "\<not> code c < 128" "\<not> code d < 128"
    then have e: "percent (192 + code c div 64) @ percent (128 + code c mod 64) @ s =
        percent (192 + code d div 64) @ percent (128 + code d mod 64) @ t"
      using assms False by (simp add: encode_char_def)
    have "192 + code c div 64 < 256" "192 + code d div 64 < 256" using b by linarith+
    from percent_inj [OF this e] have h: "code c div 64 = code d div 64"
      "percent (128 + code c mod 64) @ s = percent (128 + code d mod 64) @ t" by simp_all
    have "128 + code c mod 64 < 256" "128 + code d mod 64 < 256"
      using mod_less_divisor [of 64 "code c"] mod_less_divisor [of 64 "code d"] by linarith+
    from percent_inj [OF this h(2)] have "code c mod 64 = code d mod 64" "s = t" by simp_all
    with h(1) have "code c = code d" by (metis div_mult_mod_eq)
    with \<open>s = t\<close> show ?thesis by simp
  qed
qed

lemma encodeURIComponent_inj: "encodeURIComponent s = encodeURIComponent t \<Longrightarrow> s = t"
proof (induction s arbitrary: t)
  case Nil
  then show ?case by (cases t) (auto simp: encodeURIComponent_def encode_char_def percent_def split: if_splits)
next
  case (Cons c s)
  then obtain d t' where t: "t = d # t'"
    by (cases t) (auto simp: encodeURIComponent_def encode_char_def percent_def split: if_splits)
  with Cons.prems have "encode_char c @ encodeURIComponent s = encode_char d @ encodeURIComponent t'"
    by (simp add: encodeURIComponent_def)
  from encode_char_inj [OF this] Cons.IH [of t'] t show ?case by simp
qed

end
