(* ===== verification/Wl_Method.thy ===== *)
theory Wl_Method
  imports Js_Text
begin

text \<open>
  Payment methods of the wallet as the browser sees them, \<open>features/wallet/lib/payment.ts\<close>:
  the internal providers, the public route identifiers and method names under which they are
  shown, the labels, and the choice of routes for the browser at hand. The translation function
  \<open>t\<close> is a parameter.
\<close>

section \<open>Data\<close>

datatype PaymentMethodProvider = Epay | Stripe | Xorpay | Creem | Waffo | Waffo_pancake

definition provider_name :: "PaymentMethodProvider \<Rightarrow> string" where
  "provider_name p = (case p of Epay \<Rightarrow> ''epay'' | Stripe \<Rightarrow> ''stripe'' | Xorpay \<Rightarrow> ''xorpay''
     | Creem \<Rightarrow> ''creem'' | Waffo \<Rightarrow> ''waffo'' | Waffo_pancake \<Rightarrow> ''waffo_pancake'')"

datatype PaymentCheckoutMode = ModeQuote | ModeProduct | ModeOption | ModeDirect

record PaymentMethod =
  pm_route_id :: string
  pm_public_method :: string
  pm_channel_alias :: "string option"
  pm_checkout_mode :: PaymentCheckoutMode
  pm_color :: "string option"
  pm_min_topup :: "jsnum option"
  pm_icon :: "string option"
  pm_currency :: "string option"

type_synonym translate = "string \<Rightarrow> (string \<times> jsval) list \<Rightarrow> string"

abbreviation ALIPAY :: string where "ALIPAY \<equiv> ''alipay''"
abbreviation WECHAT :: string where "WECHAT \<equiv> ''wxpay''"
abbreviation STRIPE :: string where "STRIPE \<equiv> ''stripe''"
abbreviation XORPAY_NATIVE :: string where "XORPAY_NATIVE \<equiv> ''xorpay_native''"
abbreviation XORPAY_ALIPAY :: string where "XORPAY_ALIPAY \<equiv> ''xorpay_alipay''"
abbreviation CREEM :: string where "CREEM \<equiv> ''creem''"
abbreviation WAFFO :: string where "WAFFO \<equiv> ''waffo''"
abbreviation WAFFO_PANCAKE :: string where "WAFFO_PANCAKE \<equiv> ''waffo_pancake''"

section \<open>Providers\<close>

definition isPaymentProvider :: "string \<Rightarrow> bool" where
  "isPaymentProvider value \<longleftrightarrow> value = ''epay'' \<or> value = ''stripe'' \<or> value = ''xorpay''"

text \<open>The configured name as a provider; \<open>None\<close> is a name of no provider.\<close>

definition configured_provider :: "string \<Rightarrow> PaymentMethodProvider option" where
  "configured_provider value =
     (if isPaymentProvider value
      then Some (if value = ''epay'' then Epay else if value = ''stripe'' then Stripe else Xorpay)
      else if value = ''creem'' then Some Creem
      else if value = ''waffo'' then Some Waffo
      else if value = ''waffo_pancake'' then Some Waffo_pancake
      else None)"

definition getPaymentMethodProvider :: "string \<Rightarrow> jsval \<Rightarrow> PaymentMethodProvider" where
  "getPaymentMethodProvider type configuredProvider =
     (case Option.bind (as_string configuredProvider) configured_provider of
        Some provider \<Rightarrow> provider
      | None \<Rightarrow>
          if type = STRIPE then Stripe
          else if type = XORPAY_NATIVE \<or> type = XORPAY_ALIPAY then Xorpay
          else if type = CREEM then Creem
          else if type = WAFFO then Waffo
          else if type = WAFFO_PANCAKE then Waffo_pancake
          else Epay)"

section \<open>Public route identifiers\<close>

definition PUBLIC_ROUTE_ID_PATTERN :: "string \<Rightarrow> bool" where
  "PUBLIC_ROUTE_ID_PATTERN s = matches is_alnum word_char 127 s"

definition isPublicPaymentRouteId :: "jsval \<Rightarrow> bool" where
  "isPublicPaymentRouteId value \<longleftrightarrow>
     (case as_string value of Some s \<Rightarrow> PUBLIC_ROUTE_ID_PATTERN s | None \<Rightarrow> False)"

text \<open>
  The hash is a 32-bit integer throughout: \<open>^=\<close> and \<open>Math.imul\<close> wrap, and
  \<open>hash >>> 0\<close> reads it as unsigned.
\<close>

definition fnv_step :: "32 word \<Rightarrow> char \<Rightarrow> 32 word" where
  "fnv_step hash c = xor hash (of_nat (code c)) * 0x01000193"

definition createLegacyPaymentRouteId :: "PaymentMethodProvider \<Rightarrow> string \<Rightarrow> string \<Rightarrow> string" where
  "createLegacyPaymentRouteId provider paymentMethod displayName =
     (let source = provider_name provider @ [CHR 0x00] @ paymentMethod @ [CHR 0x00] @ displayName;
          hash = foldl fnv_step 0x811c9dc5 source
      in ''route_'' @ pad_start 8 CHR ''0'' (hex_of_nat (unat hash)))"

definition normalizePaymentRouteId ::
  "jsval \<Rightarrow> PaymentMethodProvider \<Rightarrow> string \<Rightarrow> string \<Rightarrow> string"
where
  "normalizePaymentRouteId value provider paymentMethod displayName =
     (if isPublicPaymentRouteId value then the (as_string value)
      else createLegacyPaymentRouteId provider paymentMethod displayName)"

section \<open>Public method names\<close>

definition PUBLIC_METHOD_PATTERN :: "string \<Rightarrow> bool" where
  "PUBLIC_METHOD_PATTERN s = matches is_lower name_char 63 s"

definition PUBLIC_CHANNEL_ALIAS_PATTERN :: "string \<Rightarrow> bool" where
  "PUBLIC_CHANNEL_ALIAS_PATTERN s = matches is_lower name_char 63 s"

definition internal_terms :: "string list" where
  "internal_terms = [''epay'', ''xorpay'', ''stripe'', ''waffo'', ''creem'']"

text \<open>The pattern: a term that starts at the start or after an underscore, and ends likewise.\<close>

definition INTERNAL_PAYMENT_TERMS :: "string \<Rightarrow> bool" where
  "INTERNAL_PAYMENT_TERMS s \<longleftrightarrow>
     list_ex (\<lambda>i. (i = 0 \<or> s ! (i - 1) = CHR ''_'') \<and>
       list_ex (\<lambda>t. prefix t (drop i s) \<and>
         (drop (i + length t) s = [] \<or> hd (drop (i + length t) s) = CHR ''_'')) internal_terms)
       [0..<length s]"

definition normalizePublicPaymentMethod :: "jsval \<Rightarrow> string \<Rightarrow> string \<Rightarrow> string" where
  "normalizePublicPaymentMethod value legacyPaymentMethod legacyDisplayName =
     (let normalized = map_option (\<lambda>s. to_lower (trim s)) (as_string value);
          legacyValue = to_lower (legacyPaymentMethod @ '' '' @ legacyDisplayName)
      in if (case normalized of
               Some s \<Rightarrow> PUBLIC_METHOD_PATTERN s \<and> \<not> INTERNAL_PAYMENT_TERMS s | None \<Rightarrow> False)
         then the normalized
         else if contains legacyValue ''alipay'' then ''alipay''
         else if contains legacyValue ''wxpay'' \<or> contains legacyValue ''wechat''
              \<or> legacyPaymentMethod = XORPAY_NATIVE
         then ''wechat_pay''
         else if contains legacyValue ''stripe'' \<or> contains legacyValue ''card'' then ''card''
         else ''online_payment'')"

definition normalizePaymentChannelAlias :: "jsval \<Rightarrow> string option" where
  "normalizePaymentChannelAlias value =
     (case as_string value of
        None \<Rightarrow> None
      | Some s \<Rightarrow>
          let normalized = to_lower (trim s)
          in if \<not> PUBLIC_CHANNEL_ALIAS_PATTERN normalized \<or> INTERNAL_PAYMENT_TERMS normalized
             then None else Some normalized)"

section \<open>Labels\<close>

definition getPublicPaymentMethodLabel :: "string \<Rightarrow> translate \<Rightarrow> string" where
  "getPublicPaymentMethodLabel public_method t =
     (if public_method = ''alipay'' then t ''Alipay'' []
      else if public_method = ''wechat_pay'' then t ''WeChat Pay'' []
      else if public_method = ''card'' then t ''Card payment'' []
      else t ''Online payment'' [])"

definition getPublicPaymentChannelAliasLabel :: "string option \<Rightarrow> translate \<Rightarrow> string option" where
  "getPublicPaymentChannelAliasLabel channelAlias t =
     (case channelAlias of
        None \<Rightarrow> None
      | Some a \<Rightarrow>
          if a = ''qr'' \<or> a = ''native'' then Some (t ''QR payment'' [])
          else if a = ''redirect'' \<or> a = ''checkout'' then Some (t ''Secure checkout'' [])
          else if a = ''jsapi'' \<or> a = ''wechat_browser'' then Some (t ''WeChat in-app payment'' [])
          else if a = ''payment'' then None
          else Some (t ''Online payment'' []))"

definition getPublicPaymentChannelLabel ::
  "PaymentMethod \<Rightarrow> PaymentMethod list \<Rightarrow> translate \<Rightarrow> string option"
where
  "getPublicPaymentChannelLabel method methods t =
     (let matchingMethods = filter (\<lambda>candidate. pm_public_method candidate = pm_public_method method) methods
      in if 1 < length matchingMethods
         then let aliasLabel = getPublicPaymentChannelAliasLabel (pm_channel_alias method) t;
                  sameAliasCount = length (filter (\<lambda>candidate.
                    pm_channel_alias candidate = pm_channel_alias method) matchingMethods)
              in if truthy_str aliasLabel \<and> sameAliasCount = 1 then aliasLabel
                 else (case find_index (\<lambda>candidate. pm_route_id candidate = pm_route_id method)
                              matchingMethods of
                         None \<Rightarrow> Some (t ''Recommended channel'' [])
                       | Some index \<Rightarrow>
                           if index = 0 then Some (t ''Recommended channel'' [])
                           else Some (t ''Backup channel {{number}}''
                                        [(''number'', JNum (Fin (of_nat index)))]))
         else getPublicPaymentChannelAliasLabel (pm_channel_alias method) t)"

definition getPublicPaymentMethodIconType :: "string \<Rightarrow> string option" where
  "getPublicPaymentMethodIconType public_method =
     (if public_method = ''alipay'' then Some ALIPAY
      else if public_method = ''wechat_pay'' then Some WECHAT else None)"

definition getPublicPaymentRecordMethodName :: "jsval \<Rightarrow> translate \<Rightarrow> string" where
  "getPublicPaymentRecordMethodName publicMethod t =
     getPublicPaymentMethodLabel (normalizePublicPaymentMethod publicMethod [] []) t"

section \<open>Selection\<close>

definition isStripePayment :: "string \<Rightarrow> bool" where
  "isStripePayment paymentType \<longleftrightarrow> paymentType = STRIPE"

definition isUnifiedPaymentMethod :: "PaymentMethod \<Rightarrow> bool" where
  "isUnifiedPaymentMethod method \<longleftrightarrow>
     pm_checkout_mode method = ModeQuote \<or> pm_checkout_mode method = ModeDirect"

definition filterEligibleSubscriptionQuoteMethods ::
  "PaymentMethod list \<Rightarrow> string list option \<Rightarrow> PaymentMethod list"
where
  "filterEligibleSubscriptionQuoteMethods methods eligibleRouteIDs =
     (let eligibleRoutes = (case eligibleRouteIDs of Some ids \<Rightarrow> ids | None \<Rightarrow> [])
      in filter (\<lambda>method. pm_checkout_mode method = ModeQuote
           \<and> pm_route_id method \<in> set eligibleRoutes) methods)"

definition isWaffoPancakePayment :: "string \<Rightarrow> bool" where
  "isWaffoPancakePayment paymentType \<longleftrightarrow> paymentType = WAFFO_PANCAKE"

definition isWaffoPancakeMethod :: "PaymentMethod \<Rightarrow> bool" where
  "isWaffoPancakeMethod method \<longleftrightarrow> pm_checkout_mode method = ModeDirect"

section \<open>Routes for the browser\<close>

datatype PaymentBrowserEnvironment = Desktop | Mobile | Wechat

definition detectPaymentBrowserEnvironment :: "string \<Rightarrow> PaymentBrowserEnvironment" where
  "detectPaymentBrowserEnvironment userAgent =
     (let ua = to_lower userAgent
      in if contains ua ''micromessenger'' then Wechat
         else if list_ex (contains ua) [''android'', ''iphone'', ''ipad'', ''ipod'', ''mobile'']
         then Mobile else Desktop)"

definition isJSAPI :: "PaymentMethod \<Rightarrow> bool" where
  "isJSAPI method \<longleftrightarrow> pm_channel_alias method = Some ''wechat_browser''
     \<or> pm_channel_alias method = Some ''jsapi''"

definition isNative :: "PaymentMethod \<Rightarrow> bool" where
  "isNative method \<longleftrightarrow> pm_channel_alias method = Some ''qr'' \<or> pm_channel_alias method = Some ''native''"

definition environment_route ::
  "PaymentBrowserEnvironment \<Rightarrow> string list \<Rightarrow> PaymentMethod \<Rightarrow> bool"
where
  "environment_route environment wechatJSAPIGroups method =
     (if pm_public_method method \<noteq> ''wechat_pay'' then True
      else if environment \<noteq> Wechat then \<not> isJSAPI method
      else \<not> (isNative method \<and> pm_public_method method \<in> set wechatJSAPIGroups))"

fun select_brands :: "string list \<Rightarrow> PaymentMethod list \<Rightarrow> PaymentMethod list" where
  "select_brands selectedBrands [] = []"
| "select_brands selectedBrands (method # methods) =
     (let brand = pm_public_method method
      in if brand \<noteq> ''alipay'' \<and> brand \<noteq> ''wechat_pay''
         then method # select_brands selectedBrands methods
         else if brand \<in> set selectedBrands then select_brands selectedBrands methods
         else method # select_brands (brand # selectedBrands) methods)"

definition filterPaymentMethodsForBrowser ::
  "PaymentMethod list \<Rightarrow> PaymentBrowserEnvironment \<Rightarrow> PaymentMethod list"
where
  "filterPaymentMethodsForBrowser methods environment =
     (let wechatJSAPIGroups = map pm_public_method
            (filter (\<lambda>method. pm_public_method method = ''wechat_pay'' \<and> isJSAPI method) methods)
      in select_brands [] (filter (environment_route environment wechatJSAPIGroups) methods))"

section \<open>Normalisers of text\<close>

text \<open>
  The contract of a function that cleans a received value: what it gives out it accepts back
  unchanged, so a value may pass it any number of times.
\<close>

locale text_normalizer =
  fixes norm :: "jsval \<Rightarrow> string option"
  assumes accepts_own: "norm v = Some s \<Longrightarrow> norm (JStr s) = Some s"
begin

lemma norm_twice: "Option.bind (norm v) (\<lambda>s. norm (JStr s)) = norm v"
  using accepts_own by (cases "norm v") auto

lemma in_range_iff: "(\<exists>v. norm v = Some s) \<longleftrightarrow> norm (JStr s) = Some s"
  using accepts_own by blast

lemma norm_inj_on_range:
  "norm v = Some s \<Longrightarrow> norm w = Some s' \<Longrightarrow> norm (JStr s) = norm (JStr s') \<Longrightarrow> s = s'"
  using accepts_own by fastforce

end

lemma name_char_plain: "name_char c \<or> is_lower c \<Longrightarrow> \<not> is_upper c \<and> code c < 128 \<and> \<not> is_ws c"
  by (auto simp: name_char_def char_class_defs)

lemma name_fixed:
  assumes "matches is_lower name_char n s"
  shows "to_lower (trim s) = s"
proof -
  have "\<forall>c \<in> set s. \<not> is_upper c \<and> code c < 128 \<and> \<not> is_ws c"
    using matches_set [OF assms] name_char_plain by blast
  then show ?thesis by (simp add: trim_no_ws to_lower_fixed)
qed

interpretation channel_alias: text_normalizer normalizePaymentChannelAlias
proof
  fix v s
  assume "normalizePaymentChannelAlias v = Some s"
  then have "PUBLIC_CHANNEL_ALIAS_PATTERN s" "\<not> INTERNAL_PAYMENT_TERMS s"
    by (auto simp: normalizePaymentChannelAlias_def Let_def split: option.splits if_splits)
  then show "normalizePaymentChannelAlias (JStr s) = Some s"
    by (simp add: normalizePaymentChannelAlias_def Let_def PUBLIC_CHANNEL_ALIAS_PATTERN_def name_fixed)
qed

definition public_name :: "string \<Rightarrow> bool" where
  "public_name s \<longleftrightarrow> PUBLIC_METHOD_PATTERN s \<and> \<not> INTERNAL_PAYMENT_TERMS s"

lemma legacy_names_public:
  "public_name ''alipay''" "public_name ''wechat_pay''" "public_name ''card''"
  "public_name ''online_payment''"
  by (simp_all add: public_name_def PUBLIC_METHOD_PATTERN_def matches_def name_char_def
      char_class_defs INTERNAL_PAYMENT_TERMS_def internal_terms_def upt_rec numeral_eq_Suc)

lemma public_method_public: "public_name (normalizePublicPaymentMethod v l d)"
  using legacy_names_public
  by (auto simp: normalizePublicPaymentMethod_def Let_def public_name_def split: option.splits)

lemma public_method_fixed:
  assumes "public_name s"
  shows "normalizePublicPaymentMethod (JStr s) l d = s"
proof -
  have "to_lower (trim s) = s"
    using assms by (auto simp: public_name_def PUBLIC_METHOD_PATTERN_def intro: name_fixed)
  then show ?thesis using assms by (simp add: normalizePublicPaymentMethod_def public_name_def)
qed

interpretation public_method: text_normalizer "\<lambda>v. Some (normalizePublicPaymentMethod v l d)" for l d
  by unfold_locales (auto simp: public_method_fixed public_method_public)

section \<open>Route identifiers\<close>

lemma hex_word_char: "is_hex c \<Longrightarrow> word_char c"
  by (auto simp: is_hex_def word_char_def char_class_defs)

lemma legacy_hash_hex:
  fixes h :: "32 word"
  shows "length (pad_start 8 CHR ''0'' (hex_of_nat (unat h))) = 8"
    "list_all is_hex (pad_start 8 CHR ''0'' (hex_of_nat (unat h)))"
proof -
  have "unat h < 16 ^ Suc 7" using unsigned_less [of h] by simp
  then have "length (hex_of_nat (unat h)) \<le> 8" using length_hex_of_nat [of "unat h" 7] by simp
  then show "length (pad_start 8 CHR ''0'' (hex_of_nat (unat h))) = 8" by (simp add: length_pad_start)
  show "list_all is_hex (pad_start 8 CHR ''0'' (hex_of_nat (unat h)))"
    by (rule pad_start_class) (simp_all add: hex_of_nat_hex is_hex_def is_digit_def)
qed

lemma legacy_route_id_public: "PUBLIC_ROUTE_ID_PATTERN (createLegacyPaymentRouteId p m d)"
proof -
  have "list_all word_char (''oute_'' @ pad_start 8 CHR ''0'' (hex_of_nat (unat h)))" for h :: "32 word"
    using legacy_hash_hex(2) [of h] hex_word_char
    by (auto simp: list_all_iff word_char_def char_class_defs)
  then show ?thesis
    using legacy_hash_hex(1)
    by (simp add: createLegacyPaymentRouteId_def PUBLIC_ROUTE_ID_PATTERN_def matches_def Let_def
        char_class_defs)
qed

lemma route_id_public: "isPublicPaymentRouteId (JStr (normalizePaymentRouteId v p m d))"
  using legacy_route_id_public
  by (auto simp: normalizePaymentRouteId_def isPublicPaymentRouteId_def split: option.splits)

interpretation route_id: text_normalizer "\<lambda>v. Some (normalizePaymentRouteId v p m d)" for p m d
proof
  fix v s
  assume "Some (normalizePaymentRouteId v p m d) = Some s"
  then have "isPublicPaymentRouteId (JStr s)" using route_id_public by blast
  then show "Some (normalizePaymentRouteId (JStr s) p m d) = Some s"
    by (simp add: normalizePaymentRouteId_def)
qed

text \<open>The hash of Fowler, Noll and Vo on natural numbers, modulo \<open>2 ^ 32\<close>.\<close>

definition fnv1a :: "nat list \<Rightarrow> nat" where
  "fnv1a bytes = foldl (\<lambda>h b. (xor h b * 16777619) mod 2 ^ 32) 2166136261 bytes"

lemma fnv_step_nat: "unat (fnv_step h c) = (xor (unat h) (code c) * 16777619) mod 2 ^ 32"
proof -
  have "code c < 2 ^ 32" by (rule less_trans [OF code_less_256]) simp
  then have "unat (of_nat (code c) :: 32 word) = code c"
    by (simp only: unsigned_of_nat) (simp add: take_bit_nat_eq_self)
  then have "unat (xor h (of_nat (code c))) = xor (unat h) (code c)"
    by (simp add: unsigned_xor_eq)
  then show ?thesis by (simp add: fnv_step_def unat_word_ariths)
qed

lemma fnv_fold: "unat (foldl fnv_step h s) =
    foldl (\<lambda>h b. (xor h b * 16777619) mod 2 ^ 32) (unat h) (map code s)"
  by (induction s arbitrary: h) (simp_all add: fnv_step_nat)

section \<open>Segments of a name\<close>

primrec split_on :: "'a \<Rightarrow> 'a list \<Rightarrow> 'a list list" where
  "split_on c [] = [[]]"
| "split_on c (x # xs) =
     (if x = c then [] # split_on c xs else (x # hd (split_on c xs)) # tl (split_on c xs))"

lemma split_on_not_Nil [simp]: "split_on c s \<noteq> []"
  by (cases s) auto

lemma hd_split_on: "\<exists>post. s = hd (split_on c s) @ post \<and> (post = [] \<or> hd post = c)"
  by (induction s) auto

lemma tl_split_on:
  "t \<in> set (tl (split_on c s)) \<Longrightarrow> \<exists>pre post. s = pre @ c # t @ post \<and> (post = [] \<or> hd post = c)"
proof (induction s)
  case (Cons x xs)
  consider (first) "x = c" "t = hd (split_on c xs)" | (more) "t \<in> set (tl (split_on c xs))"
    using Cons.prems by (cases "split_on c xs") (auto split: if_splits)
  then show ?case
  proof cases
    case first
    obtain post where "xs = t @ post" "post = [] \<or> hd post = c"
      using hd_split_on [of xs c] first(2) by blast
    with first(1) show ?thesis by (intro exI [of _ "[]"] exI [of _ post]) simp
  next
    case more
    with Cons.IH obtain pre post where "xs = pre @ c # t @ post" "post = [] \<or> hd post = c" by blast
    then show ?thesis by (intro exI [of _ "x # pre"] exI [of _ post]) simp
  qed
qed simp

lemma split_on_decomp:
  assumes "t \<in> set (split_on c s)"
  shows "\<exists>pre post. s = pre @ t @ post \<and> (pre = [] \<or> last pre = c) \<and> (post = [] \<or> hd post = c)"
proof (cases "t = hd (split_on c s)")
  case True
  then show ?thesis using hd_split_on [of s c] by (metis append_Nil)
next
  case False
  with assms have "t \<in> set (tl (split_on c s))" by (cases "split_on c s") auto
  from tl_split_on [OF this] obtain pre post where "s = pre @ c # t @ post" "post = [] \<or> hd post = c"
    by blast
  then show ?thesis by (intro exI [of _ "pre @ [c]"] exI [of _ post]) simp
qed

lemma internal_segment:
  assumes "t \<in> set (split_on CHR ''_'' s)" "t \<in> set internal_terms"
  shows "INTERNAL_PAYMENT_TERMS s"
proof -
  obtain pre post where d: "s = pre @ t @ post" "pre = [] \<or> last pre = CHR ''_''"
    "post = [] \<or> hd post = CHR ''_''" using split_on_decomp [OF assms(1)] by blast
  have t: "t \<noteq> []" using assms(2) by (auto simp: internal_terms_def)
  have "length pre = 0 \<or> s ! (length pre - 1) = CHR ''_''"
    using d(1,2) by (cases pre rule: rev_cases) (auto simp: nth_append)
  then show ?thesis
    using d t assms(2)
    by (auto simp: INTERNAL_PAYMENT_TERMS_def list_ex_iff intro!: bexI [of _ "length pre"] bexI [of _ t])
qed

lemma public_segments: "public_name s \<Longrightarrow> set (split_on CHR ''_'' s) \<inter> set internal_terms = {}"
  using internal_segment by (auto simp: public_name_def)

section \<open>Selection of routes\<close>

definition brand :: "string \<Rightarrow> bool" where
  "brand b \<longleftrightarrow> b = ''alipay'' \<or> b = ''wechat_pay''"

lemma brand_names: "brand ''alipay''" "brand ''wechat_pay''"
  by (simp_all add: brand_def)

definition of_brand :: "string \<Rightarrow> PaymentMethod list \<Rightarrow> PaymentMethod list" where
  "of_brand b ms = filter (\<lambda>m. pm_public_method m = b) ms"

lemma of_brand_simps [simp]:
  "of_brand b [] = []"
  "of_brand b (m # ms) = (if pm_public_method m = b then m # of_brand b ms else of_brand b ms)"
  by (simp_all add: of_brand_def)

lemma of_brand_Nil_iff: "of_brand b ms = [] \<longleftrightarrow> (\<forall>m \<in> set ms. pm_public_method m \<noteq> b)"
  by (auto simp: of_brand_def filter_empty_conv)

lemma select_Cons:
  "select_brands B (m # ms) =
     (if \<not> brand (pm_public_method m) then m # select_brands B ms
      else if pm_public_method m \<in> set B then select_brands B ms
      else m # select_brands (pm_public_method m # B) ms)"
  by (simp add: brand_def Let_def)

declare select_brands.simps(2) [simp del]

lemma select_subseq: "subseq (select_brands B ms) ms"
  by (induction ms arbitrary: B) (auto simp: select_Cons)

lemma set_select: "set (select_brands B ms) \<subseteq> set ms"
  by (induction ms arbitrary: B) (auto simp: select_Cons)

lemma select_others:
  "filter (\<lambda>m. \<not> brand (pm_public_method m)) (select_brands B ms) =
   filter (\<lambda>m. \<not> brand (pm_public_method m)) ms"
  by (induction ms arbitrary: B) (auto simp: select_Cons)

lemma select_one:
  "brand b \<Longrightarrow> of_brand b (select_brands B ms) = (if b \<in> set B then [] else take 1 (of_brand b ms))"
  by (induction ms arbitrary: B) (auto simp: select_Cons)

lemma select_fixed:
  "(\<And>b. brand b \<Longrightarrow> length (of_brand b ms) \<le> (if b \<in> set B then 0 else 1)) \<Longrightarrow> select_brands B ms = ms"
proof (induction ms arbitrary: B)
  case (Cons m ms)
  have le: "length (of_brand b ms) \<le> (if b \<in> set B then 0 else 1)" if "brand b" for b
    using Cons.prems [OF that] by (auto split: if_splits)
  show ?case
  proof (cases "brand (pm_public_method m)")
    case True
    have *: "pm_public_method m \<notin> set B" "of_brand (pm_public_method m) ms = []"
      using Cons.prems [OF True] by (auto split: if_splits)
    have "length (of_brand b ms) \<le> (if b \<in> set (pm_public_method m # B) then 0 else 1)" if "brand b" for b
      using le [OF that] *(2) by (cases "b = pm_public_method m") auto
    from Cons.IH [OF this] True *(1) show ?thesis by (simp add: select_Cons)
  qed (simp add: select_Cons Cons.IH [OF le])
qed simp

lemma filter_take1: "P x \<Longrightarrow> take 1 (filter P (x # xs)) = [x]"
  by simp

lemma of_brand_filter: "of_brand b (filter P ms) = filter P (of_brand b ms)"
  by (simp add: of_brand_def conj_commute)

lemma mem_of_brand: "m \<in> set (of_brand b ms) \<longleftrightarrow> m \<in> set ms \<and> pm_public_method m = b"
  by (auto simp: of_brand_def)

lemma select_kept: "brand b \<Longrightarrow> of_brand b ms \<noteq> [] \<Longrightarrow> of_brand b (select_brands [] ms) \<noteq> []"
  by (simp add: select_one take_eq_Nil)

lemma browser_routes_subset:
  "m \<in> set (filterPaymentMethodsForBrowser ms env) \<Longrightarrow> m \<in> set ms \<and>
   environment_route env (map pm_public_method
     (filter (\<lambda>m. pm_public_method m = ''wechat_pay'' \<and> isJSAPI m) ms)) m"
  using set_select
  by (fastforce simp: filterPaymentMethodsForBrowser_def Let_def)

lemma browser_brand_count:
  "brand b \<Longrightarrow> length (of_brand b (filterPaymentMethodsForBrowser ms env)) \<le> 1"
  by (simp add: filterPaymentMethodsForBrowser_def Let_def select_one)

lemma browser_filter_idem:
  "filterPaymentMethodsForBrowser (filterPaymentMethodsForBrowser ms env) env =
   filterPaymentMethodsForBrowser ms env"
proof -
  let ?r = "filterPaymentMethodsForBrowser ms env"
  let ?g = "\<lambda>ms. map pm_public_method (filter (\<lambda>m. pm_public_method m = ''wechat_pay'' \<and> isJSAPI m) ms)"
  have "set (?g ?r) \<subseteq> set (?g ms)" using browser_routes_subset by fastforce
  then have "environment_route env (?g ?r) m" if "m \<in> set ?r" for m
    using browser_routes_subset [OF that] by (auto simp: environment_route_def split: if_splits)
  then have "filter (environment_route env (?g ?r)) ?r = ?r" by (simp add: filter_id_conv)
  moreover have "select_brands [] ?r = ?r"
    by (rule select_fixed) (use browser_brand_count in simp)
  ultimately show ?thesis
    unfolding filterPaymentMethodsForBrowser_def [of ?r] Let_def by simp
qed

lemma browser_others:
  "filter (\<lambda>m. \<not> brand (pm_public_method m)) (filterPaymentMethodsForBrowser ms env) =
   filter (\<lambda>m. \<not> brand (pm_public_method m)) ms"
  unfolding filterPaymentMethodsForBrowser_def Let_def select_others filter_filter
  by (rule filter_cong) (auto simp: environment_route_def brand_def)

lemma browser_keeps_brand:
  assumes "m \<in> set ms" "brand (pm_public_method m)"
    "pm_public_method m = ''wechat_pay'' \<Longrightarrow> env = Wechat \<or> \<not> isJSAPI m"
  shows "\<exists>m' \<in> set (filterPaymentMethodsForBrowser ms env). pm_public_method m' = pm_public_method m"
proof -
  let ?g = "map pm_public_method (filter (\<lambda>m. pm_public_method m = ''wechat_pay'' \<and> isJSAPI m) ms)"
  have "\<exists>m' \<in> set ms. pm_public_method m' = pm_public_method m \<and> environment_route env ?g m'"
  proof (cases "environment_route env ?g m")
    case False
    then have w: "pm_public_method m = ''wechat_pay''" "env = Wechat" "''wechat_pay'' \<in> set ?g"
      using assms(3) by (auto simp: environment_route_def split: if_splits)
    then obtain j where "j \<in> set ms" "pm_public_method j = ''wechat_pay''" "isJSAPI j" by auto
    moreover have "\<not> isNative j" using \<open>isJSAPI j\<close> by (auto simp: isJSAPI_def isNative_def)
    ultimately show ?thesis using w by (intro bexI [of _ j]) (auto simp: environment_route_def)
  qed (use assms(1) in blast)
  then have "of_brand (pm_public_method m) (filter (environment_route env ?g) ms) \<noteq> []"
    by (auto simp: of_brand_Nil_iff)
  from select_kept [OF assms(2) this] show ?thesis
    by (auto simp: filterPaymentMethodsForBrowser_def Let_def of_brand_Nil_iff)
qed

section \<open>Properties\<close>


text \<open>
  (C32) The legacy identifier is the 32-bit FNV-1a hash of provider, method and name, separated
  by NUL: eight hexadecimal digits that denote the hash computed on natural numbers modulo
  \<open>2 ^ 32\<close>.
\<close>

theorem legacy_route_id_is_fnv1a:
  "\<exists>digits. createLegacyPaymentRouteId p m d = ''route_'' @ digits
     \<and> length digits = 8 \<and> list_all is_hex digits
     \<and> nat_of_hex digits = fnv1a (map code (provider_name p) @ [0] @ map code m @ [0] @ map code d)"
proof -
  let ?source = "provider_name p @ [CHR 0x00] @ m @ [CHR 0x00] @ d"
  let ?h = "foldl fnv_step 0x811c9dc5 ?source"
  have "unat ?h = fnv1a (map code ?source)" unfolding fnv_fold fnv1a_def by simp
  then show ?thesis
    using legacy_hash_hex [of ?h]
    by (intro exI [of _ "pad_start 8 CHR ''0'' (hex_of_nat (unat ?h))"])
       (simp add: createLegacyPaymentRouteId_def Let_def nat_of_hex_pad nat_of_hex_of_nat)
qed


text \<open>
  The routes offered to a browser are a subsequence of the routes received, with every
  other method kept and at most one route each for Alipay and WeChat Pay. Outside WeChat no
  in-app route is offered; inside WeChat no QR route if there is an in-app one. A brand that has
  a usable route is still offered, and filtering again changes nothing.
\<close>

theorem browser_routes:
  assumes "routes = filterPaymentMethodsForBrowser ms env"
  shows "subseq routes ms
    \<and> filter (\<lambda>m. \<not> brand (pm_public_method m)) routes = filter (\<lambda>m. \<not> brand (pm_public_method m)) ms
    \<and> length (of_brand ''alipay'' routes) \<le> 1 \<and> length (of_brand ''wechat_pay'' routes) \<le> 1
    \<and> (\<forall>m \<in> set (of_brand ''wechat_pay'' routes).
         if env \<noteq> Wechat then \<not> isJSAPI m
         else isNative m \<longrightarrow> (\<forall>m' \<in> set (of_brand ''wechat_pay'' ms). \<not> isJSAPI m'))
    \<and> (\<forall>m \<in> set ms. brand (pm_public_method m)
         \<and> (pm_public_method m = ''wechat_pay'' \<longrightarrow> env = Wechat \<or> \<not> isJSAPI m)
         \<longrightarrow> (\<exists>m' \<in> set routes. pm_public_method m' = pm_public_method m))
    \<and> filterPaymentMethodsForBrowser routes env = routes"
proof (intro conjI)
  show "subseq routes ms"
    using subseq_order.trans [OF select_subseq subseq_filter_left]
    by (simp add: assms filterPaymentMethodsForBrowser_def Let_def)
  show "\<forall>m \<in> set (of_brand ''wechat_pay'' routes).
      if env \<noteq> Wechat then \<not> isJSAPI m
      else isNative m \<longrightarrow> (\<forall>m' \<in> set (of_brand ''wechat_pay'' ms). \<not> isJSAPI m')"
    using browser_routes_subset [of _ ms env]
    by (fastforce simp: assms mem_of_brand environment_route_def split: if_splits)
  show "\<forall>m \<in> set ms. brand (pm_public_method m)
      \<and> (pm_public_method m = ''wechat_pay'' \<longrightarrow> env = Wechat \<or> \<not> isJSAPI m)
      \<longrightarrow> (\<exists>m' \<in> set routes. pm_public_method m' = pm_public_method m)"
    using browser_keeps_brand unfolding assms by blast
qed (use browser_brand_count [of _ ms env] in
    \<open>simp_all add: assms browser_others browser_filter_idem brand_names\<close>)

definition example_route :: "string \<Rightarrow> string \<Rightarrow> string \<Rightarrow> PaymentMethod" where
  "example_route i b a = \<lparr>pm_route_id = i, pm_public_method = b, pm_channel_alias = Some a,
     pm_checkout_mode = ModeQuote, pm_color = None, pm_min_topup = None, pm_icon = None,
     pm_currency = None\<rparr>"

theorem browser_routes_witness:
  "filterPaymentMethodsForBrowser [example_route ''a'' ''wechat_pay'' ''qr'',
     example_route ''b'' ''wechat_pay'' ''jsapi''] Wechat = [example_route ''b'' ''wechat_pay'' ''jsapi'']
   \<and> length (of_brand ''wechat_pay'' [example_route ''b'' ''wechat_pay'' ''jsapi'']) \<le> 1"
proof -
  have "[example_route ''b'' ''wechat_pay'' ''jsapi''] =
      filterPaymentMethodsForBrowser [example_route ''a'' ''wechat_pay'' ''qr'',
        example_route ''b'' ''wechat_pay'' ''jsapi''] Wechat"
    by (simp add: filterPaymentMethodsForBrowser_def environment_route_def isJSAPI_def isNative_def
        example_route_def select_Cons brand_def)
  from browser_routes [OF this] this show ?thesis by simp
qed

end
