(* ===== verification/Wl_Safety.thy ===== *)
theory Wl_Safety
  imports Wl_Method
begin

text \<open>
  What the wallet checks before it sends the user somewhere or shows something received,
  \<open>features/wallet/lib/payment.ts\<close>: payment addresses, QR contents, the parameters of an
  in-app payment and the texts of errors. The URL parser of the browser is a parameter,
  \<open>new_url\<close>; nothing is assumed of it.
\<close>

section \<open>Addresses\<close>

record Url =
  u_href :: string
  u_origin :: string
  u_protocol :: string
  u_username :: string
  u_password :: string
  u_host :: string
  u_hostname :: string
  u_port :: string
  u_pathname :: string
  u_search :: string
  u_hash :: string
  u_entries :: "(string \<times> string) list"

type_synonym url_parser = "string \<Rightarrow> string option \<Rightarrow> js_error + Url"

text \<open>\<open>window.location\<close>; there is no window on a server.\<close>

record Location =
  loc_origin :: string
  loc_hostname :: string

definition isPaymentReturnCancelled ::
  "(string \<Rightarrow> js_error + (string \<times> string) list) \<Rightarrow> string \<Rightarrow> bool"
where
  "isPaymentReturnCancelled search_params search =
     (case search_params search of
        Inl _ \<Rightarrow> False
      | Inr params \<Rightarrow> map_of params ''payment_result'' = Some ''cancelled'')"

definition isLoopbackHostname :: "string \<Rightarrow> bool" where
  "isLoopbackHostname hostname \<longleftrightarrow>
     hostname = ''localhost'' \<or> hostname = ''127.0.0.1'' \<or> hostname = ''[::1]''"

definition getSafePaymentUrl :: "url_parser \<Rightarrow> Location option \<Rightarrow> string \<Rightarrow> Url option" where
  "getSafePaymentUrl new_url window value =
     (case window of
        None \<Rightarrow> None
      | Some location \<Rightarrow>
          (case new_url value (Some (loc_origin location)) of
             Inl _ \<Rightarrow> None
           | Inr url \<Rightarrow>
               if u_username url \<noteq> [] \<or> u_password url \<noteq> [] then None
               else if u_protocol url = ''https:'' then Some url
               else let sameLoopbackOrigin = u_protocol url = ''http:''
                          \<and> isLoopbackHostname (u_hostname url)
                          \<and> isLoopbackHostname (loc_hostname location)
                    in if sameLoopbackOrigin then Some url else None))"

text \<open>The addresses the page was sent to, and the forms it submitted, are lists that grow.\<close>

definition navigateToPaymentUrl ::
  "url_parser \<Rightarrow> Location option \<Rightarrow> string \<Rightarrow> string list \<Rightarrow> bool \<times> string list"
where
  "navigateToPaymentUrl new_url window value assigned =
     (case getSafePaymentUrl new_url window value of
        None \<Rightarrow> (False, assigned)
      | Some url \<Rightarrow> (True, assigned @ [u_href url]))"

record PaymentForm =
  fo_action :: string
  fo_method :: string
  fo_target :: string
  fo_referrerPolicy :: string
  fo_inputs :: "(string \<times> string) list"

definition submitPaymentForm ::
  "url_parser \<Rightarrow> Location option \<Rightarrow> string \<Rightarrow> (string \<times> jsval) list \<Rightarrow> PaymentForm list
   \<Rightarrow> bool \<times> PaymentForm list"
where
  "submitPaymentForm new_url window url params submitted =
     (case getSafePaymentUrl new_url window url of
        None \<Rightarrow> (False, submitted)
      | Some safeUrl \<Rightarrow>
          (True, submitted @
             [\<lparr>fo_action = u_href safeUrl, fo_method = ''POST'', fo_target = ''_self'',
               fo_referrerPolicy = ''no-referrer'',
               fo_inputs = map (\<lambda>(key, value). (key, js_to_string value)) params\<rparr>]))"

definition continue_path :: "string \<Rightarrow> string" where
  "continue_path tradeNo = ''/api/user/payment/orders/'' @ encodeURIComponent tradeNo @ ''/continue''"

definition authorize_path :: "string \<Rightarrow> string" where
  "authorize_path tradeNo =
     ''/api/user/payment/orders/'' @ encodeURIComponent tradeNo @ ''/wechat-authorize''"

definition own_url :: "Location \<Rightarrow> string \<Rightarrow> Url \<Rightarrow> bool" where
  "own_url location expectedPath url \<longleftrightarrow>
     \<not> (u_origin url \<noteq> loc_origin location \<or> u_pathname url \<noteq> expectedPath
        \<or> u_username url \<noteq> [] \<or> u_password url \<noteq> [] \<or> u_search url \<noteq> [] \<or> u_hash url \<noteq> [])"

definition getSafePaymentContinueUrl ::
  "url_parser \<Rightarrow> Location option \<Rightarrow> string \<Rightarrow> string \<Rightarrow> Url option"
where
  "getSafePaymentContinueUrl new_url window value tradeNo =
     (case window of
        None \<Rightarrow> None
      | Some location \<Rightarrow>
          if tradeNo = [] \<or> 128 < length tradeNo then None
          else (case new_url value (Some (loc_origin location)) of
                  Inl _ \<Rightarrow> None
                | Inr url \<Rightarrow> if own_url location (continue_path tradeNo) url then Some url else None))"

definition getSafeWeChatAuthorizationUrl ::
  "url_parser \<Rightarrow> Location option \<Rightarrow> string option \<Rightarrow> string \<Rightarrow> Url option"
where
  "getSafeWeChatAuthorizationUrl new_url window value tradeNo =
     (case window of
        None \<Rightarrow> None
      | Some location \<Rightarrow>
          if \<not> truthy_str value \<or> tradeNo = [] \<or> 128 < length tradeNo then None
          else (case new_url (the value) (Some (loc_origin location)) of
                  Inl _ \<Rightarrow> None
                | Inr url \<Rightarrow> if own_url location (authorize_path tradeNo) url then Some url else None))"

section \<open>QR contents\<close>

definition hasForbiddenPaymentControlCharacters :: "string \<Rightarrow> bool" where
  "hasForbiddenPaymentControlCharacters value = list_ex (\<lambda>c. code c \<le> 0x1f \<or> code c = 0x7f) value"

text \<open>
  The pattern of an address: the scheme, the longest run without slash, question mark and hash,
  and a path without question mark and hash that has at least \<open>n\<close> characters after its slash.
\<close>

definition split_address :: "nat \<Rightarrow> string list \<Rightarrow> string \<Rightarrow> (string \<times> string) option" where
  "split_address n schemes s =
     (case find (\<lambda>scheme. prefix (scheme @ ''://'') s) schemes of
        None \<Rightarrow> None
      | Some scheme \<Rightarrow>
          let r = drop (length scheme + 3) s;
              host = takeWhile (\<lambda>c. c \<notin> set ''/?#'') r; path = dropWhile (\<lambda>c. c \<notin> set ''/?#'') r
          in if host \<noteq> [] \<and> path \<noteq> [] \<and> hd path = CHR ''/'' \<and> list_all (\<lambda>c. c \<notin> set ''?#'') path
                \<and> n < length path
             then Some (host, path) else None)"

definition hosted_path_char :: "char \<Rightarrow> bool" where
  "hosted_path_char c \<longleftrightarrow> is_alnum c \<or> c \<in> set ''._~/-''"

definition alipay_path_char :: "char \<Rightarrow> bool" where
  "alipay_path_char c \<longleftrightarrow> is_alnum c \<or> c \<in> set ''._~-''"

definition weixin_qr :: "url_parser \<Rightarrow> string \<Rightarrow> bool" where
  "weixin_qr new_url trimmed =
     (case new_url trimmed None of
        Inl _ \<Rightarrow> False
      | Inr url \<Rightarrow>
          prefix ''weixin://wxpay/bizpayurl?'' trimmed \<and> u_protocol url = ''weixin:''
        \<and> u_host url = ''wxpay'' \<and> u_username url = [] \<and> u_password url = [] \<and> u_port url = []
        \<and> u_hash url = [] \<and> u_pathname url = ''/bizpayurl'' \<and> length (u_entries url) = 1
        \<and> fst (u_entries url ! 0) = ''pr'' \<and> matches_class word_char 1 512 (snd (u_entries url ! 0)))"

definition hosted_qr_path :: "string \<Rightarrow> bool" where
  "hosted_qr_path path \<longleftrightarrow> 2 \<le> length path \<and> length path \<le> 2049
     \<and> path \<noteq> [] \<and> hd path = CHR ''/'' \<and> tl path \<noteq> [] \<and> list_all hosted_path_char (tl path)
     \<and> \<not> prefix ''//'' path \<and> \<not> contains path ''/../'' \<and> \<not> suffix ''/..'' path"

definition alipay_qr_path :: "string \<Rightarrow> bool" where
  "alipay_qr_path path \<longleftrightarrow> 2 \<le> length path \<and> length path \<le> 2049
     \<and> path \<noteq> [] \<and> hd path = CHR ''/'' \<and> tl path \<noteq> [] \<and> list_all alipay_path_char (tl path)"

definition isSafePaymentQrContent :: "url_parser \<Rightarrow> string \<Rightarrow> bool" where
  "isSafePaymentQrContent new_url value =
     (let trimmed = trim value
      in if trimmed = [] \<or> value \<noteq> trimmed \<or> 4096 < length trimmed then False
         else if hasForbiddenPaymentControlCharacters trimmed \<or> contains trimmed [CHR 0x5C]
                 \<or> contains trimmed ''#''
         then False
         else if prefix ''weixin://'' trimmed then weixin_qr new_url trimmed
         else let hostedMatch = split_address 0 [''https'', ''http''] trimmed
              in if map_option (to_lower \<circ> fst) hostedMatch = Some ''ipay.yltg.com.cn''
                 then hosted_qr_path (snd (the hostedMatch))
                 else let alipayMatch = split_address 1 [''https''] trimmed
                      in if map_option (to_lower \<circ> fst) alipayMatch \<noteq> Some ''qr.alipay.com'' then False
                         else alipay_qr_path (snd (the alipayMatch)))"

section \<open>In-app payment\<close>

record PaymentJSAPIParameters =
  js_app_id :: string
  js_timestamp :: string
  js_nonce_str :: string
  js_package :: string
  js_sign_type :: string
  js_pay_sign :: string

definition isSafePaymentJSAPIParameters :: "PaymentJSAPIParameters option \<Rightarrow> bool" where
  "isSafePaymentJSAPIParameters parameters =
     (case parameters of
        None \<Rightarrow> False
      | Some p \<Rightarrow>
          prefix ''wx'' (js_app_id p) \<and> matches_class is_alnum 16 16 (drop 2 (js_app_id p))
        \<and> matches_class is_digit 1 16 (js_timestamp p)
        \<and> 0 < length (js_nonce_str p) \<and> length (js_nonce_str p) \<le> 128
        \<and> \<not> hasForbiddenPaymentControlCharacters (js_nonce_str p)
        \<and> prefix ''prepay_id='' (js_package p) \<and> length (js_package p) \<le> 256
        \<and> \<not> hasForbiddenPaymentControlCharacters (js_package p)
        \<and> js_sign_type p \<in> set [''MD5'', ''HMAC-SHA256'']
        \<and> 16 \<le> length (js_pay_sign p) \<and> length (js_pay_sign p) \<le> 256
        \<and> \<not> hasForbiddenPaymentControlCharacters (js_pay_sign p))"

section \<open>Errors\<close>

definition PAYMENT_ERROR_MESSAGES :: "(string \<times> string) list" where
  "PAYMENT_ERROR_MESSAGES =
     [(''PAYMENT_INVALID_REQUEST'', ''Payment details are invalid. Review them and try again.''),
      (''PAYMENT_REQUEST_INVALID'', ''Payment details are invalid. Review them and try again.''),
      (''PAYMENT_METHOD_UNAVAILABLE'', ''This payment method is temporarily unavailable''),
      (''PAYMENT_AMOUNT_INVALID'', ''Enter a valid payment amount.''),
      (''PAYMENT_AMOUNT_BELOW_MINIMUM'', ''The payment amount is below the minimum.''),
      (''PAYMENT_SINGLE_LIMIT_EXCEEDED'', ''This amount exceeds the single payment limit.''),
      (''PAYMENT_DAILY_LIMIT_EXCEEDED'', ''The daily limit for this payment method has been reached.''),
      (''PAYMENT_QUOTE_LIMIT_REACHED'',
       ''Too many payment quotes are active. Wait for one to expire and try again.''),
      (''PAYMENT_QUOTE_EXPIRED'', ''Payment quote expired. Please request a new quote.''),
      (''PAYMENT_QUOTE_CONSUMED'', ''This payment quote has already been used. Request a new quote.''),
      (''PAYMENT_QUOTE_NOT_FOUND'', ''This payment quote is no longer available. Request a new quote.''),
      (''PAYMENT_ORDER_LIMIT_REACHED'',
       ''Too many payment orders are active. Complete an existing order or wait for it to expire.''),
      (''PAYMENT_IDEMPOTENCY_CONFLICT'',
       ''This payment conflicts with an earlier request. Refresh and try again.''),
      (''PAYMENT_REQUEST_CONFLICT'',
       ''This payment conflicts with an earlier request. Refresh and try again.''),
      (''PAYMENT_CONFIGURATION_CHANGED'',
       ''Payment settings changed. Request a new quote and try again.''),
      (''PAYMENT_REVIEW_REQUIRED'',
       ''This payment needs review. Keep the order number and contact support.''),
      (''PAYMENT_REQUIRES_SUPPORT'',
       ''This payment needs review. Keep the order number and contact support.''),
      (''PAYMENT_ACCOUNT_UNAVAILABLE'', ''This payment method is temporarily unavailable''),
      (''PAYMENT_REDIRECT_INVALID'', ''Payment is temporarily unavailable. Try again.''),
      (''PAYMENT_PRODUCT_UNAVAILABLE'', ''This payment method is temporarily unavailable''),
      (''PAYMENT_COMPLIANCE_REQUIRED'',
       ''Payment is temporarily unavailable. Try again later or contact support.''),
      (''SUBSCRIPTION_PURCHASE_LIMIT_REACHED'',
       ''The purchase limit for this access plan has been reached.''),
      (''PAYMENT_CONFIRMATION_PENDING'', ''Payment confirmation is pending''),
      (''PAYMENT_ORDER_EXPIRED'', ''Payment expired''),
      (''PAYMENT_NOT_READY'', ''Preparing your payment''),
      (''PAYMENT_ORDER_NOT_FOUND'', ''This payment order could not be found.''),
      (''PAYMENT_TEMPORARILY_UNAVAILABLE'', ''Payment is temporarily unavailable. Try again.'')]"

record PaymentErrorDetails =
  ed_code :: "string option"
  ed_params :: "jsval option"

lemma size_js_get: "js_get v k \<noteq> JUndef \<Longrightarrow> size (js_get v k) < size v"
proof (cases v)
  case (JObj kvs)
  have "map_of kvs k = Some w \<Longrightarrow> size w < size (JObj kvs)" for w
    by (induction kvs) (auto split: if_splits)
  then show "js_get v k \<noteq> JUndef \<Longrightarrow> ?thesis" by (auto simp: JObj split: option.splits)
qed auto

function getPaymentErrorDetails :: "jsval \<Rightarrow> PaymentErrorDetails" where
  "getPaymentErrorDetails source =
     (if \<not> truthy source \<or> \<not> is_object source then \<lparr>ed_code = None, ed_params = None\<rparr>
      else case as_string (js_get source ''code'') of
        Some c \<Rightarrow>
          \<lparr>ed_code = Some c,
           ed_params = (if is_nonnull_object (js_get source ''params'')
             then Some (js_get source ''params'') else None)\<rparr>
      | None \<Rightarrow>
          if truthy (js_get (js_get source ''response'') ''data'')
          then getPaymentErrorDetails (js_get (js_get source ''response'') ''data'')
          else \<lparr>ed_code = None, ed_params = None\<rparr>)"
  by pat_completeness auto
termination
proof (relation "measure size")
  fix source
  assume t: "truthy (js_get (js_get source ''response'') ''data'')"
  then have d: "js_get (js_get source ''response'') ''data'' \<noteq> JUndef" by auto
  moreover from d have "js_get source ''response'' \<noteq> JUndef" by auto
  ultimately show "(js_get (js_get source ''response'') ''data'', source) \<in> measure size"
    using less_trans [OF size_js_get size_js_get] by simp
qed simp

declare getPaymentErrorDetails.simps [simp del]

text \<open>The error object: its message is fixed, its code and parameters are those found.\<close>

definition createPaymentError :: "jsval \<Rightarrow> jsval" where
  "createPaymentError source =
     (let details = getPaymentErrorDetails source
      in JObj [(''message'', JStr ''payment_error''),
               (''code'', case ed_code details of Some c \<Rightarrow> JStr c | None \<Rightarrow> JUndef),
               (''params'', case ed_params details of Some p \<Rightarrow> p | None \<Rightarrow> JUndef)])"

fun is_number :: "jsval \<Rightarrow> bool" where
  "is_number (JNum _) = True"
| "is_number _ = False"

definition unavailable_text :: string where
  "unavailable_text = ''Payment is temporarily unavailable. Try again.''"

definition between_text :: string where
  "between_text = ''Enter an amount between {{min}} and {{max}}.''"

definition getPaymentErrorMessage :: "jsval \<Rightarrow> translate \<Rightarrow> string" where
  "getPaymentErrorMessage source t =
     (if \<not> truthy source \<or> \<not> is_object source then t unavailable_text []
      else let details = getPaymentErrorDetails source;
               normalizedCode = to_upper (case ed_code details of Some c \<Rightarrow> c | None \<Rightarrow> []);
               param = (\<lambda>k. case ed_params details of Some p \<Rightarrow> js_get p k | None \<Rightarrow> JUndef)
           in if truthy_str (ed_code details)
              then if normalizedCode = ''PAYMENT_AMOUNT_INVALID'' \<and> is_number (param ''min'')
                      \<and> is_number (param ''max'')
                   then t between_text [(''min'', param ''min''), (''max'', param ''max'')]
                   else (case map_of PAYMENT_ERROR_MESSAGES normalizedCode of
                           Some message \<Rightarrow>
                             if message \<noteq> [] then t message [] else t unavailable_text []
                         | None \<Rightarrow> t unavailable_text [])
              else t unavailable_text [])"

section \<open>Lemmas\<close>

definition safe_target :: "Location \<Rightarrow> Url \<Rightarrow> bool" where
  "safe_target location url \<longleftrightarrow> u_username url = [] \<and> u_password url = []
     \<and> (u_protocol url = ''https:'' \<or> u_protocol url = ''http:''
          \<and> isLoopbackHostname (u_hostname url) \<and> isLoopbackHostname (loc_hostname location))"

lemma safe_url_iff:
  "getSafePaymentUrl new_url (Some loc) value = Some url \<longleftrightarrow>
   new_url value (Some (loc_origin loc)) = Inr url \<and> safe_target loc url"
  by (auto simp: getSafePaymentUrl_def safe_target_def Let_def split: sum.splits)

lemma safe_url_no_window: "getSafePaymentUrl new_url None value = None"
  by (simp add: getSafePaymentUrl_def)

lemma paths_differ: "continue_path a \<noteq> authorize_path b"
proof
  assume "continue_path a = authorize_path b"
  then have "last (continue_path a) = last (authorize_path b)"
    "last (butlast (continue_path a)) = last (butlast (authorize_path b))" by simp_all
  then show False by (simp add: continue_path_def authorize_path_def butlast_append)
qed

lemma path_inj:
  "continue_path a = continue_path b \<Longrightarrow> a = b" "authorize_path a = authorize_path b \<Longrightarrow> a = b"
  by (auto simp: continue_path_def authorize_path_def intro: encodeURIComponent_inj)

lemma continue_url_iff:
  "getSafePaymentContinueUrl new_url (Some loc) value t = Some url \<longleftrightarrow>
   t \<noteq> [] \<and> length t \<le> 128 \<and> new_url value (Some (loc_origin loc)) = Inr url
   \<and> own_url loc (continue_path t) url"
  by (auto simp: getSafePaymentContinueUrl_def split: sum.splits)

lemma authorize_url_iff:
  "getSafeWeChatAuthorizationUrl new_url (Some loc) value t = Some url \<longleftrightarrow>
   (\<exists>v. value = Some v \<and> v \<noteq> [] \<and> t \<noteq> [] \<and> length t \<le> 128
      \<and> new_url v (Some (loc_origin loc)) = Inr url \<and> own_url loc (authorize_path t) url)"
  by (auto simp: getSafeWeChatAuthorizationUrl_def truthy_str_def split: sum.splits option.splits)

lemma split_address_decomp:
  assumes "split_address n schemes s = Some (host, path)"
  obtains scheme where "scheme \<in> set schemes" "s = scheme @ ''://'' @ host @ path" "host \<noteq> []"
    "hd path = CHR ''/''" "n < length path" "CHR ''?'' \<notin> set path" "CHR ''#'' \<notin> set path"
proof -
  from assms obtain scheme where sc: "find (\<lambda>scheme. prefix (scheme @ ''://'') s) schemes = Some scheme"
    and h: "host = takeWhile (\<lambda>c. c \<notin> set ''/?#'') (drop (length scheme + 3) s)"
    and p: "path = dropWhile (\<lambda>c. c \<notin> set ''/?#'') (drop (length scheme + 3) s)"
    and c: "host \<noteq> []" "path \<noteq> []" "hd path = CHR ''/''" "list_all (\<lambda>c. c \<notin> set ''?#'') path" "n < length path"
    by (auto simp: split_address_def Let_def split: option.splits if_splits)
  have pre: "scheme \<in> set schemes" "prefix (scheme @ ''://'') s"
    using sc by (auto simp: find_Some_iff)
  then obtain r where r: "s = scheme @ ''://'' @ r" by (auto simp: prefix_def)
  then have "drop (length scheme + 3) s = r" by simp
  then have "r = host @ path" by (simp only: h p takeWhile_dropWhile_id)
  with r pre(1) c show ?thesis by (intro that [of scheme]) (auto simp: list_all_iff)
qed

lemma details_code:
  "ed_code (getPaymentErrorDetails (createPaymentError s)) = ed_code (getPaymentErrorDetails s)"
  "ed_code (getPaymentErrorDetails s) \<noteq> None \<Longrightarrow>
   ed_params (getPaymentErrorDetails (createPaymentError s)) = ed_params (getPaymentErrorDetails s)"
proof -
  let ?d = "getPaymentErrorDetails s"
  have p: "is_nonnull_object p" if "ed_params ?d = Some p" for p
    using that
    by (induction s rule: getPaymentErrorDetails.induct)
       (subst (asm) (2) getPaymentErrorDetails.simps, auto split: if_splits option.splits)
  show "ed_code (getPaymentErrorDetails (createPaymentError s)) = ed_code ?d"
    by (subst getPaymentErrorDetails.simps) (simp add: createPaymentError_def Let_def split: option.splits)
  show "ed_params (getPaymentErrorDetails (createPaymentError s)) = ed_params ?d" if "ed_code ?d \<noteq> None"
    using that p
    by (subst getPaymentErrorDetails.simps)
       (auto simp: createPaymentError_def Let_def is_nonnull_object_def split: option.splits)
qed

lemma qr_cases:
  assumes "isSafePaymentQrContent new_url v"
  shows "trim v = v" "v \<noteq> []" "length v \<le> 4096" "\<forall>c \<in> set v. 31 < code c \<and> code c \<noteq> 127"
    "CHR 0x5C \<notin> set v" "CHR ''#'' \<notin> set v"
    "weixin_qr new_url v
     \<or> (\<exists>host path. split_address 0 [''https'', ''http''] v = Some (host, path)
          \<and> to_lower host = ''ipay.yltg.com.cn'' \<and> hosted_qr_path path)
     \<or> (\<exists>host path. split_address 1 [''https''] v = Some (host, path)
          \<and> to_lower host = ''qr.alipay.com'' \<and> alipay_qr_path path)"
proof -
  have *: "trim v = v" "v \<noteq> []" "length v \<le> 4096" "\<not> hasForbiddenPaymentControlCharacters v"
    "\<not> contains v [CHR 0x5C]" "\<not> contains v ''#''"
    using assms by (auto simp: isSafePaymentQrContent_def Let_def split: if_splits)
  then show "trim v = v" "v \<noteq> []" "length v \<le> 4096" by simp_all
  show "\<forall>c \<in> set v. 31 < code c \<and> code c \<noteq> 127"
    using *(4) by (auto simp: hasForbiddenPaymentControlCharacters_def list_ex_iff not_le)
  have "c \<notin> set v" if "\<not> contains v [c]" for c
    using that by (auto simp: contains_iff_sublist sublist_def in_set_conv_decomp)
  then show "CHR 0x5C \<notin> set v" "CHR ''#'' \<notin> set v" using *(5,6) by blast+
  show "weixin_qr new_url v
     \<or> (\<exists>host path. split_address 0 [''https'', ''http''] v = Some (host, path)
          \<and> to_lower host = ''ipay.yltg.com.cn'' \<and> hosted_qr_path path)
     \<or> (\<exists>host path. split_address 1 [''https''] v = Some (host, path)
          \<and> to_lower host = ''qr.alipay.com'' \<and> alipay_qr_path path)"
    using assms by (auto simp: isSafePaymentQrContent_def Let_def split: if_splits)
qed

section \<open>Properties\<close>

text \<open>
  (C19) The page is sent, and a payment form submitted, only to a parsed address without
  credentials that uses https, or http when both it and the page are on the loopback host; when
  the address is refused nothing happens. The form carries exactly the given
  parameters, each as text.
\<close>

theorem payment_targets_are_safe:
  "(case navigateToPaymentUrl new_url window value assigned of
      (False, assigned') \<Rightarrow> assigned' = assigned
    | (True, assigned') \<Rightarrow>
        \<exists>loc url. window = Some loc \<and> new_url value (Some (loc_origin loc)) = Inr url
          \<and> safe_target loc url \<and> assigned' = assigned @ [u_href url])
   \<and> (case submitPaymentForm new_url window value params submitted of
      (False, submitted') \<Rightarrow> submitted' = submitted
    | (True, submitted') \<Rightarrow>
        \<exists>loc url form. window = Some loc \<and> new_url value (Some (loc_origin loc)) = Inr url
          \<and> safe_target loc url \<and> submitted' = submitted @ [form] \<and> fo_action form = u_href url
          \<and> fo_method form = ''POST'' \<and> fo_referrerPolicy form = ''no-referrer''
          \<and> fo_inputs form = map (\<lambda>(k, v). (k, js_to_string v)) params)"
proof (cases window)
  case None
  then show ?thesis
    by (simp add: navigateToPaymentUrl_def submitPaymentForm_def safe_url_no_window)
next
  case (Some loc)
  show ?thesis
  proof (cases "getSafePaymentUrl new_url window value")
    case n: None
    then show ?thesis by (simp add: navigateToPaymentUrl_def submitPaymentForm_def)
  next
    case u: (Some url)
    then show ?thesis
      using Some safe_url_iff [of new_url loc "value" url]
      by (simp add: navigateToPaymentUrl_def submitPaymentForm_def)
  qed
qed

text \<open>
  (C34) The address that continues an order is on the page's own origin, with exactly the path of
  that order and neither credentials, query nor fragment. An address accepted for one order is
  accepted for no other, and an address that continues an order never authorises one.
\<close>

theorem order_urls_are_own:
  assumes "getSafePaymentContinueUrl new_url (Some loc) value t = Some url"
  shows "u_origin url = loc_origin loc \<and> u_pathname url = continue_path t
    \<and> u_username url = [] \<and> u_password url = [] \<and> u_search url = [] \<and> u_hash url = []
    \<and> (getSafePaymentContinueUrl new_url (Some loc) value t' = Some url \<longrightarrow> t' = t)
    \<and> getSafeWeChatAuthorizationUrl new_url (Some loc) (Some value) t' = None"
proof -
  have u: "new_url value (Some (loc_origin loc)) = Inr url" "own_url loc (continue_path t) url"
    using assms by (simp_all add: continue_url_iff)
  moreover have "t' = t" if "getSafePaymentContinueUrl new_url (Some loc) value t' = Some url"
    using that u path_inj(1) by (auto simp: continue_url_iff own_url_def)
  moreover have "getSafeWeChatAuthorizationUrl new_url (Some loc) (Some value) t' \<noteq> Some w" for w
    using u paths_differ [of t t'] by (auto simp: authorize_url_iff own_url_def)
  ultimately show ?thesis
    by (cases "getSafeWeChatAuthorizationUrl new_url (Some loc) (Some value) t'")
       (auto simp: own_url_def)
qed

definition example_location :: Location where
  "example_location = \<lparr>loc_origin = ''https://xy.example'', loc_hostname = ''xy.example''\<rparr>"

text \<open>A parser that resolves a path against the origin, for the examples.\<close>

definition path_parser :: url_parser where
  "path_parser value base =
     (case base of
        None \<Rightarrow> Inl TypeError
      | Some origin \<Rightarrow>
          Inr \<lparr>u_href = origin @ value, u_origin = origin, u_protocol = ''https:'', u_username = [],
               u_password = [], u_host = ''xy.example'', u_hostname = ''xy.example'', u_port = [],
               u_pathname = value, u_search = [], u_hash = [], u_entries = []\<rparr>)"

theorem order_urls_are_own_witness:
  "\<exists>url. getSafePaymentContinueUrl path_parser (Some example_location)
       ''/api/user/payment/orders/T1/continue'' ''T1'' = Some url
     \<and> u_pathname url = ''/api/user/payment/orders/T1/continue''"
proof -
  let ?path = "''/api/user/payment/orders/T1/continue''"
  have path: "continue_path ''T1'' = ?path"
    by (simp add: continue_path_def encodeURIComponent_def encode_char_def uri_unreserved_def
        char_class_defs)
  obtain url where url: "path_parser ?path (Some (loc_origin example_location)) = Inr url"
    by (simp add: path_parser_def)
  then have "own_url example_location ?path url"
    by (auto simp: own_url_def path_parser_def example_location_def)
  with url have "getSafePaymentContinueUrl path_parser (Some example_location) ?path ''T1'' = Some url"
    by (simp add: getSafePaymentContinueUrl_def path)
  from order_urls_are_own [OF this] this show ?thesis unfolding path by blast
qed

text \<open>
  (C35) A QR content that passes the check is one of three things, apart from the case of the
  host: a WeChat payment address with one token, an address on \<open>ipay.yltg.com.cn\<close> whose path
  has only plain characters and no parent step, or an https address on \<open>qr.alipay.com\<close> with
  one plain path segment. It has no surrounding space, control character, backslash or fragment,
  and at most 4096 characters.
\<close>

theorem qr_content_is_known:
  assumes "isSafePaymentQrContent new_url v"
  shows "length v \<le> 4096 \<and> trim v = v \<and> (\<forall>c \<in> set v. 31 < code c \<and> code c \<noteq> 127)
    \<and> CHR 0x5C \<notin> set v \<and> CHR ''#'' \<notin> set v
    \<and> ((\<exists>url token. prefix ''weixin://wxpay/bizpayurl?'' v \<and> new_url v None = Inr url
           \<and> u_host url = ''wxpay'' \<and> u_entries url = [(''pr'', token)]
           \<and> list_all word_char token \<and> token \<noteq> [])
      \<or> (\<exists>scheme host path. v = scheme @ ''://'' @ host @ ''/'' @ path
           \<and> scheme \<in> {''http'', ''https''} \<and> to_lower host = ''ipay.yltg.com.cn''
           \<and> list_all hosted_path_char path \<and> \<not> contains (''/'' @ path) ''/../''
           \<and> \<not> suffix ''/..'' (''/'' @ path))
      \<or> (\<exists>host path. v = ''https://'' @ host @ ''/'' @ path \<and> to_lower host = ''qr.alipay.com''
           \<and> list_all alipay_path_char path \<and> path \<noteq> []))"
proof -
  note q = qr_cases [OF assms]
  from q(7) consider (weixin) "weixin_qr new_url v"
    | (hosted) host path where "split_address 0 [''https'', ''http''] v = Some (host, path)"
        "to_lower host = ''ipay.yltg.com.cn''" "hosted_qr_path path"
    | (alipay) host path where "split_address 1 [''https''] v = Some (host, path)"
        "to_lower host = ''qr.alipay.com''" "alipay_qr_path path" by blast
  then have "(\<exists>url token. prefix ''weixin://wxpay/bizpayurl?'' v \<and> new_url v None = Inr url
           \<and> u_host url = ''wxpay'' \<and> u_entries url = [(''pr'', token)]
           \<and> list_all word_char token \<and> token \<noteq> [])
      \<or> (\<exists>scheme host path. v = scheme @ ''://'' @ host @ ''/'' @ path
           \<and> scheme \<in> {''http'', ''https''} \<and> to_lower host = ''ipay.yltg.com.cn''
           \<and> list_all hosted_path_char path \<and> \<not> contains (''/'' @ path) ''/../''
           \<and> \<not> suffix ''/..'' (''/'' @ path))
      \<or> (\<exists>host path. v = ''https://'' @ host @ ''/'' @ path \<and> to_lower host = ''qr.alipay.com''
           \<and> list_all alipay_path_char path \<and> path \<noteq> [])"
  proof cases
    case weixin
    then show ?thesis
      by (intro disjI1)
         (auto simp: weixin_qr_def matches_class_def length_Suc_conv split: sum.splits prod.splits)
  next
    case hosted
    obtain scheme where s: "scheme \<in> set [''https'', ''http'']" "v = scheme @ ''://'' @ host @ path"
      using split_address_decomp [OF hosted(1)] by blast
    obtain p where "path = CHR ''/'' # p" using hosted(3) by (cases path) (auto simp: hosted_qr_path_def)
    then show ?thesis using s hosted(2,3)
      by (intro disjI2 disjI1 exI [of _ scheme] exI [of _ host] exI [of _ p]) (auto simp: hosted_qr_path_def)
  next
    case alipay
    obtain scheme where s: "scheme \<in> set [''https'']" "v = scheme @ ''://'' @ host @ path"
      using split_address_decomp [OF alipay(1)] by blast
    obtain p where "path = CHR ''/'' # p" using alipay(3) by (cases path) (auto simp: alipay_qr_path_def)
    then show ?thesis using s alipay(2,3)
      by (intro disjI2 exI [of _ host] exI [of _ p]) (auto simp: alipay_qr_path_def)
  qed
  with q(1-6) show ?thesis by blast
qed

theorem qr_content_is_known_witness:
  "isSafePaymentQrContent path_parser ''https://qr.alipay.com/ab1'' \<and>
   trim ''https://qr.alipay.com/ab1'' = ''https://qr.alipay.com/ab1''"
proof -
  have "trim ''https://qr.alipay.com/ab1'' = ''https://qr.alipay.com/ab1''"
    by (rule trim_fixed) (simp add: is_ws_def is_line_end_def)
  then have "isSafePaymentQrContent path_parser ''https://qr.alipay.com/ab1''"
    by (simp add: isSafePaymentQrContent_def Let_def hasForbiddenPaymentControlCharacters_def
        contains_def index_of_Cons split_address_def to_lower_def lower_char_def alipay_qr_path_def
        alipay_path_char_def char_class_defs)
  from qr_content_is_known [OF this] this show ?thesis by blast
qed

definition error_vocabulary :: "string set" where
  "error_vocabulary = insert unavailable_text (insert between_text (snd ` set PAYMENT_ERROR_MESSAGES))"

lemma fixed_texts:
  "unavailable_text \<in> error_vocabulary" "between_text \<in> error_vocabulary"
  "map_of PAYMENT_ERROR_MESSAGES c = Some m \<Longrightarrow> m \<in> error_vocabulary"
  unfolding error_vocabulary_def by (auto dest!: map_of_SomeD intro: rev_image_eqI)

lemma is_number_iff: "is_number v \<longleftrightarrow> (\<exists>n. v = JNum n)"
  by (cases v) auto

lemma error_message_cases:
  obtains "getPaymentErrorMessage s t = t unavailable_text []"
  | a b where "getPaymentErrorMessage s t = t between_text [(''min'', JNum a), (''max'', JNum b)]"
  | c m where "getPaymentErrorMessage s t = t m []" "map_of PAYMENT_ERROR_MESSAGES c = Some m"
proof -
  define d where "d = getPaymentErrorDetails s"
  define c where "c = to_upper (case ed_code d of Some c \<Rightarrow> c | None \<Rightarrow> [])"
  define param where "param = (\<lambda>k. case ed_params d of Some p \<Rightarrow> js_get p k | None \<Rightarrow> JUndef)"
  have m: "getPaymentErrorMessage s t =
      (if \<not> truthy s \<or> \<not> is_object s then t unavailable_text []
       else if truthy_str (ed_code d)
       then if c = ''PAYMENT_AMOUNT_INVALID'' \<and> is_number (param ''min'') \<and> is_number (param ''max'')
            then t between_text [(''min'', param ''min''), (''max'', param ''max'')]
            else (case map_of PAYMENT_ERROR_MESSAGES c of
                    Some message \<Rightarrow> if message \<noteq> [] then t message [] else t unavailable_text []
                  | None \<Rightarrow> t unavailable_text [])
       else t unavailable_text [])"
    unfolding getPaymentErrorMessage_def Let_def d_def [symmetric] c_def [symmetric] param_def ..
  have "getPaymentErrorMessage s t = t unavailable_text []
    \<or> getPaymentErrorMessage s t = t between_text [(''min'', param ''min''), (''max'', param ''max'')]
      \<and> is_number (param ''min'') \<and> is_number (param ''max'')
    \<or> (\<exists>m. getPaymentErrorMessage s t = t m [] \<and> map_of PAYMENT_ERROR_MESSAGES c = Some m)"
    unfolding m by (simp split: option.split)
  then show ?thesis using that unfolding is_number_iff by metis
qed

text \<open>
  (C36) Whatever was caught, the error shown is one of the fixed texts, with at most the two
  limits as numbers: no text of the server reaches the user. Wrapping the caught value as a
  payment error does not change the text.
\<close>

theorem error_texts_are_fixed:
  "\<exists>key args. getPaymentErrorMessage source t = t key args \<and> key \<in> error_vocabulary
     \<and> (args = [] \<or> (\<exists>a b. key = between_text \<and> args = [(''min'', JNum a), (''max'', JNum b)]))
     \<and> getPaymentErrorMessage (createPaymentError source) t = t key args"
proof -
  have shown: "\<exists>key args. getPaymentErrorMessage s t = t key args \<and> key \<in> error_vocabulary
     \<and> (args = [] \<or> (\<exists>a b. key = between_text \<and> args = [(''min'', JNum a), (''max'', JNum b)]))" for s
    by (rule error_message_cases [of s t]) (use fixed_texts in blast)+
  have none: "ed_code (getPaymentErrorDetails source) = None" if "\<not> truthy source \<or> \<not> is_object source"
    using that by (subst getPaymentErrorDetails.simps) simp
  have "getPaymentErrorMessage (createPaymentError source) t = getPaymentErrorMessage source t"
  proof (cases "ed_code (getPaymentErrorDetails source)")
    case None
    then show ?thesis
      using details_code(1) [of source]
      by (simp add: getPaymentErrorMessage_def Let_def truthy_str_def)
  next
    case (Some c)
    then have "truthy source \<and> is_object source" using none by fastforce
    moreover have "truthy (createPaymentError source)" "is_object (createPaymentError source)"
      by (simp_all add: createPaymentError_def Let_def)
    ultimately show ?thesis
      using details_code [of source] Some by (simp add: getPaymentErrorMessage_def Let_def)
  qed
  with shown [of source] show ?thesis by metis
qed

text \<open>
  A thrown value's own code comes before the code in the body it carries. The client library sets
  such a code on every failed response, so the server's reason is then not shown.
\<close>

lemma own_code_hides_server_code:
  "getPaymentErrorMessage (JObj [(''code'', JStr ''ERR_BAD_REQUEST''),
     (''response'', JObj [(''data'', JObj [(''code'', JStr ''PAYMENT_ORDER_EXPIRED'')])])]) t
   = t ''Payment is temporarily unavailable. Try again.'' []"
  "getPaymentErrorMessage (JObj
     [(''response'', JObj [(''data'', JObj [(''code'', JStr ''PAYMENT_ORDER_EXPIRED'')])])]) t
   = t ''Payment expired'' []"
  by code_simp+

end
