(* ===== verification/Wl_Amount.thy ===== *)
theory Wl_Amount
  imports Wl_Method
begin

text \<open>
  Amounts, limits and states of payments: the numeric helpers of
  \<open>features/wallet/lib/payment.ts\<close>, \<open>lib/format.ts\<close> and \<open>lib/billing.ts\<close>.
  Numbers are binary64. The number formatter of the platform (\<open>Intl.NumberFormat\<close>) is a
  parameter.
\<close>

section \<open>Arithmetic\<close>

text \<open>Subtraction and division of binary64 numbers.\<close>

definition js_sub :: "jsnum \<Rightarrow> jsnum \<Rightarrow> jsnum" where
  "js_sub x y = (case (x, y) of
     (Fin a, Fin b) \<Rightarrow> to_double (a - b)
   | (NaN, _) \<Rightarrow> NaN
   | (_, NaN) \<Rightarrow> NaN
   | (Fin _, PosInf) \<Rightarrow> NegInf
   | (Fin _, NegInf) \<Rightarrow> PosInf
   | (PosInf, PosInf) \<Rightarrow> NaN
   | (NegInf, NegInf) \<Rightarrow> NaN
   | (i, _) \<Rightarrow> i)"

definition js_div :: "jsnum \<Rightarrow> jsnum \<Rightarrow> jsnum" where
  "js_div x y = (case (x, y) of
     (Fin a, Fin b) \<Rightarrow>
       if b = 0 then js_infinity (js_sign x) else to_double (a / b)
   | (NaN, _) \<Rightarrow> NaN
   | (_, NaN) \<Rightarrow> NaN
   | (Fin _, _) \<Rightarrow> Fin 0
   | (i, Fin b) \<Rightarrow> js_infinity (js_sign i * (if b < 0 then - 1 else 1))
   | _ \<Rightarrow> NaN)"

text \<open>\<open>Math.round\<close> and \<open>Math.min\<close>.\<close>

definition js_round :: "jsnum \<Rightarrow> jsnum" where
  "js_round x = (case x of Fin a \<Rightarrow> Fin (of_int \<lfloor>a + 1 / 2\<rfloor>) | _ \<Rightarrow> x)"

definition js_min :: "jsnum \<Rightarrow> jsnum \<Rightarrow> jsnum" where
  "js_min x y = (if x = NaN \<or> y = NaN then NaN else if js_less y x then y else x)"

section \<open>Payment states\<close>

datatype PublicPaymentStatusCode = Preparing | Awaiting_payment | Confirming | Succeeded | Expired
  | Temporarily_unavailable

definition getEffectivePaymentStatus ::
  "PublicPaymentStatusCode \<Rightarrow> jsnum \<Rightarrow> jsnum \<Rightarrow> PublicPaymentStatusCode"
where
  "getEffectivePaymentStatus status expiresAt nowMs =
     (if js_less (Fin 0) expiresAt \<and> js_leq (js_mul expiresAt (Fin 1000)) nowMs
         \<and> (status = Preparing \<or> status = Awaiting_payment)
      then Expired else status)"

section \<open>Limits\<close>

definition DEFAULT_PRESET_MULTIPLIERS :: "jsnum list" where
  "DEFAULT_PRESET_MULTIPLIERS = map Fin [1, 5, 10, 30, 50, 100, 300, 500]"

definition DEFAULT_MIN_TOPUP :: jsnum where
  "DEFAULT_MIN_TOPUP = Fin 1"

definition MAX_TOPUP_AMOUNT :: jsnum where
  "MAX_TOPUP_AMOUNT = Fin 10000"

definition DEFAULT_DISCOUNT_RATE :: jsnum where
  "DEFAULT_DISCOUNT_RATE = Fin 1"

record PaymentProduct =
  pp_product_id :: string
  pp_route_id :: string
  pp_name :: string
  pp_payment_amount :: string
  pp_top_up_amount :: jsnum
  pp_currency :: string

record PaymentRouteOption =
  ro_option_id :: string
  ro_route_id :: string
  ro_public_label :: string

record TopupInfo =
  ti_online_payment_available :: "bool option"
  ti_payment_routes :: "PaymentMethod list"
  ti_subscription_payment_routes :: "PaymentMethod list option"
  ti_payment_products :: "PaymentProduct list"
  ti_payment_route_options :: "PaymentRouteOption list"
  ti_min_topup :: jsnum
  ti_amount_options :: "jsnum list"
  ti_discount :: "(string \<times> jsnum) list"
  ti_affiliate_continuous_percent :: "jsnum option"
  ti_affiliate_first_topup_percent :: "jsnum option"
  ti_topup_link :: "string option"
  ti_enable_redemption :: "bool option"
  ti_payment_compliance_confirmed :: "bool option"
  ti_payment_compliance_terms_version :: "string option"

record PresetAmount =
  pa_value :: jsnum
  pa_discount :: "jsnum option"

definition getDefaultPaymentMethod :: "TopupInfo option \<Rightarrow> PaymentMethod option" where
  "getDefaultPaymentMethod topupInfo =
     (case topupInfo of
        None \<Rightarrow> None
      | Some info \<Rightarrow> find (\<lambda>method. pm_checkout_mode method = ModeQuote
          \<or> pm_checkout_mode method = ModeDirect) (ti_payment_routes info))"

definition route_minimums :: "PaymentMethod list \<Rightarrow> jsnum list" where
  "route_minimums routes =
     filter (\<lambda>minimum. is_finite minimum \<and> js_less (Fin 0) minimum)
       (map (\<lambda>route. case pm_min_topup route of Some m \<Rightarrow> m | None \<Rightarrow> NaN)
          (filter (\<lambda>route. pm_checkout_mode route \<noteq> ModeProduct) routes))"

definition getMinTopupAmount :: "TopupInfo option \<Rightarrow> jsnum" where
  "getMinTopupAmount topupInfo =
     (case topupInfo of
        None \<Rightarrow> DEFAULT_MIN_TOPUP
      | Some info \<Rightarrow>
          let routeMinimums = route_minimums (ti_payment_routes info)
          in if 0 < length routeMinimums then fold js_min routeMinimums PosInf
             else if truthy_num (ti_min_topup info) then ti_min_topup info else DEFAULT_MIN_TOPUP)"

definition generatePresetAmounts :: "jsnum \<Rightarrow> PresetAmount list" where
  "generatePresetAmounts minAmount =
     filter (\<lambda>preset. is_safe_integer (pa_value preset) \<and> js_leq minAmount (pa_value preset)
         \<and> js_leq (pa_value preset) MAX_TOPUP_AMOUNT)
       (map (\<lambda>multiplier. \<lparr>pa_value = js_mul minAmount multiplier, pa_discount = None\<rparr>)
          DEFAULT_PRESET_MULTIPLIERS)"

text \<open>A property key is the number printed; \<open>discounts[amount] || 1.0\<close>.\<close>

definition mergePresetAmounts :: "jsnum list \<Rightarrow> (string \<times> jsnum) list \<Rightarrow> PresetAmount list" where
  "mergePresetAmounts amountOptions discounts =
     (if amountOptions = [] then []
      else map (\<lambda>amount. \<lparr>pa_value = amount,
               pa_discount = Some (case map_of discounts (number_to_string amount) of
                 Some d \<Rightarrow> if truthy_num d then d else Fin 1 | None \<Rightarrow> Fin 1)\<rparr>)
             (filter (\<lambda>amount. is_safe_integer amount \<and> js_leq (Fin 1) amount
                \<and> js_leq amount MAX_TOPUP_AMOUNT) amountOptions))"

section \<open>Display\<close>

definition formatQuotaShort :: "jsnum \<Rightarrow> string" where
  "formatQuotaShort quota =
     (if js_leq (Fin 1000000) quota then to_fixed (js_div quota (Fin 1000000)) 1 @ ''M''
      else if js_leq (Fin 1000) quota then to_fixed (js_div quota (Fin 1000)) 1 @ ''K''
      else number_to_string quota)"

definition getDiscountLabel :: "jsnum \<Rightarrow> string" where
  "getDiscountLabel discount =
     (if js_leq DEFAULT_DISCOUNT_RATE discount then []
      else number_to_string (js_round (js_mul (js_sub (Fin 1) discount) (Fin 100))) @ ''% OFF'')"

record PresetPricing =
  pr_displayValue :: jsnum
  pr_originalPrice :: jsnum
  pr_actualPrice :: jsnum
  pr_savedAmount :: jsnum
  pr_hasDiscount :: bool

definition calculatePresetPricing :: "jsnum \<Rightarrow> jsnum \<Rightarrow> jsnum \<Rightarrow> jsnum \<Rightarrow> PresetPricing" where
  "calculatePresetPricing presetValue priceRatio discount usdExchangeRate =
     (let originalPrice = js_mul presetValue priceRatio;
          actualPrice = js_mul originalPrice discount
      in \<lparr>pr_displayValue = js_mul presetValue usdExchangeRate, pr_originalPrice = originalPrice,
          pr_actualPrice = actualPrice, pr_savedAmount = js_sub originalPrice actualPrice,
          pr_hasDiscount = js_less discount (Fin 1)\<rparr>)"

record StatusConfig =
  sc_variant :: string
  sc_label :: string

fun STATUS_CONFIG :: "PublicPaymentStatusCode \<Rightarrow> StatusConfig" where
  "STATUS_CONFIG Preparing = \<lparr>sc_variant = ''warning'', sc_label = ''Preparing payment''\<rparr>"
| "STATUS_CONFIG Awaiting_payment = \<lparr>sc_variant = ''warning'', sc_label = ''Waiting for payment''\<rparr>"
| "STATUS_CONFIG Confirming = \<lparr>sc_variant = ''info'', sc_label = ''Confirming payment''\<rparr>"
| "STATUS_CONFIG Succeeded = \<lparr>sc_variant = ''success'', sc_label = ''Payment completed''\<rparr>"
| "STATUS_CONFIG Temporarily_unavailable =
     \<lparr>sc_variant = ''danger'', sc_label = ''Payment temporarily unavailable''\<rparr>"
| "STATUS_CONFIG Expired = \<lparr>sc_variant = ''danger'', sc_label = ''Expired''\<rparr>"

text \<open>A status that is none of the six (\<open>None\<close>) shows as temporarily unavailable.\<close>

definition getStatusConfig :: "PublicPaymentStatusCode option \<Rightarrow> StatusConfig" where
  "getStatusConfig status =
     (case status of Some s \<Rightarrow> STATUS_CONFIG s | None \<Rightarrow> STATUS_CONFIG Temporarily_unavailable)"

definition getOrderKindName :: "string option \<Rightarrow> (string \<Rightarrow> string) option \<Rightarrow> string" where
  "getOrderKindName orderKind t =
     (let name = (if orderKind = Some ''subscription'' then ''Subscription'' else ''Top-up'')
      in case t of Some f \<Rightarrow> f name | None \<Rightarrow> name)"

definition usesStripeTwoDecimalMinorUnit :: "string \<Rightarrow> string option \<Rightarrow> bool" where
  "usesStripeTwoDecimalMinorUnit currency provider \<longleftrightarrow>
     map_option to_lower provider = Some ''stripe'' \<and> (currency = ''ISK'' \<or> currency = ''UGX'')"

text \<open>A formatter of the platform, made for a currency, with two forced digits or not.\<close>

record Formatter =
  fm_format :: "jsnum \<Rightarrow> string"
  fm_maximumFractionDigits :: "nat option"

type_synonym intl = "string \<Rightarrow> bool \<Rightarrow> js_error + Formatter"

definition normalized_currency :: "string \<Rightarrow> string" where
  "normalized_currency currency =
     (if matches_class is_upper 3 3 (to_upper currency) then to_upper currency else ''USD'')"

definition currency_formatter :: "intl \<Rightarrow> string \<Rightarrow> bool \<Rightarrow> js_error + Formatter" where
  "currency_formatter intl currency twoDecimal =
     (case intl currency twoDecimal of Inr f \<Rightarrow> Inr f | Inl _ \<Rightarrow> intl ''USD'' False)"

definition formatPaymentMinorAmount ::
  "intl \<Rightarrow> jsnum \<Rightarrow> string \<Rightarrow> string option \<Rightarrow> js_error + string"
where
  "formatPaymentMinorAmount intl amountMinor currency provider =
     (let normalizedCurrency = normalized_currency currency;
          twoDecimal = usesStripeTwoDecimalMinorUnit normalizedCurrency provider
      in case currency_formatter intl normalizedCurrency twoDecimal of
           Inl e \<Rightarrow> Inl e
         | Inr formatter \<Rightarrow>
             let fractionDigits = (if twoDecimal then 2
                   else (case fm_maximumFractionDigits formatter of Some n \<Rightarrow> n | None \<Rightarrow> 2));
                 divisor = to_double (10 ^ fractionDigits)
             in Inr (fm_format formatter
                  (js_div (if is_finite amountMinor then amountMinor else Fin 0) divisor)))"

definition formatPaymentDecimalAmount ::
  "intl \<Rightarrow> jsval \<Rightarrow> string \<Rightarrow> string option \<Rightarrow> js_error + string"
where
  "formatPaymentDecimalAmount intl amount currency provider =
     (let numericAmount = to_number amount;
          normalizedCurrency = normalized_currency currency;
          twoDecimal = usesStripeTwoDecimalMinorUnit normalizedCurrency provider
      in case currency_formatter intl normalizedCurrency twoDecimal of
           Inl e \<Rightarrow> Inl e
         | Inr formatter \<Rightarrow>
             Inr (fm_format formatter (if is_finite numericAmount then numericAmount else Fin 0)))"

section \<open>Comparisons\<close>

lemma js_leq_Fin [simp]: "js_leq (Fin a) (Fin b) \<longleftrightarrow> a \<le> b"
  by (auto simp: js_leq_def js_num_eq_def)

lemma js_leq_trans: "js_leq x y \<Longrightarrow> js_leq y z \<Longrightarrow> js_leq x z"
  by (cases x; cases y; cases z) (auto simp: js_leq_def js_num_eq_def)

lemma js_leq_finite: "js_leq (Fin a) x \<Longrightarrow> js_leq x (Fin b) \<Longrightarrow> \<exists>r. x = Fin r \<and> a \<le> r \<and> r \<le> b"
  by (cases x) (auto simp: js_leq_def js_num_eq_def)

lemma fold_js_min:
  assumes "\<forall>x \<in> set xs. is_finite x"
  shows "fold js_min xs (Fin a) \<in> insert (Fin a) (set xs)
    \<and> (\<forall>x \<in> insert (Fin a) (set xs). js_leq (fold js_min xs (Fin a)) x)"
  using assms
proof (induction xs arbitrary: a)
  case (Cons x xs)
  then obtain b where b: "x = Fin b" by (cases x) (auto simp: is_finite_def)
  have "js_min x (Fin a) = Fin (if a < b then a else b)" by (simp add: b js_min_def)
  moreover have "js_leq (Fin (if a < b then a else b)) (Fin a)"
    "js_leq (Fin (if a < b then a else b)) (Fin b)" by simp_all
  ultimately show ?case
    using Cons.IH [of "if a < b then a else b"] Cons.prems js_leq_trans b by (auto split: if_splits)
qed (simp add: js_leq_def js_num_eq_def)

lemma fold_js_min_inf:
  assumes "xs \<noteq> []" "\<forall>x \<in> set xs. is_finite x"
  shows "fold js_min xs PosInf \<in> set xs \<and> (\<forall>x \<in> set xs. js_leq (fold js_min xs PosInf) x)"
proof -
  obtain a ys where xs: "xs = Fin a # ys"
    using assms by (cases xs) (auto simp: is_finite_def split: jsnum.splits)
  moreover have "js_min (Fin a) PosInf = Fin a" by (simp add: js_min_def)
  ultimately show ?thesis using fold_js_min [of ys a] assms(2) by auto
qed

lemma js_mul_int:
  assumes "\<bar>a * b\<bar> < 2 ^ 53"
  shows "js_mul (Fin (of_int a)) (Fin (of_int b)) = Fin (of_int (a * b))"
  using is_double_int [OF assms] by (simp add: js_mul_def is_double_def)

lemma safe_int: "\<bar>a\<bar> \<le> MAX_SAFE_INTEGER \<Longrightarrow> is_safe_integer (Fin (of_int a))"
proof -
  assume "\<bar>a\<bar> \<le> MAX_SAFE_INTEGER"
  then have "\<bar>of_int a\<bar> \<le> (of_int MAX_SAFE_INTEGER :: rat)"
    by (simp only: of_int_abs [symmetric] of_int_le_iff)
  then show ?thesis by (simp add: is_safe_integer_def is_int_rat_def)
qed

lemma safe_integerE:
  assumes "is_safe_integer x"
  obtains a where "x = Fin (of_int a)" "\<bar>a\<bar> \<le> MAX_SAFE_INTEGER"
proof -
  obtain r where r: "x = Fin r" "of_int \<lfloor>r\<rfloor> = r" "\<bar>r\<bar> \<le> of_int MAX_SAFE_INTEGER"
    using assms by (auto simp: is_safe_integer_def is_int_rat_def split: jsnum.splits)
  have "\<bar>of_int \<lfloor>r\<rfloor>\<bar> \<le> (of_int MAX_SAFE_INTEGER :: rat)" using r(3) by (simp only: r(2))
  then have "\<bar>\<lfloor>r\<rfloor>\<bar> \<le> MAX_SAFE_INTEGER" by (simp only: of_int_abs [symmetric] of_int_le_iff)
  with r(1) that [of "\<lfloor>r\<rfloor>"] show ?thesis by (simp only: r(2))
qed

section \<open>Properties\<close>

text \<open>
  The presets generated from a minimum are whole amounts between the minimum and 10000,
  whatever number the minimum is. For a whole minimum they are exactly its multiples by the
  fixed factors that do not exceed 10000: no rounding of binary64 shows.
\<close>

theorem presets_within_limits:
  "(\<forall>preset \<in> set (generatePresetAmounts minAmount). \<exists>a. pa_value preset = Fin (of_int a)
      \<and> js_leq minAmount (Fin (of_int a)) \<and> a \<le> 10000)
   \<and> (1 \<le> n \<and> n \<le> 10000 \<longrightarrow>
      generatePresetAmounts (Fin (of_int n)) =
      map (\<lambda>k. \<lparr>pa_value = Fin (of_int (n * k)), pa_discount = None\<rparr>)
        (filter (\<lambda>k. n * k \<le> 10000) [1, 5, 10, 30, 50, 100, 300, 500]))"
proof (intro conjI ballI impI)
  fix preset
  assume "preset \<in> set (generatePresetAmounts minAmount)"
  then have *: "is_safe_integer (pa_value preset)" "js_leq minAmount (pa_value preset)"
    "js_leq (pa_value preset) MAX_TOPUP_AMOUNT" by (auto simp: generatePresetAmounts_def)
  from *(1) obtain a where a: "pa_value preset = Fin (of_int a)" by (rule safe_integerE)
  then have "(of_int a :: rat) \<le> of_int 10000" using *(3) by (simp add: MAX_TOPUP_AMOUNT_def)
  then have "a \<le> 10000" by (simp only: of_int_le_iff)
  with a *(2) show "\<exists>a. pa_value preset = Fin (of_int a) \<and> js_leq minAmount (Fin (of_int a)) \<and> a \<le> 10000"
    by auto
next
  assume n: "1 \<le> n \<and> n \<le> 10000"
  have mul: "js_mul (Fin (of_int n)) (Fin (of_int k)) = Fin (of_int (n * k))"
    "is_safe_integer (Fin (of_int (n * k)))" if "1 \<le> k" "k \<le> 500" for k
  proof -
    have "n * k \<le> 10000 * 500" using n that by (intro mult_mono) auto
    moreover have "0 \<le> n * k" using n that by simp
    ultimately have lt: "\<bar>n * k\<bar> < 2 ^ 53" "\<bar>n * k\<bar> \<le> MAX_SAFE_INTEGER"
      by (simp_all add: MAX_SAFE_INTEGER_def)
    show "js_mul (Fin (of_int n)) (Fin (of_int k)) = Fin (of_int (n * k))" by (rule js_mul_int [OF lt(1)])
    show "is_safe_integer (Fin (of_int (n * k)))" by (rule safe_int [OF lt(2)])
  qed
  have le: "js_leq (Fin (of_int (n * k))) MAX_TOPUP_AMOUNT \<longleftrightarrow> n * k \<le> 10000" for k
  proof -
    have "(of_int (n * k) :: rat) \<le> of_int 10000 \<longleftrightarrow> n * k \<le> 10000" by (rule of_int_le_iff)
    then show ?thesis by (simp add: MAX_TOPUP_AMOUNT_def)
  qed
  have ge: "js_leq (Fin (of_int n)) (Fin (of_int (n * k)))" if "1 \<le> k" for k
  proof -
    have "n * 1 \<le> n * k" using n that by (intro mult_left_mono) auto
    then show ?thesis by (simp only: js_leq_Fin of_int_le_iff mult_1_right)
  qed
  have gen: "filter (\<lambda>preset. is_safe_integer (pa_value preset) \<and> js_leq (Fin (of_int n)) (pa_value preset)
         \<and> js_leq (pa_value preset) MAX_TOPUP_AMOUNT)
       (map (\<lambda>k. \<lparr>pa_value = js_mul (Fin (of_int n)) (Fin (of_int k)), pa_discount = None\<rparr>) ks) =
     map (\<lambda>k. \<lparr>pa_value = Fin (of_int (n * k)), pa_discount = None\<rparr>) (filter (\<lambda>k. n * k \<le> 10000) ks)"
    if "\<forall>k \<in> set ks. 1 \<le> k \<and> k \<le> 500" for ks
    using that by (induction ks) (simp_all add: mul ge le del: of_int_mult js_leq_Fin)
  have "map (\<lambda>m. \<lparr>pa_value = js_mul (Fin (of_int n)) m, pa_discount = None\<rparr>) DEFAULT_PRESET_MULTIPLIERS =
      map (\<lambda>k. \<lparr>pa_value = js_mul (Fin (of_int n)) (Fin (of_int k)), pa_discount = None\<rparr>)
        [1, 5, 10, 30, 50, 100, 300, 500]"
    by (simp add: DEFAULT_PRESET_MULTIPLIERS_def)
  with gen [of "[1, 5, 10, 30, 50, 100, 300, 500]"]
  show "generatePresetAmounts (Fin (of_int n)) =
      map (\<lambda>k. \<lparr>pa_value = Fin (of_int (n * k)), pa_discount = None\<rparr>)
        (filter (\<lambda>k. n * k \<le> 10000) [1, 5, 10, 30, 50, 100, 300, 500])"
    by (simp only: generatePresetAmounts_def) simp
qed

theorem presets_within_limits_witness:
  "map pa_value (generatePresetAmounts (Fin 100)) = [Fin 100, Fin 500, Fin 1000, Fin 3000, Fin 5000, Fin 10000]"
  using presets_within_limits [of "Fin 100" 100] by simp

text \<open>
  The smallest top-up is the least usable minimum of the routes that take an amount: it is
  one of them and below all of them, hence positive and finite. Without such a route it is the
  general minimum, or 1 when that is missing.
\<close>

theorem min_topup_is_least:
  "getMinTopupAmount None = Fin 1
   \<and> (let minimums = route_minimums (ti_payment_routes info); m = getMinTopupAmount (Some info)
      in if minimums = []
         then m = (if truthy_num (ti_min_topup info) then ti_min_topup info else Fin 1)
         else m \<in> set minimums \<and> (\<forall>x \<in> set minimums. js_leq m x) \<and> js_less (Fin 0) m \<and> is_finite m)"
proof -
  let ?ms = "route_minimums (ti_payment_routes info)"
  have ok: "\<forall>x \<in> set ?ms. is_finite x \<and> js_less (Fin 0) x" by (auto simp: route_minimums_def)
  have "getMinTopupAmount (Some info) = fold js_min ?ms PosInf" if "?ms \<noteq> []"
    using that by (simp add: getMinTopupAmount_def)
  moreover have "fold js_min ?ms PosInf \<in> set ?ms \<and> (\<forall>x \<in> set ?ms. js_leq (fold js_min ?ms PosInf) x)"
    if "?ms \<noteq> []" using fold_js_min_inf [OF that] ok by blast
  ultimately show ?thesis
    using ok by (auto simp: Let_def getMinTopupAmount_def DEFAULT_MIN_TOPUP_def)
qed

definition example_info :: TopupInfo where
  "example_info =
     \<lparr>ti_online_payment_available = None,
      ti_payment_routes = [(example_route ''a'' ''alipay'' ''qr'')\<lparr>pm_min_topup := Some (Fin 20)\<rparr>,
        (example_route ''b'' ''card'' ''checkout'')\<lparr>pm_min_topup := Some (Fin 5)\<rparr>],
      ti_subscription_payment_routes = None, ti_payment_products = [], ti_payment_route_options = [],
      ti_min_topup = Fin 1, ti_amount_options = [], ti_discount = [],
      ti_affiliate_continuous_percent = None, ti_affiliate_first_topup_percent = None,
      ti_topup_link = None, ti_enable_redemption = None, ti_payment_compliance_confirmed = None,
      ti_payment_compliance_terms_version = None\<rparr>"

theorem min_topup_is_least_witness:
  "getMinTopupAmount (Some example_info) \<in> {Fin 20, Fin 5} \<and>
   js_leq (getMinTopupAmount (Some example_info)) (Fin 5)"
proof -
  have "route_minimums (ti_payment_routes example_info) = [Fin 20, Fin 5]"
    by (simp add: route_minimums_def example_info_def example_route_def is_finite_def)
  with min_topup_is_least [of example_info] show ?thesis by (simp add: Let_def)
qed

text \<open>
  The state shown for an order is the state received, except that an order that still waits
  for its payment is shown as expired from its expiry on, and from then on at every later time.
  Orders that are confirming, paid or failed are never shown as expired.
\<close>

theorem effective_status_expires:
  "(getEffectivePaymentStatus status expiresAt now = status
    \<or> getEffectivePaymentStatus status expiresAt now = Expired
      \<and> status \<in> {Preparing, Awaiting_payment} \<and> js_leq (js_mul expiresAt (Fin 1000)) now)
   \<and> (js_leq now later \<and> getEffectivePaymentStatus status expiresAt now = Expired \<longrightarrow>
      getEffectivePaymentStatus status expiresAt later = Expired)
   \<and> (js_leq now later \<longrightarrow>
      getEffectivePaymentStatus (getEffectivePaymentStatus status expiresAt now) expiresAt later =
      getEffectivePaymentStatus status expiresAt later)"
  by (auto simp: getEffectivePaymentStatus_def dest: js_leq_trans)

theorem effective_status_expires_witness:
  "getEffectivePaymentStatus Preparing (Fin 2) (Fin 2000) = Expired \<and>
   getEffectivePaymentStatus Preparing (Fin 2) (Fin 3000) = Expired"
proof -
  have "js_mul (Fin (of_int 2)) (Fin (of_int 1000)) = Fin (of_int (2 * 1000))" by (rule js_mul_int) simp
  then have "getEffectivePaymentStatus Preparing (Fin 2) (Fin 2000) = Expired"
    by (simp add: getEffectivePaymentStatus_def)
  with effective_status_expires [of Preparing "Fin 2" "Fin 2000" "Fin 3000"] show ?thesis by simp
qed

end
