(* ===== verification/Js_Rounding.thy ===== *)
theory Js_Rounding
  imports Js_Number
begin

text \<open>
  How far a binary64 number is from the rational it rounds, and what \<open>toFixed\<close> prints of the
  quotient of a whole number by a power of ten.
\<close>

section \<open>The rounding error\<close>

lemma bits_lower: "0 < n \<Longrightarrow> 2 ^ (bits n - 1) \<le> n"
proof (induction n rule: bits.induct)
  case (1 n)
  show ?case
  proof (cases "n div 2 = 0")
    case True
    then have "n = 1" using "1.prems" by linarith
    then show ?thesis by (simp add: bits.simps)
  next
    case False
    have "bits n = Suc (bits (n div 2))" using "1.prems" by (subst bits.simps) simp
    moreover have "0 < bits (n div 2)" using False by (subst bits.simps) simp
    ultimately have "2 ^ (bits n - 1) = 2 * (2 ^ (bits (n div 2) - 1) :: nat)"
      by (cases "bits (n div 2)") simp_all
    also have "\<dots> \<le> 2 * (n div 2)" using "1.IH" False "1.prems" by simp
    finally show ?thesis by linarith
  qed
qed

lemma bits_upper: "n < 2 ^ bits n"
proof (induction n rule: bits.induct)
  case (1 n)
  show ?case
  proof (cases "n = 0")
    case False
    then have b: "bits n = Suc (bits (n div 2))" by (subst bits.simps) simp
    have "n < 2 * (n div 2 + 1)" by simp
    also have "\<dots> \<le> 2 * 2 ^ bits (n div 2)" using "1.IH" False by (simp add: Suc_le_eq)
    finally show ?thesis by (simp add: b)
  qed simp
qed

lemma ilog2_le:
  assumes "0 < x"
  shows "2 powi ilog2 x \<le> x"
proof -
  obtain p q where pq: "quotient_of x = (p, q)" by fastforce
  have x: "x = of_int p / of_int q" using quotient_of_div [OF pq] .
  have q: "0 < q" using quotient_of_denom_pos [OF pq] .
  have p: "0 < p" using assms q unfolding x by (simp add: zero_less_divide_iff)
  define e where "e = int (bits (nat p)) - int (bits (nat q))"
  have bp: "0 < bits (nat p)" using p by (subst bits.simps) simp
  have "2 powi (e - 1) \<le> x"
  proof -
    have "(2 :: rat) ^ (bits (nat p) - 1) \<le> of_nat (nat p)"
      using bits_lower [of "nat p"] p by (metis of_nat_le_iff of_nat_numeral of_nat_power zero_less_nat_eq)
    moreover have "(of_nat (nat q) :: rat) \<le> 2 ^ bits (nat q)"
      using bits_upper [of "nat q"] by (metis less_imp_le of_nat_le_iff of_nat_numeral of_nat_power)
    ultimately have "(2 :: rat) ^ (bits (nat p) - 1) / 2 ^ bits (nat q) \<le> of_nat (nat p) / of_nat (nat q)"
      using p q by (intro frac_le) auto
    moreover have "(2 :: rat) powi (e - 1) = 2 ^ (bits (nat p) - 1) / 2 ^ bits (nat q)"
    proof -
      have "e - 1 = int (bits (nat p) - 1) - int (bits (nat q))" using bp by (simp add: e_def)
      then show ?thesis by (simp add: power_int_diff)
    qed
    ultimately show ?thesis using p q by (simp add: x)
  qed
  then show ?thesis using pq by (simp add: ilog2_def Let_def e_def [symmetric])
qed

lemma round_half_even_error: "\<bar>of_int (round_half_even y) - y\<bar> \<le> 1 / 2"
proof -
  have "of_int \<lfloor>y\<rfloor> \<le> y" "y < of_int \<lfloor>y\<rfloor> + 1" by linarith+
  then show ?thesis by (auto simp: round_half_even_def Let_def abs_le_iff)
qed

lemma to_double_error:
  assumes "2 powi (- 1022) \<le> x" "x < 2 ^ 1023"
  shows "\<exists>v. to_double x = Fin v \<and> \<bar>v - x\<bar> \<le> x / 2 ^ 53"
proof -
  have x: "0 < x" using assms(1) by (metis less_le_trans zero_less_numeral zero_less_power_int)
  define q where "q = ulp_exp x"
  define v :: rat where "v = of_int (round_half_even (x / 2 powi q)) * 2 powi q"
  have p: "(0 :: rat) < 2 powi q" by simp
  have "\<bar>v - x\<bar> = \<bar>of_int (round_half_even (x / 2 powi q)) - x / 2 powi q\<bar> * 2 powi q"
  proof -
    have "v - x = (of_int (round_half_even (x / 2 powi q)) - x / 2 powi q) * 2 powi q"
      using p unfolding v_def by (simp add: left_diff_distrib)
    then show ?thesis using p by (simp add: abs_mult)
  qed
  also have "\<dots> \<le> 1 / 2 * 2 powi q"
    using round_half_even_error p by (intro mult_right_mono) auto
  finally have err: "\<bar>v - x\<bar> \<le> 2 powi q / 2" by simp
  have "(2 :: rat) powi q \<le> x / 2 ^ 52"
  proof (cases "- 1074 \<le> ilog2 x - 52")
    case True
    then have "q = ilog2 x - 52" by (simp add: q_def ulp_exp_def)
    then have "(2 :: rat) powi q = 2 powi ilog2 x / 2 ^ 52" by (simp add: power_int_diff)
    then show ?thesis using ilog2_le [OF x] by (simp add: divide_right_mono)
  next
    case False
    then have "q = - 1022 - 52" by (simp add: q_def ulp_exp_def)
    then have "(2 :: rat) powi q = 2 powi (- 1022) / 2 ^ 52" by (simp only: power_int_diff) simp
    then show ?thesis using assms(1) by (simp only: divide_right_mono) (simp add: divide_right_mono)
  qed
  then have small: "\<bar>v - x\<bar> \<le> x / 2 ^ 53" using err by simp
  have "x / 2 ^ 53 \<le> x" using x by (simp add: field_simps)
  then have "v < 2 * 2 ^ 1023" using small assms(2) by linarith
  also have "(2 :: rat) * 2 ^ 1023 = overflow_bound"
    unfolding overflow_bound_def by (simp only: power_Suc [symmetric]) simp
  finally have "\<not> overflow_bound \<le> v" by simp
  then have "to_double x = Fin v"
    using x unfolding to_double_def Let_def by (simp only: abs_of_pos q_def [symmetric] v_def [symmetric])
      (auto split: if_splits)
  with small show ?thesis by blast
qed

section \<open>\<open>toFixed\<close> of a quotient by a power of ten\<close>

lemma to_fixed_quotient:
  assumes "n < 2 ^ 53" "d \<le> 15"
  obtains m where "to_fixed (to_double (of_nat n / 10 ^ d)) d = fixed_digits m d" "m \<le> n + 1"
    "n < 2 ^ 52 \<Longrightarrow> m = n"
proof (cases "n = 0")
  case True
  then have "to_fixed (to_double (of_nat n / 10 ^ d)) d = fixed_digits 0 d"
    by (simp add: to_double_def)
  with True that [of 0] show ?thesis by simp
next
  case False
  define x :: rat where "x = of_nat n / 10 ^ d"
  have n1: "(1 :: rat) \<le> of_nat n" using False by simp
  have "(10 :: rat) ^ d \<le> 10 ^ 15" using assms(2) by (intro power_increasing) auto
  then have "1 / 10 ^ 15 \<le> x" using n1 unfolding x_def by (intro frac_le) auto
  moreover have "(2 :: rat) powi (- 1022) \<le> 1 / 10 ^ 15"
  proof -
    have "(10 :: rat) ^ 15 \<le> 2 ^ 50" by simp
    also have "\<dots> \<le> 2 ^ 1022" by (rule power_increasing) simp_all
    finally show ?thesis by (simp add: power_int_minus field_simps)
  qed
  ultimately have lo: "2 powi (- 1022) \<le> x" by linarith
  have n53: "(of_nat n :: rat) < 2 ^ 53"
    using assms(1) by (metis of_nat_less_iff of_nat_numeral of_nat_power)
  have xn: "x \<le> of_nat n"
  proof -
    have "of_nat n / 10 ^ d \<le> (of_nat n :: rat) / 1" by (rule frac_le) auto
    then show ?thesis by (simp add: x_def)
  qed
  have "(2 :: rat) ^ 53 \<le> 2 ^ 1023" by (rule power_increasing) simp_all
  then have "x < 2 ^ 1023" using xn n53 by linarith
  from to_double_error [OF lo this] obtain v where v: "to_double x = Fin v" "\<bar>v - x\<bar> \<le> x / 2 ^ 53"
    by blast
  have x0: "0 < x" using lo by (metis less_le_trans zero_less_numeral zero_less_power_int)
  have "x / 2 ^ 53 < x" using x0 by (simp add: field_simps)
  then have v0: "0 < v" and v2: "v \<le> 2 * x" using v(2) by linarith+
  have "v < 10 ^ 21" using v2 xn n53 by simp
  then have f: "to_fixed (Fin v) d = fixed_digits (nat \<lfloor>v * 10 ^ d + 1 / 2\<rfloor>) d" using v0 by simp
  have "\<bar>v * 10 ^ d - of_nat n\<bar> = \<bar>v - x\<bar> * 10 ^ d"
  proof -
    have "v * 10 ^ d - of_nat n = (v - x) * 10 ^ d" by (simp add: x_def left_diff_distrib)
    then show ?thesis by (simp add: abs_mult)
  qed
  also have "\<dots> \<le> x / 2 ^ 53 * 10 ^ d" using v(2) by (intro mult_right_mono) auto
  also have "\<dots> = of_nat n / 2 ^ 53" by (simp add: x_def)
  finally have e: "\<bar>v * 10 ^ d - of_nat n\<bar> \<le> of_nat n / 2 ^ 53" .
  have e1: "(of_nat n :: rat) / 2 ^ 53 < 1" using n53 by (simp add: field_simps)
  have "v * 10 ^ d - of_nat n < 1" using e e1 abs_ge_self [of "v * 10 ^ d - of_nat n"] by linarith
  then have "\<lfloor>v * 10 ^ d + 1 / 2\<rfloor> \<le> int n + 1" by (simp add: floor_le_iff)
  moreover have "\<lfloor>v * 10 ^ d + 1 / 2\<rfloor> = int n" if "n < 2 ^ 52"
  proof -
    have "(of_nat n :: rat) < 2 ^ 52" using that by (metis of_nat_less_iff of_nat_numeral of_nat_power)
    then have "(of_nat n :: rat) / 2 ^ 53 < 1 / 2" by (simp add: field_simps)
    then have "\<bar>v * 10 ^ d - of_nat n\<bar> < 1 / 2" using e by linarith
    then have "of_nat n \<le> v * 10 ^ d + 1 / 2" "v * 10 ^ d + 1 / 2 < of_nat n + 1"
      unfolding abs_less_iff by linarith+
    then show ?thesis by (intro floor_unique) simp_all
  qed
  ultimately show ?thesis
    using that [of "nat \<lfloor>v * 10 ^ d + 1 / 2\<rfloor>"] f v(1) by (auto simp: x_def)
qed

lemma string_of_nat_split:
  "10 ^ d \<le> n \<Longrightarrow>
   \<exists>ds. string_of_nat n = string_of_nat (n div 10 ^ d) @ ds \<and> length ds = d
     \<and> (\<forall>c \<in> set ds. is_digit c) \<and> nat_of_digits ds = n mod 10 ^ d"
proof (induction d arbitrary: n)
  case 0
  then show ?case by simp
next
  case (Suc d)
  have "10 ^ d \<le> n div 10" using Suc.prems by (simp add: less_eq_div_iff_mult_less_eq mult.commute)
  from Suc.IH [OF this] obtain ds where ds: "string_of_nat (n div 10) =
      string_of_nat (n div 10 div 10 ^ d) @ ds" "length ds = d" "\<forall>c \<in> set ds. is_digit c"
    "nat_of_digits ds = n div 10 mod 10 ^ d" by blast
  have "10 \<le> n" using Suc.prems by (metis le_trans one_le_numeral one_le_power power_Suc mult_le_mono2 mult_1_right)
  then have s: "string_of_nat n = string_of_nat (n div 10) @ [char_of (48 + n mod 10)]"
    by (subst string_of_nat.simps) simp
  have m: "n mod 10 ^ Suc d = 10 * (n div 10 mod 10 ^ d) + n mod 10"
    by (simp add: mod_mult2_eq)
  show ?case
    by (rule exI [of _ "ds @ [char_of (48 + n mod 10)]"])
       (use ds s m in \<open>auto simp: div_mult2_eq\<close>)
qed

text \<open>The whole part, a point, and exactly \<open>d\<close> digits that denote the rest.\<close>

lemma fixed_digits_split:
  assumes "0 < d"
  shows "\<exists>ds. fixed_digits n d = string_of_nat (n div 10 ^ d) @ ''.'' @ ds \<and> length ds = d
     \<and> (\<forall>c \<in> set ds. is_digit c) \<and> nat_of_digits ds = n mod 10 ^ d"
proof (cases "10 ^ d \<le> n")
  case True
  from string_of_nat_split [OF True] obtain ds where ds: "string_of_nat n =
      string_of_nat (n div 10 ^ d) @ ds" "length ds = d" "\<forall>c \<in> set ds. is_digit c"
    "nat_of_digits ds = n mod 10 ^ d" by blast
  have "d < length (string_of_nat n)" using ds(1,2) by simp
  then show ?thesis using assms ds by (intro exI [of _ ds]) (simp add: fixed_digits_def Let_def)
next
  case False
  then have "digit_count n \<le> d" using digit_count_le assms by simp
  then have l: "length (string_of_nat n) \<le> d" by (simp add: digit_count_def)
  have z: "zeros (d + 1 - length (string_of_nat n)) @ string_of_nat n =
      ''0'' @ zeros (d - length (string_of_nat n)) @ string_of_nat n"
    using l by (simp add: zeros_def Suc_diff_le)
  have "string_of_nat 0 = ''0''" by code_simp
  then show ?thesis
    using assms False l z zeros_digits string_of_nat_digits
    by (intro exI [of _ "zeros (d - length (string_of_nat n)) @ string_of_nat n"])
       (auto simp: fixed_digits_def Let_def nat_of_digits_append)
qed

end
