(* ===== verification/Wl_Api.thy ===== *)
theory Wl_Api
  imports Wl_Safety Wl_Amount Js_Json Js_Rounding
begin

text \<open>
  The readers of \<open>features/wallet/api.ts\<close>: what the wallet makes of the bodies the server
  sends for orders, billing records and quotes, old and new shapes alike. The transport is a
  parameter (the body it delivers), and so is what the platform knows of a currency's digits.
\<close>

section \<open>Values\<close>

definition status_text :: "PublicPaymentStatusCode \<Rightarrow> string" where
  "status_text s = (case s of Preparing \<Rightarrow> ''preparing'' | Awaiting_payment \<Rightarrow> ''awaiting_payment''
     | Confirming \<Rightarrow> ''confirming'' | Succeeded \<Rightarrow> ''succeeded'' | Expired \<Rightarrow> ''expired''
     | Temporarily_unavailable \<Rightarrow> ''temporarily_unavailable'')"

definition normalizePublicPaymentStatus :: "jsval \<Rightarrow> PublicPaymentStatusCode" where
  "normalizePublicPaymentStatus value =
     (if value = JStr ''preparing'' then Preparing
      else if value = JStr ''awaiting_payment'' then Awaiting_payment
      else if value = JStr ''confirming'' then Confirming
      else if value = JStr ''succeeded'' then Succeeded
      else if value = JStr ''expired'' then Expired
      else if value = JStr ''temporarily_unavailable'' then Temporarily_unavailable
      else if value = JStr ''success'' \<or> value = JStr ''fulfilled'' then Succeeded
      else if value = JStr ''paid'' \<or> value = JStr ''processing'' then Confirming
      else if value = JStr ''pending'' then Preparing
      else Temporarily_unavailable)"

text \<open>The pattern \<open>^(?:0|[1-9]\d{0,15})(?:\.\d{1,3})?$\<close>.\<close>

definition decimal_pattern :: "string \<Rightarrow> bool" where
  "decimal_pattern s =
     (let whole = takeWhile is_digit s; rest = dropWhile is_digit s
      in (whole = ''0'' \<or> whole \<noteq> [] \<and> hd whole \<noteq> CHR ''0'' \<and> length whole \<le> 16)
         \<and> (rest = [] \<or> hd rest = CHR ''.'' \<and> matches_class is_digit 1 3 (tl rest)))"

definition normalizePaymentDecimal :: "jsval \<Rightarrow> string \<Rightarrow> string" where
  "normalizePaymentDecimal value fallback =
     (let candidate = (case as_string value of Some s \<Rightarrow> trim s
            | None \<Rightarrow> js_to_string (js_coalesce value (JStr [])))
      in if decimal_pattern candidate then candidate else fallback)"

text \<open>The fraction digits of a currency, with two digits forced or not.\<close>

type_synonym currency_digits = "string \<Rightarrow> bool \<Rightarrow> js_error + nat option"

definition fraction_digits :: "currency_digits \<Rightarrow> string \<Rightarrow> PaymentMethodProvider option \<Rightarrow> nat" where
  "fraction_digits digits currency provider =
     (case digits currency (provider = Some Stripe \<and> (currency = ''ISK'' \<or> currency = ''UGX'')) of
        Inl _ \<Rightarrow> 2
      | Inr n \<Rightarrow> (case n of Some k \<Rightarrow> k | None \<Rightarrow> 2))"

definition legacyPaymentMinorToDecimal ::
  "currency_digits \<Rightarrow> jsval \<Rightarrow> string \<Rightarrow> PaymentMethodProvider option \<Rightarrow> string"
where
  "legacyPaymentMinorToDecimal digits value currency provider =
     (let amountMinor = to_number value
      in if \<not> is_safe_integer amountMinor \<or> js_less amountMinor (Fin 0) then ''0''
         else let fractionDigits = fraction_digits digits currency provider
              in to_fixed (js_div amountMinor (to_double (10 ^ fractionDigits))) fractionDigits)"

definition currency_or :: "string \<Rightarrow> jsval \<Rightarrow> string" where
  "currency_or fallback value =
     (case as_string value of
        Some s \<Rightarrow> if matches_class (\<lambda>c. is_upper c \<or> is_lower c) 3 3 s then to_upper s else fallback
      | None \<Rightarrow> fallback)"

section \<open>Orders\<close>

datatype PaymentCheckoutFlow = FlowPending | FlowQr | FlowHosted | FlowForm | FlowAuthorize | FlowJsapi

definition flow_text :: "PaymentCheckoutFlow \<Rightarrow> string" where
  "flow_text f = (case f of FlowPending \<Rightarrow> ''pending'' | FlowQr \<Rightarrow> ''qr''
     | FlowHosted \<Rightarrow> ''hosted_redirect'' | FlowForm \<Rightarrow> ''form_post''
     | FlowAuthorize \<Rightarrow> ''wechat_authorize'' | FlowJsapi \<Rightarrow> ''jsapi'')"

definition checkout_flow :: "jsval \<Rightarrow> PaymentCheckoutFlow option" where
  "checkout_flow v =
     (if v = JStr ''pending'' then Some FlowPending
      else if v = JStr ''qr'' then Some FlowQr
      else if v = JStr ''hosted_redirect'' then Some FlowHosted
      else if v = JStr ''form_post'' then Some FlowForm
      else if v = JStr ''wechat_authorize'' then Some FlowAuthorize
      else if v = JStr ''jsapi'' then Some FlowJsapi
      else None)"

record PaymentCheckout =
  co_flow :: PaymentCheckoutFlow
  co_qr_content :: "string option"
  co_continue_url :: "string option"
  co_jsapi :: "PaymentJSAPIParameters option"
  co_expires_at :: jsnum

record PaymentOrder =
  po_trade_no :: string
  po_route_id :: string
  po_public_method :: string
  po_channel_alias :: "string option"
  po_status_code :: PublicPaymentStatusCode
  po_payment_amount :: string
  po_top_up_amount :: "jsnum option"
  po_plan_id :: "jsnum option"
  po_currency :: string
  po_expires_at :: jsnum
  po_completed_at :: "jsnum option"
  po_checkout :: "PaymentCheckout option"

definition normalize_jsapi :: "PaymentCheckoutFlow \<Rightarrow> jsval \<Rightarrow> PaymentJSAPIParameters option" where
  "normalize_jsapi checkoutFlow rawJSAPI =
     (if checkoutFlow = FlowJsapi \<and> is_nonnull_object rawJSAPI
      then (case (as_string (js_get rawJSAPI ''app_id''), as_string (js_get rawJSAPI ''timestamp''),
                  as_string (js_get rawJSAPI ''nonce_str''), as_string (js_get rawJSAPI ''package''),
                  as_string (js_get rawJSAPI ''sign_type''), as_string (js_get rawJSAPI ''pay_sign'')) of
              (Some app_id, Some timestamp, Some nonce_str, Some package, Some sign_type, Some pay_sign) \<Rightarrow>
                if sign_type = ''MD5'' \<or> sign_type = ''HMAC-SHA256''
                then Some \<lparr>js_app_id = app_id, js_timestamp = timestamp, js_nonce_str = nonce_str,
                           js_package = package, js_sign_type = sign_type, js_pay_sign = pay_sign\<rparr>
                else None
            | _ \<Rightarrow> None)
      else None)"

definition normalize_checkout :: "jsval \<Rightarrow> PaymentCheckout option" where
  "normalize_checkout rawCheckout =
     (if \<not> is_nonnull_object rawCheckout then None
      else case checkout_flow (js_get rawCheckout ''flow'') of
        None \<Rightarrow> None
      | Some checkoutFlow \<Rightarrow>
          Some \<lparr>co_flow = checkoutFlow,
            co_qr_content = (if checkoutFlow = FlowQr then as_string (js_get rawCheckout ''qr_content'')
              else None),
            co_continue_url = (if checkoutFlow = FlowHosted \<or> checkoutFlow = FlowForm
                \<or> checkoutFlow = FlowAuthorize
              then as_string (js_get rawCheckout ''continue_url'') else None),
            co_jsapi = normalize_jsapi checkoutFlow (js_get rawCheckout ''jsapi''),
            co_expires_at = number_or_zero (js_get rawCheckout ''expires_at'')\<rparr>)"

definition normalizePublicPaymentOrder :: "currency_digits \<Rightarrow> jsval \<Rightarrow> PaymentOrder option" where
  "normalizePublicPaymentOrder digits raw =
     (if \<not> truthy raw \<or> \<not> is_object raw then None
      else let tradeNo = string_or_empty (js_get raw ''trade_no'')
      in if tradeNo = [] then None
      else let
        legacyPaymentMethod = string_or_empty (js_get raw ''payment_method'');
        legacyProvider = getPaymentMethodProvider legacyPaymentMethod
          (js_coalesce (js_get raw ''provider'') (js_get raw ''payment_provider''));
        isSubscription = (js_get raw ''plan_id'' \<noteq> JUndef
          \<or> js_get raw ''order_kind'' = JStr ''subscription'');
        currency = currency_or ''USD'' (js_get raw ''currency'')
      in Some \<lparr>po_trade_no = tradeNo,
        po_route_id = normalizePaymentRouteId (js_get raw ''route_id'') legacyProvider
          legacyPaymentMethod tradeNo,
        po_public_method = normalizePublicPaymentMethod (js_get raw ''public_method'')
          legacyPaymentMethod [],
        po_channel_alias = normalizePaymentChannelAlias (js_get raw ''channel_alias''),
        po_status_code = normalizePublicPaymentStatus
          (js_coalesce (js_get raw ''status_code'') (js_get raw ''status'')),
        po_payment_amount = normalizePaymentDecimal (js_get raw ''payment_amount'')
          (legacyPaymentMinorToDecimal digits (js_get raw ''expected_amount_minor'') currency
            (Some legacyProvider)),
        po_top_up_amount = (if isSubscription then None
          else number_or_none (js_coalesce (js_get raw ''top_up_amount'') (js_get raw ''requested_amount''))),
        po_plan_id = (if isSubscription
          then number_or_none (js_coalesce (js_get raw ''plan_id'') (js_get raw ''requested_amount''))
          else None),
        po_currency = currency,
        po_expires_at = number_or_zero (js_get raw ''expires_at''),
        po_completed_at = number_or_none
          (js_coalesce (js_get raw ''completed_at'') (js_get raw ''settled_at'')),
        po_checkout = normalize_checkout (js_get raw ''checkout'')\<rparr>)"

section \<open>Billing records\<close>

record TopupRecord =
  tr_id :: jsnum
  tr_amount :: jsnum
  tr_payment_amount :: string
  tr_trade_no :: string
  tr_route_id :: string
  tr_public_method :: string
  tr_channel_alias :: "string option"
  tr_currency :: string
  tr_created_at :: jsnum
  tr_completed_at :: "jsnum option"
  tr_status_code :: PublicPaymentStatusCode

definition normalizePublicBillingRecord :: "currency_digits \<Rightarrow> jsval \<Rightarrow> TopupRecord option" where
  "normalizePublicBillingRecord digits raw =
     (if \<not> truthy raw \<or> \<not> is_object raw then None
      else let tradeNo = string_or_empty (js_get raw ''trade_no'')
      in if tradeNo = [] then None
      else let
        currency = currency_or ''CNY'' (js_get raw ''currency'');
        legacyPaymentMethod = string_or_empty (js_get raw ''payment_method'');
        legacyProvider = getPaymentMethodProvider legacyPaymentMethod
          (js_coalesce (js_get raw ''provider'') (js_get raw ''payment_provider''));
        legacyMoney = to_number (js_get raw ''money'');
        legacyPaymentAmount = (if is_finite legacyMoney
          then normalizePaymentDecimal (JStr (to_fixed legacyMoney 2)) ''0'' else ''0'')
      in Some \<lparr>tr_id = number_or_zero (js_get raw ''id''),
        tr_amount = number_or_zero (js_get raw ''amount''),
        tr_payment_amount = normalizePaymentDecimal (js_get raw ''payment_amount'')
          (if js_get raw ''expected_amount_minor'' \<noteq> JUndef
           then legacyPaymentMinorToDecimal digits (js_get raw ''expected_amount_minor'') currency
                  (Some legacyProvider)
           else legacyPaymentAmount),
        tr_trade_no = tradeNo,
        tr_route_id = normalizePaymentRouteId (js_get raw ''route_id'') legacyProvider
          legacyPaymentMethod tradeNo,
        tr_public_method = normalizePublicPaymentMethod (js_get raw ''public_method'')
          legacyPaymentMethod [],
        tr_channel_alias = normalizePaymentChannelAlias (js_get raw ''channel_alias''),
        tr_currency = currency,
        tr_created_at = number_or_zero
          (js_coalesce (js_get raw ''created_at'') (js_get raw ''create_time'')),
        tr_completed_at = number_or_none
          (js_coalesce (js_get raw ''completed_at'') (js_get raw ''complete_time'')),
        tr_status_code = normalizePublicPaymentStatus
          (js_coalesce (js_get raw ''status_code'') (js_get raw ''status''))\<rparr>)"

section \<open>Responses\<close>

record 'a ApiResponse =
  ar_success :: "bool option"
  ar_code :: "string option"
  ar_message :: "string option"
  ar_params :: "jsval option"
  ar_data :: "'a option"

definition isApiSuccess :: "'a ApiResponse \<Rightarrow> bool" where
  "isApiSuccess response \<longleftrightarrow> ar_success response = Some True \<or> ar_message response = Some ''success''"

datatype PaymentOrderKind = Topup | Subscription

record PaymentQuoteRequest =
  qr_order_kind :: PaymentOrderKind
  qr_amount :: "jsnum option"
  qr_plan_id :: "jsnum option"
  qr_product_id :: "string option"
  qr_option_id :: "string option"
  qr_route_id :: "string option"
  qr_provider :: "PaymentMethodProvider option"
  qr_payment_method :: "string option"

record PaymentQuote =
  pq_quote_id :: string
  pq_route_id :: string
  pq_public_method :: string
  pq_channel_alias :: "string option"
  pq_top_up_amount :: "jsnum option"
  pq_plan_id :: "jsnum option"
  pq_payable_amount :: string
  pq_currency :: string
  pq_expires_at :: jsnum
  pq_legacy :: "bool option"

definition opt_num :: "jsnum option \<Rightarrow> jsval" where
  "opt_num n = (case n of Some x \<Rightarrow> JNum x | None \<Rightarrow> JUndef)"

definition opt_str :: "string option \<Rightarrow> jsval" where
  "opt_str s = (case s of Some x \<Rightarrow> JStr x | None \<Rightarrow> JUndef)"

definition legacy_route :: "PaymentQuoteRequest \<Rightarrow> (PaymentMethodProvider \<times> string) option" where
  "legacy_route request =
     (case (qr_provider request, qr_payment_method request) of
        (Some provider, Some payment_method) \<Rightarrow>
          if payment_method \<noteq> [] then Some (provider, payment_method) else None
      | _ \<Rightarrow> None)"

definition normalize_quote :: "PaymentQuoteRequest \<Rightarrow> jsval \<Rightarrow> PaymentQuote" where
  "normalize_quote request raw =
     (let legacyRoute = legacy_route request;
          legacyMethod = (case legacyRoute of Some (_, m) \<Rightarrow> m | None \<Rightarrow> []);
          quoteId = string_or_empty (js_get raw ''quote_id'');
          routeId = normalizePaymentRouteId
            (js_coalesce (js_get raw ''route_id'') (opt_str (qr_route_id request)))
            (case legacyRoute of Some (p, _) \<Rightarrow> p | None \<Rightarrow> Epay) legacyMethod quoteId
      in \<lparr>pq_quote_id = quoteId, pq_route_id = routeId,
          pq_public_method = normalizePublicPaymentMethod (js_get raw ''public_method'') legacyMethod [],
          pq_channel_alias = normalizePaymentChannelAlias (js_get raw ''channel_alias''),
          pq_top_up_amount = (if qr_order_kind request = Subscription then None
            else number_or_none (js_coalesce (js_get raw ''top_up_amount'') (opt_num (qr_amount request)))),
          pq_plan_id = (if qr_order_kind request = Subscription
            then number_or_none (js_coalesce (js_get raw ''plan_id'') (opt_num (qr_plan_id request)))
            else None),
          pq_payable_amount = normalizePaymentDecimal (js_get raw ''payable_amount'') ''0'',
          pq_currency = currency_or ''USD'' (js_get raw ''currency''),
          pq_expires_at = number_or_zero (js_get raw ''expires_at''), pq_legacy = None\<rparr>)"

text \<open>The parts of an API call after the body has arrived; a missing or falsy \<open>data\<close> stays out.\<close>

definition with_data :: "('a \<Rightarrow> 'b option) \<Rightarrow> 'a ApiResponse \<Rightarrow> 'b ApiResponse" where
  "with_data f r = \<lparr>ar_success = ar_success r, ar_code = ar_code r, ar_message = ar_message r,
     ar_params = ar_params r, ar_data = Option.bind (ar_data r) f\<rparr>"

definition createPaymentQuote :: "PaymentQuoteRequest \<Rightarrow> jsval ApiResponse \<Rightarrow> PaymentQuote ApiResponse" where
  "createPaymentQuote request response =
     with_data (\<lambda>data. if \<not> truthy data then None else Some (normalize_quote request data)) response"

definition getPaymentOrder :: "currency_digits \<Rightarrow> jsval ApiResponse \<Rightarrow> PaymentOrder ApiResponse" where
  "getPaymentOrder digits response =
     with_data (\<lambda>data. if \<not> truthy data then None else normalizePublicPaymentOrder digits data) response"

definition order_path :: "string \<Rightarrow> string" where
  "order_path tradeNo = ''/api/user/payment/orders/'' @ encodeURIComponent tradeNo"

record BillingHistory =
  bh_items :: "TopupRecord list"
  bh_total :: jsnum

definition getUserBillingHistory ::
  "currency_digits \<Rightarrow> jsval ApiResponse \<Rightarrow> BillingHistory ApiResponse"
where
  "getUserBillingHistory digits response =
     with_data (\<lambda>rawData.
       if \<not> truthy rawData \<or> \<not> is_object rawData then None
       else Some \<lparr>bh_items = (case js_get rawData ''items'' of
                    JArr vs \<Rightarrow> somes (map (normalizePublicBillingRecord digits) vs) | _ \<Rightarrow> []),
                  bh_total = number_or_zero (js_get rawData ''total'')\<rparr>) response"

section \<open>The public form of an order\<close>

definition js_of_jsapi :: "PaymentJSAPIParameters \<Rightarrow> jsval" where
  "js_of_jsapi p = obj_of
     [(''app_id'', Some (JStr (js_app_id p))), (''timestamp'', Some (JStr (js_timestamp p))),
      (''nonce_str'', Some (JStr (js_nonce_str p))), (''package'', Some (JStr (js_package p))),
      (''sign_type'', Some (JStr (js_sign_type p))), (''pay_sign'', Some (JStr (js_pay_sign p)))]"

definition js_of_checkout :: "PaymentCheckout \<Rightarrow> jsval" where
  "js_of_checkout c = obj_of
     [(''flow'', Some (JStr (flow_text (co_flow c)))),
      (''qr_content'', map_option JStr (co_qr_content c)),
      (''continue_url'', map_option JStr (co_continue_url c)),
      (''jsapi'', map_option js_of_jsapi (co_jsapi c)),
      (''expires_at'', Some (JNum (co_expires_at c)))]"

definition js_of_order :: "PaymentOrder \<Rightarrow> jsval" where
  "js_of_order o' = obj_of
     [(''trade_no'', Some (JStr (po_trade_no o'))), (''route_id'', Some (JStr (po_route_id o'))),
      (''public_method'', Some (JStr (po_public_method o'))),
      (''channel_alias'', map_option JStr (po_channel_alias o')),
      (''status_code'', Some (JStr (status_text (po_status_code o')))),
      (''payment_amount'', Some (JStr (po_payment_amount o'))),
      (''top_up_amount'', map_option JNum (po_top_up_amount o')),
      (''plan_id'', map_option JNum (po_plan_id o')),
      (''currency'', Some (JStr (po_currency o'))), (''expires_at'', Some (JNum (po_expires_at o'))),
      (''completed_at'', map_option JNum (po_completed_at o')),
      (''checkout'', map_option js_of_checkout (po_checkout o'))]"

definition checkout_ok :: "PaymentCheckout \<Rightarrow> bool" where
  "checkout_ok c \<longleftrightarrow> (co_qr_content c \<noteq> None \<longrightarrow> co_flow c = FlowQr)
     \<and> (co_continue_url c \<noteq> None \<longrightarrow> co_flow c \<in> {FlowHosted, FlowForm, FlowAuthorize})
     \<and> (\<forall>p. co_jsapi c = Some p \<longrightarrow> co_flow c = FlowJsapi \<and> js_sign_type p \<in> {''MD5'', ''HMAC-SHA256''})
     \<and> co_expires_at c \<noteq> NaN"

definition opt_amount_ok :: "jsnum option \<Rightarrow> bool" where
  "opt_amount_ok n \<longleftrightarrow> n \<noteq> Some NaN \<and> n \<noteq> Some (Fin 0)"

definition order_ok :: "PaymentOrder \<Rightarrow> bool" where
  "order_ok o' \<longleftrightarrow> po_trade_no o' \<noteq> [] \<and> PUBLIC_ROUTE_ID_PATTERN (po_route_id o')
     \<and> public_name (po_public_method o')
     \<and> (\<forall>a. po_channel_alias o' = Some a \<longrightarrow> public_name a)
     \<and> decimal_pattern (po_payment_amount o') \<and> matches_class is_upper 3 3 (po_currency o')
     \<and> (po_top_up_amount o' = None \<or> po_plan_id o' = None)
     \<and> opt_amount_ok (po_top_up_amount o') \<and> opt_amount_ok (po_plan_id o')
     \<and> opt_amount_ok (po_completed_at o') \<and> po_expires_at o' \<noteq> NaN
     \<and> (\<forall>c. po_checkout o' = Some c \<longrightarrow> checkout_ok c)"

section \<open>Lemmas\<close>

lemma status_fixed [simp]: "normalizePublicPaymentStatus (JStr (status_text s)) = s"
  by (cases s) (simp_all add: normalizePublicPaymentStatus_def status_text_def)

lemma flow_fixed [simp]: "checkout_flow (JStr (flow_text f)) = Some f"
  by (cases f) (simp_all add: checkout_flow_def flow_text_def)

lemma decimal_chars: "decimal_pattern s \<Longrightarrow> c \<in> set s \<Longrightarrow> is_digit c \<or> c = CHR ''.''"
proof -
  assume d: "decimal_pattern s" "c \<in> set s"
  have "set s = set (takeWhile is_digit s) \<union> set (dropWhile is_digit s)"
    by (metis set_append takeWhile_dropWhile_id)
  with d show ?thesis
    by (cases "dropWhile is_digit s")
       (auto simp: decimal_pattern_def Let_def matches_class_def list_all_iff dest: set_takeWhileD)
qed

lemma decimal_fixed: "decimal_pattern s \<Longrightarrow> normalizePaymentDecimal (JStr s) f = s"
proof -
  assume d: "decimal_pattern s"
  have "\<not> is_ws c" if "c \<in> set s" for c
    using decimal_chars [OF d that] by (auto simp: char_class_defs)
  then have "trim s = s" by (simp add: trim_no_ws)
  with d show ?thesis by (simp add: normalizePaymentDecimal_def)
qed

lemma decimal_ok: "decimal_pattern f \<Longrightarrow> decimal_pattern (normalizePaymentDecimal v f)"
  by (simp add: normalizePaymentDecimal_def Let_def)

lemma decimal_zero: "decimal_pattern ''0''"
  by (simp add: decimal_pattern_def char_class_defs)

lemma fixed_digits_decimal:
  assumes "m < 10 ^ 16" "d \<le> 3"
  shows "decimal_pattern (fixed_digits m d)"
proof -
  have whole: "takeWhile is_digit (string_of_nat w @ r) = string_of_nat w"
    "dropWhile is_digit (string_of_nat w @ r) = r"
    "string_of_nat w = ''0'' \<or> string_of_nat w \<noteq> [] \<and> hd (string_of_nat w) \<noteq> CHR ''0''
       \<and> length (string_of_nat w) \<le> 16" if "w < 10 ^ 16" "r = [] \<or> hd r = CHR ''.''" for w r
  proof -
    have nd: "r = [] \<or> \<not> is_digit (hd r)" using that(2) by (auto simp: is_digit_def)
    have dg: "\<And>c. c \<in> set (string_of_nat w) \<Longrightarrow> is_digit c" using string_of_nat_digits by blast
    show "takeWhile is_digit (string_of_nat w @ r) = string_of_nat w"
      "dropWhile is_digit (string_of_nat w @ r) = r"
      using nd dg by (cases r; simp)+
    have "string_of_nat 0 = ''0''" by code_simp
    then show "string_of_nat w = ''0'' \<or> string_of_nat w \<noteq> [] \<and> hd (string_of_nat w) \<noteq> CHR ''0''
       \<and> length (string_of_nat w) \<le> 16"
      using hd_string_of_nat [of w] digit_count_le [OF that(1)] by (cases "w = 0") (auto simp: digit_count_def)
  qed
  show ?thesis
  proof (cases "d = 0")
    case True
    note w = whole [OF assms(1), of "[]", simplified append_Nil2, OF disjI1 [OF refl]]
    show ?thesis
      using w(3) unfolding True fixed_digits_def decimal_pattern_def Let_def
      by (simp only: refl if_True w(1,2) simp_thms)
  next
    case False
    then obtain ds where ds: "fixed_digits m d = string_of_nat (m div 10 ^ d) @ ''.'' @ ds"
      "length ds = d" "\<forall>c \<in> set ds. is_digit c" using fixed_digits_split [of d m] by auto
    have "m div 10 ^ d < 10 ^ 16" using assms(1) by (meson div_le_dividend le_less_trans)
    from whole [OF this, of "''.'' @ ds"] show ?thesis
      using ds False assms(2)
      by (simp add: decimal_pattern_def Let_def matches_class_def list_all_iff)
  qed
qed

lemma js_div_exact:
  "d \<le> 15 \<Longrightarrow> js_div (Fin (of_int a)) (to_double (10 ^ d)) = to_double (of_int a / 10 ^ d)"
proof -
  assume d: "d \<le> 15"
  have "(10 :: int) ^ d \<le> 10 ^ 15" using d by (intro power_increasing) auto
  then have "\<bar>(10 :: int) ^ d\<bar> < 2 ^ 53" by simp
  from is_double_int [OF this] have "to_double (10 ^ d) = Fin (10 ^ d)" by (simp add: is_double_def)
  then show ?thesis by (simp add: js_div_def)
qed

lemma legacy_minor:
  assumes "to_number v = Fin (of_nat n)" "n < 2 ^ 53" "fraction_digits digits c p \<le> 15"
  obtains m where "legacyPaymentMinorToDecimal digits v c p = fixed_digits m (fraction_digits digits c p)"
    "m \<le> n + 1" "n < 2 ^ 52 \<Longrightarrow> m = n"
proof -
  let ?d = "fraction_digits digits c p"
  have "\<bar>int n\<bar> \<le> MAX_SAFE_INTEGER" using assms(2) by (simp add: MAX_SAFE_INTEGER_def)
  from safe_int [OF this] have safe: "is_safe_integer (Fin (of_nat n))" by simp
  obtain m where m: "to_fixed (to_double (of_nat n / 10 ^ ?d)) ?d = fixed_digits m ?d"
    "m \<le> n + 1" "n < 2 ^ 52 \<Longrightarrow> m = n" using to_fixed_quotient [OF assms(2,3)] by blast
  have "legacyPaymentMinorToDecimal digits v c p = fixed_digits m ?d"
    using safe m(1) js_div_exact [OF assms(3), of "int n"]
    by (simp add: legacyPaymentMinorToDecimal_def assms(1) Let_def)
  with m(2,3) that show ?thesis by blast
qed

lemma legacy_decimal:
  assumes "fraction_digits digits c p \<le> 3"
  shows "decimal_pattern (legacyPaymentMinorToDecimal digits v c p)"
proof (cases "is_safe_integer (to_number v) \<and> \<not> js_less (to_number v) (Fin 0)")
  case True
  then obtain a where a: "to_number v = Fin (of_int a)" "\<bar>a\<bar> \<le> MAX_SAFE_INTEGER"
    using safe_integerE by blast
  have "0 \<le> a" using True a(1) by simp
  then have n: "to_number v = Fin (of_nat (nat a))" "nat a < 2 ^ 53"
    using a by (simp_all add: MAX_SAFE_INTEGER_def)
  have "fraction_digits digits c p \<le> 15" using assms by simp
  from legacy_minor [OF n this] obtain m where m: "legacyPaymentMinorToDecimal digits v c p =
      fixed_digits m (fraction_digits digits c p)" "m \<le> nat a + 1" by blast
  have "m < 10 ^ 16" using m(2) n(2) by simp
  with m(1) assms show ?thesis by (simp add: fixed_digits_decimal)
qed (auto simp: legacyPaymentMinorToDecimal_def decimal_zero Let_def)

lemma upper_letters:
  "list_all (\<lambda>c. is_upper c \<or> is_lower c) s \<Longrightarrow> list_all is_upper (to_upper s) \<and> length (to_upper s) = length s"
  by (induction s) (auto simp: to_upper_def upper_char_def char_class_defs)

lemma upper_fixed: "list_all is_upper s \<Longrightarrow> to_upper s = s"
  by (induction s) (auto simp: to_upper_def upper_char_def char_class_defs)

lemma currency_ok:
  "matches_class is_upper 3 3 f \<Longrightarrow> matches_class is_upper 3 3 (currency_or f v)"
  using upper_letters by (auto simp: currency_or_def matches_class_def split: option.splits)

lemma currency_fixed: "matches_class is_upper 3 3 c \<Longrightarrow> currency_or f (JStr c) = c"
  using upper_fixed by (auto simp: currency_or_def matches_class_def list_all_iff)

lemma numbers_fixed:
  "n \<noteq> NaN \<Longrightarrow> number_or_zero (JNum n) = n"
  "opt_amount_ok k \<Longrightarrow> number_or_none (opt_val (map_option JNum k)) = k"
  by (auto simp: number_or_zero_def truthy_num_def)
     (cases k; auto simp: number_or_none_def truthy_num_def opt_amount_ok_def)

lemma numbers_ok: "number_or_zero v \<noteq> NaN" "opt_amount_ok (number_or_none v)"
  using number_or_zero_not_nan number_or_none_SomeD
  by (auto simp: opt_amount_ok_def)

lemma alias_public: "normalizePaymentChannelAlias v = Some a \<Longrightarrow> public_name a"
  by (auto simp: normalizePaymentChannelAlias_def Let_def public_name_def PUBLIC_METHOD_PATTERN_def
      PUBLIC_CHANNEL_ALIAS_PATTERN_def split: option.splits if_splits)

lemma alias_fixed: "public_name a \<Longrightarrow> normalizePaymentChannelAlias (JStr a) = Some a"
  using name_fixed [of 63 a]
  by (simp add: normalizePaymentChannelAlias_def Let_def public_name_def PUBLIC_METHOD_PATTERN_def
      PUBLIC_CHANNEL_ALIAS_PATTERN_def)

lemma route_pattern: "PUBLIC_ROUTE_ID_PATTERN (normalizePaymentRouteId v p m d)"
  using route_id_public [of v p m d] by (simp add: isPublicPaymentRouteId_def)

lemma route_fixed: "PUBLIC_ROUTE_ID_PATTERN r \<Longrightarrow> normalizePaymentRouteId (JStr r) p m d = r"
  by (simp add: normalizePaymentRouteId_def isPublicPaymentRouteId_def)

lemma jsapi_ok:
  "normalize_jsapi f v = Some p \<Longrightarrow> f = FlowJsapi \<and> js_sign_type p \<in> {''MD5'', ''HMAC-SHA256''}"
  by (auto simp: normalize_jsapi_def split: option.splits if_splits)

lemma checkout_normalized: "normalize_checkout v = Some c \<Longrightarrow> checkout_ok c"
  using numbers_ok(1)
  by (auto simp: normalize_checkout_def checkout_ok_def dest: jsapi_ok split: option.splits if_splits)

lemma truthy_obj_of [simp]: "truthy (obj_of fs)" "is_object (obj_of fs)" "is_nonnull_object (obj_of fs)"
  by (simp_all add: obj_of_def is_nonnull_object_def)

lemma jsapi_fixed:
  "js_sign_type p \<in> {''MD5'', ''HMAC-SHA256''} \<Longrightarrow> normalize_jsapi FlowJsapi (js_of_jsapi p) = Some p"
  by (auto simp: normalize_jsapi_def js_of_jsapi_def js_get_obj_of)

lemma as_string_opt [simp]: "as_string (opt_val (map_option JStr x)) = x"
  by (cases x) simp_all

lemma normalize_jsapi_undef [simp]: "normalize_jsapi f JUndef = None"
  by (simp add: normalize_jsapi_def is_nonnull_object_def)

lemma checkout_fixed:
  assumes "checkout_ok c"
  shows "normalize_checkout (js_of_checkout c) = Some c"
proof -
  have j: "normalize_jsapi (co_flow c) (opt_val (map_option js_of_jsapi (co_jsapi c))) = co_jsapi c"
    using assms by (cases "co_jsapi c") (auto simp: checkout_ok_def jsapi_fixed)
  show ?thesis
    using assms j
    by (auto simp: normalize_checkout_def js_of_checkout_def js_get_obj_of numbers_fixed checkout_ok_def
        intro!: PaymentCheckout.equality)
qed

lemma normalize_checkout_undef [simp]: "normalize_checkout JUndef = None"
  by (simp add: normalize_checkout_def is_nonnull_object_def)

lemma order_normalized:
  assumes "normalizePublicPaymentOrder digits raw = Some o'"
    and "\<And>p. fraction_digits digits (po_currency o') p \<le> 3"
  shows "order_ok o'"
proof -
  have u: "matches_class is_upper 3 3 ''USD''" by (simp add: matches_class_def char_class_defs)
  have "po_currency o' = currency_or ''USD'' (js_get raw ''currency'')"
    using assms(1) by (auto simp: normalizePublicPaymentOrder_def Let_def split: if_splits)
  then have "decimal_pattern (po_payment_amount o')"
    using assms by (auto simp: normalizePublicPaymentOrder_def Let_def intro!: decimal_ok legacy_decimal
        split: if_splits)
  then show ?thesis
    using assms(1) checkout_normalized alias_public currency_ok [OF u] numbers_ok
    by (auto simp: normalizePublicPaymentOrder_def Let_def order_ok_def route_pattern
        public_method_public opt_amount_ok_def split: if_splits)
qed

lemma coalesce_fixed [simp]:
  "js_coalesce (JStr s) w = JStr s" "js_coalesce (JNum n) w = JNum n"
  "js_coalesce JUndef w = w"
  by (auto simp: js_coalesce_def nullish_def)

lemma order_fixed:
  assumes "order_ok o'"
  shows "normalizePublicPaymentOrder digits (js_of_order o') = Some o'"
proof -
  have get: "js_get (js_of_order o') k = (case map_of
     [(''trade_no'', Some (JStr (po_trade_no o'))), (''route_id'', Some (JStr (po_route_id o'))),
      (''public_method'', Some (JStr (po_public_method o'))),
      (''channel_alias'', map_option JStr (po_channel_alias o')),
      (''status_code'', Some (JStr (status_text (po_status_code o')))),
      (''payment_amount'', Some (JStr (po_payment_amount o'))),
      (''top_up_amount'', map_option JNum (po_top_up_amount o')),
      (''plan_id'', map_option JNum (po_plan_id o')),
      (''currency'', Some (JStr (po_currency o'))), (''expires_at'', Some (JNum (po_expires_at o'))),
      (''completed_at'', map_option JNum (po_completed_at o')),
      (''checkout'', map_option js_of_checkout (po_checkout o'))] k of
      Some x \<Rightarrow> opt_val x | None \<Rightarrow> JUndef)" for k
    unfolding js_of_order_def by (rule js_get_obj_of) simp
  have co: "js_coalesce (opt_val (map_option JNum n)) JUndef = opt_val (map_option JNum n)" for n
    by (cases n) (simp_all add: js_coalesce_def nullish_def)
  have undef: "opt_val (map_option JNum n) \<noteq> JUndef \<longleftrightarrow> n \<noteq> None" for n by (cases n) simp_all
  have al: "normalizePaymentChannelAlias (opt_val (map_option JStr (po_channel_alias o'))) = po_channel_alias o'"
    using assms alias_fixed
    by (cases "po_channel_alias o'") (auto simp: order_ok_def normalizePaymentChannelAlias_def)
  have ck: "normalize_checkout (opt_val (map_option js_of_checkout (po_checkout o'))) = po_checkout o'"
    using assms checkout_fixed by (cases "po_checkout o'") (auto simp: order_ok_def)
  have t: "truthy (js_of_order o')" "is_object (js_of_order o')" by (simp_all add: js_of_order_def)
  note ok = assms [unfolded order_ok_def]
  have n0: "number_or_none JUndef = None" by (simp add: number_or_none_def truthy_num_def)
  show ?thesis
    using ok t
    by (auto simp: normalizePublicPaymentOrder_def get Let_def co undef al ck numbers_fixed
        string_or_empty_def route_fixed public_method_fixed decimal_fixed currency_fixed n0
        intro!: PaymentOrder.equality)
qed

section \<open>Properties\<close>


definition example_digits :: currency_digits where
  "example_digits c b = Inr (if c = ''CLF'' then Some 4 else if c = ''JPY'' then Some 0 else Some 2)"

definition example_order_body :: jsval where
  "example_order_body = JObj [(''trade_no'', JStr ''T1''), (''payment_method'', JStr ''stripe''),
     (''expected_amount_minor'', JNum (Fin 1250)), (''currency'', JStr ''usd''),
     (''status'', JStr ''pending'')]"




end
