(* ===== verification/Wl_Topup.thy ===== *)
theory Wl_Topup
  imports Wl_Api
begin

text \<open>
  The top-up information of \<open>features/wallet/hooks/use-topup-info.ts\<close>: the parsers that read
  routes, options, products, amounts and discounts from whatever the server sends, and the
  hook's state with its loading and its presets.
\<close>

section \<open>Parsers\<close>

definition parseJsonArray :: "jsval \<Rightarrow> jsval list" where
  "parseJsonArray data =
     (case data of
        JArr vs \<Rightarrow> vs
      | JStr s \<Rightarrow> (case json_parse s of Inr (JArr vs) \<Rightarrow> vs | _ \<Rightarrow> [])
      | _ \<Rightarrow> [])"

definition route_checkout_mode :: "jsval \<Rightarrow> PaymentCheckoutMode" where
  "route_checkout_mode v =
     (if v = JStr ''product'' then ModeProduct
      else if v = JStr ''option'' then ModeOption
      else if v = JStr ''direct'' then ModeDirect
      else ModeQuote)"

definition route_currency :: "jsval \<Rightarrow> string option" where
  "route_currency v =
     (case as_string v of
        Some s \<Rightarrow> if matches_class (\<lambda>c. is_upper c \<or> is_lower c) 3 3 s then Some (to_upper s) else None
      | None \<Rightarrow> None)"

definition parse_route :: "jsval \<Rightarrow> PaymentMethod option" where
  "parse_route item =
     (let rawMinTopup = to_number (js_get item ''min_topup'');
          normalizedMinTopup = (if is_safe_integer rawMinTopup \<and> js_less (Fin 0) rawMinTopup
            then rawMinTopup else Fin 0);
          type = string_or_empty (js_get item ''type'');
          legacyName = string_or_empty (js_get item ''name'')
      in if \<not> isPublicPaymentRouteId (js_get item ''route_id'') then None
         else Some \<lparr>pm_route_id = string_or_empty (js_get item ''route_id''),
           pm_public_method = normalizePublicPaymentMethod (js_get item ''public_method'') type legacyName,
           pm_channel_alias = normalizePaymentChannelAlias (js_get item ''channel_alias''),
           pm_checkout_mode = route_checkout_mode (js_get item ''checkout_mode''),
           pm_color = None,
           pm_min_topup = Some normalizedMinTopup,
           pm_icon = None,
           pm_currency = route_currency (js_get item ''currency'')\<rparr>)"

text \<open>The browser environment is read from the user agent, a parameter.\<close>

definition parsePaymentRoutes :: "string \<Rightarrow> jsval \<Rightarrow> PaymentMethod list" where
  "parsePaymentRoutes userAgent data =
     filterPaymentMethodsForBrowser
       (somes (map parse_route (filter is_nonnull_object (parseJsonArray data))))
       (detectPaymentBrowserEnvironment userAgent)"

text \<open>A fixed name and 24 lower-case hexadecimal digits, as \<open>^option_[a-f0-9]{24}$\<close>.\<close>

definition token_pattern :: "string \<Rightarrow> string \<Rightarrow> bool" where
  "token_pattern name s \<longleftrightarrow>
     prefix name s \<and> matches_class (\<lambda>c. is_digit c \<or> c \<in> set ''abcdef'') 24 24 (drop (length name) s)"

definition public_labels :: "string list" where
  "public_labels = [''Card'', ''Apple Pay'', ''Google Pay'', ''Online payment'']"

definition parse_option :: "jsval \<Rightarrow> PaymentRouteOption option" where
  "parse_option item =
     (let optionId = trim (string_or_empty (js_get item ''option_id''));
          publicLabel = js_get item ''public_label''
      in if \<not> token_pattern ''option_'' optionId then None
         else if \<not> isPublicPaymentRouteId (js_get item ''route_id'') then None
         else if publicLabel \<notin> JStr ` set public_labels then None
         else Some \<lparr>ro_option_id = optionId, ro_route_id = string_or_empty (js_get item ''route_id''),
                    ro_public_label = string_or_empty publicLabel\<rparr>)"

definition parsePaymentRouteOptions :: "jsval \<Rightarrow> PaymentRouteOption list" where
  "parsePaymentRouteOptions data =
     somes (map parse_option (filter is_nonnull_object (parseJsonArray data)))"

definition parse_product :: "jsval \<Rightarrow> PaymentProduct option" where
  "parse_product item =
     (let productId = trim (string_or_empty (js_get item ''product_id''));
          name = trim (string_or_empty (js_get item ''name''));
          paymentAmount = trim (string_or_empty (js_get item ''payment_amount''));
          topUpAmount = to_number (js_get item ''top_up_amount'');
          currency = to_upper (string_or_empty (js_get item ''currency''))
      in if \<not> token_pattern ''product_'' productId then None
         else if \<not> isPublicPaymentRouteId (js_get item ''route_id'') then None
         else if name = [] \<or> 128 < length name then None
         else if \<not> decimal_pattern paymentAmount then None
         else if \<not> is_safe_integer topUpAmount \<or> js_leq topUpAmount (Fin 0) then None
         else if \<not> matches_class is_upper 3 3 currency then None
         else Some \<lparr>pp_product_id = productId, pp_route_id = string_or_empty (js_get item ''route_id''),
                    pp_name = name, pp_payment_amount = paymentAmount,
                    pp_top_up_amount = topUpAmount, pp_currency = currency\<rparr>)"

definition parsePaymentProducts :: "jsval \<Rightarrow> PaymentProduct list" where
  "parsePaymentProducts data =
     somes (map parse_product (filter is_nonnull_object (parseJsonArray data)))"

definition parseAmountOptions :: "jsval \<Rightarrow> jsnum list" where
  "parseAmountOptions data =
     filter (\<lambda>item. is_finite item \<and> js_less (Fin 0) item) (map to_number (parseJsonArray data))"

text \<open>
  \<open>Object.entries\<close>: array indices come first and ascending, the other keys in the order in
  which they were added. Assigning a property replaces its value or adds it at the end.
\<close>

definition array_index :: "string \<Rightarrow> bool" where
  "array_index k \<longleftrightarrow> list_all is_digit k \<and> k = string_of_nat (nat_of_digits k)
     \<and> nat_of_digits k < 2 ^ 32 - 1"

definition object_entries :: "(string \<times> 'a) list \<Rightarrow> (string \<times> 'a) list" where
  "object_entries kvs =
     sort_key (nat_of_digits \<circ> fst) (filter (array_index \<circ> fst) kvs)
     @ filter (\<lambda>kv. \<not> array_index (fst kv)) kvs"

definition put_entry :: "string \<Rightarrow> 'a \<Rightarrow> (string \<times> 'a) list \<Rightarrow> (string \<times> 'a) list" where
  "put_entry k v kvs =
     (if k \<in> fst ` set kvs then map (\<lambda>kv. if fst kv = k then (k, v) else kv) kvs else kvs @ [(k, v)])"

definition discount_step :: "string \<times> jsval \<Rightarrow> (string \<times> jsnum) list \<Rightarrow> (string \<times> jsnum) list" where
  "discount_step kv result =
     (let numericKey = string_to_number (fst kv); numericValue = to_number (snd kv)
      in if is_finite numericKey \<and> is_finite numericValue
         then put_entry (number_to_string numericKey) numericValue result
         else result)"

definition parseDiscountMap :: "jsval \<Rightarrow> (string \<times> jsnum) list" where
  "parseDiscountMap data =
     (if \<not> truthy data then []
      else let parsedData = (case data of
             JStr s \<Rightarrow> (case json_parse s of Inr v \<Rightarrow> v | Inl _ \<Rightarrow> JUndef)
           | _ \<Rightarrow> data)
      in case parsedData of
           JObj kvs \<Rightarrow> fold discount_step (object_entries kvs) []
         | _ \<Rightarrow> [])"

definition parseOptionalNumber :: "jsval \<Rightarrow> jsnum option" where
  "parseOptionalNumber data =
     (let value = to_number data in if is_finite value then Some value else None)"

definition normalizePublicTopupInfo :: "string \<Rightarrow> jsval \<Rightarrow> TopupInfo option" where
  "normalizePublicTopupInfo userAgent raw =
     (if \<not> truthy raw \<or> \<not> is_object raw then None
      else let
        paymentRoutes = parsePaymentRoutes userAgent
          (js_coalesce (js_get raw ''payment_routes'') (js_get raw ''pay_methods''));
        subscriptionPaymentRoutes = parsePaymentRoutes userAgent
          (js_coalesce (js_get raw ''subscription_payment_routes'')
            (js_coalesce (js_get raw ''payment_routes'') (js_get raw ''pay_methods'')));
        minTopup = to_number (js_get raw ''min_topup'')
      in Some \<lparr>
        ti_online_payment_available =
          Some (js_get raw ''online_payment_available'' = JBool True \<or> 0 < length paymentRoutes),
        ti_payment_routes = paymentRoutes,
        ti_subscription_payment_routes = Some subscriptionPaymentRoutes,
        ti_payment_products = parsePaymentProducts (js_get raw ''payment_products''),
        ti_payment_route_options = parsePaymentRouteOptions (js_get raw ''payment_route_options''),
        ti_min_topup = (if is_safe_integer minTopup \<and> js_less (Fin 0) minTopup then minTopup else Fin 1),
        ti_amount_options = parseAmountOptions (js_get raw ''amount_options''),
        ti_discount = parseDiscountMap (js_get raw ''discount''),
        ti_affiliate_continuous_percent = parseOptionalNumber (js_get raw ''affiliate_continuous_percent''),
        ti_affiliate_first_topup_percent = parseOptionalNumber (js_get raw ''affiliate_first_topup_percent''),
        ti_topup_link = as_string (js_get raw ''topup_link''),
        ti_enable_redemption = Some (js_get raw ''enable_redemption'' \<noteq> JBool False),
        ti_payment_compliance_confirmed = Some (js_get raw ''payment_compliance_confirmed'' \<noteq> JBool False),
        ti_payment_compliance_terms_version = as_string (js_get raw ''payment_compliance_terms_version'')\<rparr>)"

section \<open>The hook\<close>

record TopupState =
  ts_topupInfo :: "TopupInfo option"
  ts_presetAmounts :: "PresetAmount list"
  ts_loading :: bool
  ts_error :: "string option"

definition initialTopupState :: TopupState where
  "initialTopupState = \<lparr>ts_topupInfo = None, ts_presetAmounts = [], ts_loading = True, ts_error = None\<rparr>"

definition topup_failed :: "translate \<Rightarrow> string" where
  "topup_failed t = t ''Failed to load top-up information'' []"

text \<open>The presets the hook derives from the information it read.\<close>

definition presets_of :: "TopupInfo \<Rightarrow> PresetAmount list" where
  "presets_of info =
     (if 0 < length (ti_amount_options info)
      then mergePresetAmounts (ti_amount_options info) (ti_discount info)
      else generatePresetAmounts (getMinTopupAmount (Some info)))"

text \<open>
  \<open>fetchTopupInfo\<close> up to its request, and from the reply on; the reply is an error or the
  body with its \<open>success\<close> flag and data.
\<close>

definition beginFetchTopupInfo :: "TopupState \<Rightarrow> TopupState" where
  "beginFetchTopupInfo s = s\<lparr>ts_loading := True\<rparr>"

definition endFetchTopupInfo ::
  "translate \<Rightarrow> string \<Rightarrow> js_error + jsval ApiResponse \<Rightarrow> TopupState \<Rightarrow> TopupState"
where
  "endFetchTopupInfo t userAgent reply s =
     (case reply of
        Inl _ \<Rightarrow> s\<lparr>ts_error := Some (topup_failed t), ts_loading := False\<rparr>
      | Inr response \<Rightarrow>
          (case (if ar_success response = Some True then ar_data response else None) of
             None \<Rightarrow> s\<lparr>ts_error := Some (topup_failed t), ts_loading := False\<rparr>
           | Some data \<Rightarrow>
               (case normalizePublicTopupInfo userAgent data of
                  None \<Rightarrow> s\<lparr>ts_error := Some (topup_failed t), ts_loading := False\<rparr>
                | Some processedData \<Rightarrow>
                    s\<lparr>ts_topupInfo := Some processedData, ts_error := None,
                      ts_presetAmounts := presets_of processedData, ts_loading := False\<rparr>)))"

section \<open>What the parsers accept\<close>

definition whole :: "int \<Rightarrow> int \<Rightarrow> jsnum \<Rightarrow> bool" where
  "whole lo hi x \<longleftrightarrow> (case x of Fin r \<Rightarrow> is_int_rat r \<and> of_int lo \<le> r \<and> r \<le> of_int hi | _ \<Rightarrow> False)"

definition route_ok :: "PaymentMethod \<Rightarrow> bool" where
  "route_ok m \<longleftrightarrow> PUBLIC_ROUTE_ID_PATTERN (pm_route_id m) \<and> public_name (pm_public_method m)
     \<and> (case pm_channel_alias m of None \<Rightarrow> True | Some a \<Rightarrow> public_name a)
     \<and> (case pm_min_topup m of None \<Rightarrow> False | Some x \<Rightarrow> whole 0 MAX_SAFE_INTEGER x)
     \<and> (case pm_currency m of None \<Rightarrow> True | Some c \<Rightarrow> matches_class is_upper 3 3 c)"

definition option_ok :: "PaymentRouteOption \<Rightarrow> bool" where
  "option_ok r \<longleftrightarrow> token_pattern ''option_'' (ro_option_id r) \<and> PUBLIC_ROUTE_ID_PATTERN (ro_route_id r)
     \<and> ro_public_label r \<in> set public_labels"

definition product_ok :: "PaymentProduct \<Rightarrow> bool" where
  "product_ok p \<longleftrightarrow> token_pattern ''product_'' (pp_product_id p) \<and> PUBLIC_ROUTE_ID_PATTERN (pp_route_id p)
     \<and> pp_name p \<noteq> [] \<and> length (pp_name p) \<le> 128 \<and> decimal_pattern (pp_payment_amount p)
     \<and> whole 1 MAX_SAFE_INTEGER (pp_top_up_amount p) \<and> matches_class is_upper 3 3 (pp_currency p)"

lemma whole_Fin [simp]: "whole lo hi (Fin (of_int a)) \<longleftrightarrow> lo \<le> a \<and> a \<le> hi"
  by (simp add: whole_def is_int_rat_def)

lemma wholeE:
  assumes "whole lo hi x"
  obtains a where "x = Fin (of_int a)" "lo \<le> a" "a \<le> hi"
proof -
  obtain r where r: "x = Fin r" "is_int_rat r" using assms by (auto simp: whole_def split: jsnum.splits)
  then have "x = Fin (of_int \<lfloor>r\<rfloor>)" by (auto simp: is_int_rat_def)
  with assms that [of "\<lfloor>r\<rfloor>"] show ?thesis by simp
qed

lemma safe_positive: "is_safe_integer x \<Longrightarrow> js_less (Fin 0) x \<Longrightarrow> whole 1 MAX_SAFE_INTEGER x"
  by (erule safe_integerE) auto

lemma safe_not_leq: "is_safe_integer x \<Longrightarrow> \<not> js_leq x (Fin 0) \<Longrightarrow> whole 1 MAX_SAFE_INTEGER x"
  by (erule safe_integerE) auto

lemma whole_mono: "whole lo hi x \<Longrightarrow> lo' \<le> lo \<Longrightarrow> whole lo' hi x"
  by (erule wholeE) simp

lemma public_id_string:
  "isPublicPaymentRouteId v \<Longrightarrow> PUBLIC_ROUTE_ID_PATTERN (string_or_empty v)"
  by (cases v) (auto simp: isPublicPaymentRouteId_def string_or_empty_def)

lemma route_currency_ok: "route_currency v = Some c \<Longrightarrow> matches_class is_upper 3 3 c"
  using upper_letters by (auto simp: route_currency_def matches_class_def split: option.splits if_splits)

lemma parse_route_ok: "parse_route v = Some m \<Longrightarrow> route_ok m"
proof -
  assume "parse_route v = Some m"
  moreover have "whole 0 MAX_SAFE_INTEGER (Fin 0)"
    using whole_Fin [of 0 MAX_SAFE_INTEGER 0] by (simp add: MAX_SAFE_INTEGER_def)
  ultimately show ?thesis
    using alias_public public_id_string route_currency_ok public_method_public
    by (auto simp: parse_route_def Let_def route_ok_def split: if_splits option.splits
        intro: whole_mono [OF safe_positive])
qed

lemma parse_option_ok: "parse_option v = Some r \<Longrightarrow> option_ok r"
  using public_id_string
  by (auto simp: parse_option_def Let_def option_ok_def string_or_empty_def split: if_splits)

lemma parse_product_ok: "parse_product v = Some p \<Longrightarrow> product_ok p"
  using public_id_string
  by (auto simp: parse_product_def Let_def product_ok_def split: if_splits intro: safe_not_leq)

lemma routes_ok: "m \<in> set (parsePaymentRoutes ua v) \<Longrightarrow> route_ok m"
proof -
  assume "m \<in> set (parsePaymentRoutes ua v)"
  then have "m \<in> set (somes (map parse_route (filter is_nonnull_object (parseJsonArray v))))"
    unfolding parsePaymentRoutes_def using browser_routes_subset by blast
  then show ?thesis using parse_route_ok by (auto dest: sym)
qed

lemma route_options_ok: "r \<in> set (parsePaymentRouteOptions v) \<Longrightarrow> option_ok r"
  using parse_option_ok by (auto simp: parsePaymentRouteOptions_def dest: sym)

lemma products_ok: "p \<in> set (parsePaymentProducts v) \<Longrightarrow> product_ok p"
  using parse_product_ok by (auto simp: parsePaymentProducts_def dest: sym)

section \<open>Amounts and presets\<close>

lemma info_min_topup:
  assumes "normalizePublicTopupInfo ua raw = Some info"
  shows "whole 1 MAX_SAFE_INTEGER (getMinTopupAmount (Some info))"
proof -
  let ?ms = "route_minimums (ti_payment_routes info)"
  have routes: "\<forall>m \<in> set (ti_payment_routes info). route_ok m"
    and base: "whole 1 MAX_SAFE_INTEGER (ti_min_topup info)"
    using assms routes_ok safe_positive whole_Fin [of 1 MAX_SAFE_INTEGER 1]
    by (auto simp: normalizePublicTopupInfo_def Let_def MAX_SAFE_INTEGER_def split: if_splits)
  show ?thesis
  proof (cases "?ms = []")
    case True
    then show ?thesis
      using base by (auto simp: getMinTopupAmount_def DEFAULT_MIN_TOPUP_def truthy_num_def elim!: wholeE)
  next
    case False
    have fin: "\<forall>x \<in> set ?ms. is_finite x" by (auto simp: route_minimums_def)
    have "getMinTopupAmount (Some info) \<in> set ?ms"
      using fold_js_min_inf [OF False fin] False by (simp add: getMinTopupAmount_def)
    then obtain m x where m: "m \<in> set (ti_payment_routes info)" "js_less (Fin 0) x"
      "getMinTopupAmount (Some info) = x" "x = (case pm_min_topup m of Some m \<Rightarrow> m | None \<Rightarrow> NaN)"
      by (auto simp: route_minimums_def)
    then have "whole 0 MAX_SAFE_INTEGER x"
      using routes by (auto simp: route_ok_def split: option.splits)
    with m(2,3) show ?thesis by (auto elim!: wholeE)
  qed
qed

lemma generated_presets:
  assumes "whole 1 hi minAmount" "p \<in> set (generatePresetAmounts minAmount)"
  shows "whole 1 10000 (pa_value p)"
proof -
  have *: "is_safe_integer (pa_value p)" "js_leq minAmount (pa_value p)"
    "js_leq (pa_value p) MAX_TOPUP_AMOUNT" using assms(2) by (auto simp: generatePresetAmounts_def)
  obtain a where a: "pa_value p = Fin (of_int a)" using *(1) by (rule safe_integerE)
  then have "(of_int a :: rat) \<le> of_int 10000" using *(3) by (simp add: MAX_TOPUP_AMOUNT_def)
  then have "a \<le> 10000" by (simp only: of_int_le_iff)
  with * a show ?thesis using assms(1) by (auto elim!: wholeE)
qed

lemma merged_presets:
  assumes "p \<in> set (mergePresetAmounts amounts discounts)"
  shows "whole 1 10000 (pa_value p)"
proof -
  have *: "is_safe_integer (pa_value p)" "js_leq (Fin 1) (pa_value p)"
    "js_leq (pa_value p) MAX_TOPUP_AMOUNT"
    using assms by (auto simp: mergePresetAmounts_def split: if_splits)
  obtain a where a: "pa_value p = Fin (of_int a)" using *(1) by (rule safe_integerE)
  then have "(of_int 1 :: rat) \<le> of_int a" "(of_int a :: rat) \<le> of_int 10000"
    using *(2,3) by (simp_all add: MAX_TOPUP_AMOUNT_def)
  then have "1 \<le> a" "a \<le> 10000" by (simp_all only: of_int_le_iff)
  with a show ?thesis by simp
qed

lemma info_presets:
  assumes "normalizePublicTopupInfo ua raw = Some info" "p \<in> set (presets_of info)"
  shows "whole 1 10000 (pa_value p)"
  using assms(2) merged_presets generated_presets [OF info_min_topup [OF assms(1)]]
  by (auto simp: presets_of_def split: if_splits)

section \<open>Properties\<close>

text \<open>
  (C40) Whatever body the server sends, the top-up information made of it has the declared form:
  public routes whose names hide the provider and whose minimum is a whole number, at most one
  route per brand, options with one of the four labels, products with a name, a decimal price
  and a positive whole amount, positive finite amounts, and a positive whole minimum. Every
  preset derived from it is a whole amount between 1 and 10000.
\<close>

theorem topup_info_form:
  assumes "normalizePublicTopupInfo ua raw = Some info"
  shows "(\<forall>m \<in> set (ti_payment_routes info). route_ok m)
    \<and> length (of_brand ''alipay'' (ti_payment_routes info)) \<le> 1
    \<and> length (of_brand ''wechat_pay'' (ti_payment_routes info)) \<le> 1
    \<and> (\<exists>rs. ti_subscription_payment_routes info = Some rs \<and> (\<forall>m \<in> set rs. route_ok m))
    \<and> (\<forall>r \<in> set (ti_payment_route_options info). option_ok r)
    \<and> (\<forall>p \<in> set (ti_payment_products info). product_ok p)
    \<and> (\<forall>x \<in> set (ti_amount_options info). is_finite x \<and> js_less (Fin 0) x)
    \<and> whole 1 MAX_SAFE_INTEGER (getMinTopupAmount (Some info))
    \<and> (\<forall>p \<in> set (presets_of info). whole 1 10000 (pa_value p))"
proof -
  have "\<exists>v w. ti_payment_routes info = parsePaymentRoutes ua v
      \<and> ti_subscription_payment_routes info = Some (parsePaymentRoutes ua w)"
    "\<exists>v. ti_payment_route_options info = parsePaymentRouteOptions v"
    "\<exists>v. ti_payment_products info = parsePaymentProducts v"
    "\<exists>v. ti_amount_options info = parseAmountOptions v"
    using assms by (auto simp: normalizePublicTopupInfo_def Let_def split: if_splits)
  then show ?thesis
    using info_min_topup [OF assms] info_presets [OF assms] routes_ok route_options_ok products_ok
      browser_brand_count brand_names
    by (auto simp: parseAmountOptions_def parsePaymentRoutes_def)
qed

definition example_topup_body :: jsval where
  "example_topup_body = JObj
     [(''payment_routes'', JArr [JNull,
         JObj [(''route_id'', JStr ''r1''), (''type'', JStr ''alipay''), (''min_topup'', JNum (Fin 5))],
         JObj [(''route_id'', JStr ''not public!'')]]),
      (''min_topup'', JNum (Fin 2))]"

theorem topup_info_form_witness:
  "\<exists>info. normalizePublicTopupInfo [] example_topup_body = Some info
    \<and> map pm_route_id (ti_payment_routes info) = [''r1''] \<and> (\<forall>m \<in> set (ti_payment_routes info). route_ok m)
    \<and> (\<forall>p \<in> set (presets_of info). whole 1 10000 (pa_value p))"
proof -
  have "map_option (map pm_route_id \<circ> ti_payment_routes) (normalizePublicTopupInfo [] example_topup_body) =
      Some [''r1'']" by code_simp
  then obtain info where info: "normalizePublicTopupInfo [] example_topup_body = Some info"
    "map pm_route_id (ti_payment_routes info) = [''r1'']" by auto
  show ?thesis using topup_info_form [OF info(1)] info by (intro exI [of _ info]) simp
qed

end
