(* ===== verification/Wl_Quote.thy ===== *)
theory Wl_Quote
  imports Wl_Topup
begin

text \<open>
  Quotes and payments of the wallet, \<open>features/wallet/hooks/use-payment.ts\<close>: the hook's
  states and refs, its callbacks split where they wait for the server, and their interleaving as
  a step relation. The requests that wait for a reply, the toasts and what the page was told to
  open are part of the state.
\<close>

section \<open>Requests that may arrive late\<close>

text \<open>
  Several hooks ask the server again while an older request is still on its way. The latest
  request has a token; the reply to any other request must not change what is shown.
\<close>

locale latest_request =
  fixes latest :: "'s \<Rightarrow> 'token option"
    and shown :: "'s \<Rightarrow> 'v"
    and deliver :: "'token \<Rightarrow> 'r \<Rightarrow> 's \<Rightarrow> 's"
  assumes stale_shown: "latest s \<noteq> Some k \<Longrightarrow> shown (deliver k r s) = shown s"
    and stale_latest: "latest s \<noteq> Some k \<Longrightarrow> latest (deliver k r s) = latest s"
    and latest_shown: "latest s = Some k \<Longrightarrow> latest s' = Some k \<Longrightarrow> shown s = shown s'
      \<Longrightarrow> shown (deliver k r s) = shown (deliver k r s')"
    and latest_done: "latest s = Some k \<Longrightarrow> latest (deliver k r s) = Some k \<or> latest (deliver k r s) = None"
begin

lemma stale_replies:
  "\<forall>(k, r) \<in> set replies. latest s \<noteq> Some k \<Longrightarrow>
   shown (fold (\<lambda>(k, r). deliver k r) replies s) = shown s
   \<and> latest (fold (\<lambda>(k, r). deliver k r) replies s) = latest s"
  by (induction replies arbitrary: s) (auto simp: stale_shown stale_latest)

lemma only_latest:
  assumes "latest s = Some k" "k \<notin> fst ` set before" "k \<notin> fst ` set after"
  shows "shown (fold (\<lambda>(k, r). deliver k r) (before @ (k, r) # after) s) = shown (deliver k r s)"
proof -
  let ?s = "fold (\<lambda>(k, r). deliver k r) before s"
  have "\<forall>(j, r') \<in> set before. latest s \<noteq> Some j" using assms(1,2) by (auto simp: image_iff)
  then have s: "shown ?s = shown s" "latest ?s = Some k" using stale_replies assms(1) by simp_all
  then have d: "shown (deliver k r ?s) = shown (deliver k r s)"
    using latest_shown [OF s(2) assms(1) s(1)] by simp
  have "\<forall>(j, r') \<in> set after. latest (deliver k r ?s) \<noteq> Some j"
    using latest_done [OF s(2), of r] assms(3) by (auto simp: image_iff)
  then show ?thesis using stale_replies [of after "deliver k r ?s"] d by simp
qed

end

section \<open>Pure parts\<close>

definition isRequestCancelled :: "jsval \<Rightarrow> bool" where
  "isRequestCancelled error \<longleftrightarrow> truthy error \<and> is_object error
     \<and> (js_get error ''code'' = JStr ''ERR_CANCELED'' \<or> js_get error ''name'' = JStr ''AbortError'')"

definition new_error :: "string \<Rightarrow> jsval" where
  "new_error message = JObj [(''message'', JStr message)]"

definition js_of_response :: "'a ApiResponse \<Rightarrow> jsval" where
  "js_of_response r = obj_of [(''code'', map_option JStr (ar_code r)), (''params'', ar_params r)]"

definition method_unavailable :: string where
  "method_unavailable = ''This payment method is temporarily unavailable''"

definition topup_quote_request :: "jsnum \<Rightarrow> PaymentMethod \<Rightarrow> PaymentQuoteRequest" where
  "topup_quote_request topupAmount method =
     \<lparr>qr_order_kind = Topup, qr_amount = Some topupAmount, qr_plan_id = None, qr_product_id = None,
      qr_option_id = None, qr_route_id = Some (pm_route_id method), qr_provider = None,
      qr_payment_method = None\<rparr>"

text \<open>A reply is a thrown value or a body.\<close>

type_synonym reply = "jsval + jsval ApiResponse"

definition requestQuote :: "translate \<Rightarrow> jsnum \<Rightarrow> PaymentMethod \<Rightarrow> reply \<Rightarrow> jsval + PaymentQuote" where
  "requestQuote t topupAmount method reply =
     (if \<not> isUnifiedPaymentMethod method then Inl (new_error (t method_unavailable []))
      else case reply of
        Inl e \<Rightarrow> Inl e
      | Inr body \<Rightarrow>
          let response = createPaymentQuote (topup_quote_request topupAmount method) body
          in case (if isApiSuccess response then ar_data response else None) of
               None \<Rightarrow> Inl (createPaymentError (js_of_response response))
             | Some data \<Rightarrow> Inr \<lparr>
                 pq_quote_id = pq_quote_id data,
                 pq_route_id = or_str (pq_route_id data) (pm_route_id method),
                 pq_public_method = or_str (pq_public_method data) (pm_public_method method),
                 pq_channel_alias = (if truthy_str (pq_channel_alias data) then pq_channel_alias data
                   else pm_channel_alias method),
                 pq_top_up_amount = pq_top_up_amount data,
                 pq_plan_id = pq_plan_id data,
                 pq_payable_amount = pq_payable_amount data,
                 pq_currency = pq_currency data,
                 pq_expires_at = pq_expires_at data,
                 pq_legacy = None\<rparr>)"

section \<open>The hook\<close>

record QuoteCall =
  qc_sequence :: nat
  qc_amount :: jsnum
  qc_method :: PaymentMethod

record StartCall =
  sc_quote_id :: string
  sc_request_id :: string

record PaymentHook =
  ph_quote :: "PaymentQuote option"
  ph_quoteError :: "string option"
  ph_calculating :: bool
  ph_processing :: bool
  ph_requestSequence :: nat
  ph_abortController :: "nat option"
  ph_debounceTimer :: "QuoteCall option"
  ph_paymentRequest :: "StartCall option"
  ph_processingRef :: bool
  ph_quoteCalls :: "QuoteCall list"
  ph_startCalls :: "StartCall list"
  ph_toasts :: "string list"
  ph_assigned :: "string list"
  ph_submitted :: "PaymentForm list"

definition initialPaymentHook :: PaymentHook where
  "initialPaymentHook = \<lparr>ph_quote = None, ph_quoteError = None, ph_calculating = False,
     ph_processing = False, ph_requestSequence = 0, ph_abortController = None,
     ph_debounceTimer = None, ph_paymentRequest = None, ph_processingRef = False,
     ph_quoteCalls = [], ph_startCalls = [], ph_toasts = [], ph_assigned = [], ph_submitted = []\<rparr>"

text \<open>
  A controller is named by the sequence number of the call that made it. Aborting does not take
  a request out of those that wait: its reply, whatever it is, may still arrive.
\<close>

definition cancelPendingQuote :: "PaymentHook \<Rightarrow> PaymentHook" where
  "cancelPendingQuote s = s\<lparr>ph_requestSequence := ph_requestSequence s + 1,
     ph_abortController := None, ph_debounceTimer := None, ph_paymentRequest := None\<rparr>"

definition quote_amount_ok :: "jsnum \<Rightarrow> bool" where
  "quote_amount_ok topupAmount \<longleftrightarrow> \<not> (\<not> is_safe_integer topupAmount \<or> js_less topupAmount (Fin 1)
     \<or> js_less MAX_TOPUP_AMOUNT topupAmount)"

definition refuse_quote :: "string \<Rightarrow> nat \<Rightarrow> PaymentHook \<Rightarrow> PaymentHook" where
  "refuse_quote message sequence s =
     (if sequence = ph_requestSequence s
      then s\<lparr>ph_quote := None, ph_quoteError := Some message, ph_calculating := False\<rparr> else s)"

definition beginApplyQuote :: "translate \<Rightarrow> QuoteCall \<Rightarrow> PaymentHook \<Rightarrow> PaymentHook" where
  "beginApplyQuote t call s =
     (if \<not> quote_amount_ok (qc_amount call)
      then refuse_quote (t ''Enter a whole-number amount between 1 and 10000'' []) (qc_sequence call) s
      else if \<not> isUnifiedPaymentMethod (qc_method call)
      then refuse_quote (t method_unavailable []) (qc_sequence call) s
      else s\<lparr>ph_abortController := Some (qc_sequence call), ph_quoteCalls := ph_quoteCalls s @ [call]\<rparr>)"

definition finish_quote :: "nat \<Rightarrow> PaymentHook \<Rightarrow> PaymentHook" where
  "finish_quote sequence s =
     (if sequence = ph_requestSequence s then s\<lparr>ph_calculating := False, ph_abortController := None\<rparr> else s)"

definition endApplyQuote :: "translate \<Rightarrow> QuoteCall \<Rightarrow> reply \<Rightarrow> PaymentHook \<Rightarrow> PaymentHook" where
  "endApplyQuote t call reply s =
     (let sequence = qc_sequence call; s = s\<lparr>ph_quoteCalls := remove1 call (ph_quoteCalls s)\<rparr>
      in finish_quote sequence
        (case requestQuote t (qc_amount call) (qc_method call) reply of
           Inr nextQuote \<Rightarrow>
             if sequence \<noteq> ph_requestSequence s then s
             else s\<lparr>ph_quote := Some nextQuote, ph_quoteError := None\<rparr>
         | Inl error \<Rightarrow>
             if sequence \<noteq> ph_requestSequence s \<or> isRequestCancelled error then s
             else s\<lparr>ph_quote := None, ph_quoteError := Some (getPaymentErrorMessage error t)\<rparr>))"

definition reset_quote :: "PaymentHook \<Rightarrow> PaymentHook" where
  "reset_quote s = (cancelPendingQuote s)\<lparr>ph_quote := None, ph_quoteError := None, ph_calculating := True\<rparr>"

definition calculatePaymentQuote :: "translate \<Rightarrow> jsnum \<Rightarrow> PaymentMethod \<Rightarrow> PaymentHook \<Rightarrow> PaymentHook" where
  "calculatePaymentQuote t topupAmount method s =
     (let s = reset_quote s
      in beginApplyQuote t \<lparr>qc_sequence = ph_requestSequence s, qc_amount = topupAmount,
           qc_method = method\<rparr> s)"

definition schedulePaymentQuote :: "jsnum \<Rightarrow> PaymentMethod \<Rightarrow> PaymentHook \<Rightarrow> PaymentHook" where
  "schedulePaymentQuote topupAmount method s =
     (let s = reset_quote s
      in s\<lparr>ph_debounceTimer := Some \<lparr>qc_sequence = ph_requestSequence s, qc_amount = topupAmount,
             qc_method = method\<rparr>\<rparr>)"

definition onQuoteTimer :: "translate \<Rightarrow> PaymentHook \<Rightarrow> PaymentHook" where
  "onQuoteTimer t s =
     (case ph_debounceTimer s of
        None \<Rightarrow> s
      | Some call \<Rightarrow> beginApplyQuote t call (s\<lparr>ph_debounceTimer := None\<rparr>))"

text \<open>\<open>Math.floor\<close>, and \<open>Object.entries\<close> of any value.\<close>

definition js_floor :: "jsnum \<Rightarrow> jsnum" where
  "js_floor x = (case x of Fin a \<Rightarrow> Fin (of_int \<lfloor>a\<rfloor>) | _ \<Rightarrow> x)"

definition indexed :: "jsval list \<Rightarrow> (string \<times> jsval) list" where
  "indexed vs = zip (map string_of_nat [0..<length vs]) vs"

fun entries_of :: "jsval \<Rightarrow> js_error + (string \<times> jsval) list" where
  "entries_of (JObj kvs) = Inr (object_entries kvs)"
| "entries_of (JArr vs) = Inr (indexed vs)"
| "entries_of (JStr s) = Inr (indexed (map (\<lambda>c. JStr [c]) s))"
| "entries_of JUndef = Inl TypeError"
| "entries_of JNull = Inl TypeError"
| "entries_of _ = Inr []"

text \<open>What \<open>processPayment\<close> does with a thrown value, and at its end.\<close>

definition fail_payment :: "translate \<Rightarrow> jsval \<Rightarrow> PaymentHook \<Rightarrow> PaymentHook" where
  "fail_payment t error s = s\<lparr>ph_toasts := ph_toasts s @ [getPaymentErrorMessage error t]\<rparr>"

definition finish_payment :: "PaymentHook \<Rightarrow> PaymentHook" where
  "finish_payment s = s\<lparr>ph_processingRef := False, ph_processing := False\<rparr>"

definition beginProcessPayment ::
  "translate \<Rightarrow> jsnum \<Rightarrow> string \<Rightarrow> PaymentQuote \<Rightarrow> PaymentMethod \<Rightarrow> PaymentHook \<Rightarrow> PaymentHook"
where
  "beginProcessPayment t now requestId currentQuote method s =
     (if ph_processingRef s then s
      else if js_leq (pq_expires_at currentQuote) (js_floor (js_div now (Fin 1000)))
      then s\<lparr>ph_toasts := ph_toasts s @ [t ''Payment quote expired. Please request a new quote.'' []]\<rparr>
      else let s = s\<lparr>ph_processingRef := True, ph_processing := True\<rparr>
      in if \<not> isUnifiedPaymentMethod method
         then finish_payment (fail_payment t (new_error (t unavailable_text [])) s)
         else let quoteId = pq_quote_id currentQuote;
                  request = (case ph_paymentRequest s of
                      Some r \<Rightarrow> if sc_quote_id r = quoteId then r
                        else \<lparr>sc_quote_id = quoteId, sc_request_id = requestId\<rparr>
                    | None \<Rightarrow> \<lparr>sc_quote_id = quoteId, sc_request_id = requestId\<rparr>)
              in s\<lparr>ph_paymentRequest := Some request, ph_startCalls := ph_startCalls s @ [request]\<rparr>)"

text \<open>
  The flow of the started payment decides: a code or a pending order is returned, an address is
  opened, anything else is a form. The result is the started payment, or nothing on an error.
\<close>

definition open_payment ::
  "translate \<Rightarrow> url_parser \<Rightarrow> Location option \<Rightarrow> jsval \<Rightarrow> PaymentHook \<Rightarrow> PaymentHook \<times> jsval option"
where
  "open_payment t new_url window paymentStart s =
     (let flow = js_get paymentStart ''flow'';
          unavailable = (fail_payment t (new_error (t unavailable_text [])) s, None)
      in if flow = JStr ''qr'' \<or> flow = JStr ''pending'' then (s, Some paymentStart)
         else if flow = JStr ''hosted_redirect'' then
           let url = js_to_string (js_get paymentStart ''url'')
           in if getSafePaymentUrl new_url window url = None then unavailable
              else (s\<lparr>ph_assigned := snd (navigateToPaymentUrl new_url window url (ph_assigned s))\<rparr>,
                    Some paymentStart)
         else let action = js_to_string (js_get paymentStart ''action'') in
           if getSafePaymentUrl new_url window action = None then unavailable
           else case entries_of (js_get paymentStart ''fields'') of
               Inl _ \<Rightarrow> (fail_payment t (new_error ''TypeError'') s, None)
             | Inr params \<Rightarrow>
                 (s\<lparr>ph_submitted := snd (submitPaymentForm new_url window action params (ph_submitted s))\<rparr>,
                  Some paymentStart))"

definition endProcessPayment ::
  "translate \<Rightarrow> url_parser \<Rightarrow> Location option \<Rightarrow> StartCall \<Rightarrow> reply \<Rightarrow> PaymentHook
   \<Rightarrow> PaymentHook \<times> jsval option"
where
  "endProcessPayment t new_url window call reply s =
     (let s = s\<lparr>ph_startCalls := remove1 call (ph_startCalls s)\<rparr>
      in map_prod finish_payment id
        (case reply of
           Inl error \<Rightarrow> (fail_payment t error s, None)
         | Inr response \<Rightarrow>
             (case (if isApiSuccess response then ar_data response else None) of
                None \<Rightarrow> (fail_payment t (createPaymentError (js_of_response response)) s, None)
              | Some data \<Rightarrow>
                  if \<not> truthy data
                  then (fail_payment t (createPaymentError (js_of_response response)) s, None)
                  else open_payment t new_url window data s)))"

text \<open>\<open>Number.parseFloat\<close> reads the longest numeral at the start of a text.\<close>

definition parse_float :: "string \<Rightarrow> jsnum" where
  "parse_float text =
     (let s = trim_start text;
          neg = (s \<noteq> [] \<and> hd s = CHR ''-'');
          body = (if s \<noteq> [] \<and> (hd s = CHR ''-'' \<or> hd s = CHR ''+'') then tl s else s);
          (ip, fp, e, rest) = read_decimal body;
          f = (case fp of None \<Rightarrow> [] | Some f \<Rightarrow> f);
          v = decimal_value ip f e
      in if prefix ''Infinity'' body then (if neg then NegInf else PosInf)
         else if ip = [] \<and> f = [] then NaN
         else to_double (if neg then - v else v))"

text \<open>The number shown beside the quote.\<close>

definition quote_amount :: "PaymentHook \<Rightarrow> jsnum" where
  "quote_amount s =
     (let n = parse_float (case ph_quote s of
            Some q \<Rightarrow> or_str (pq_payable_amount q) ''0'' | None \<Rightarrow> ''0'')
      in if truthy_num n then n else Fin 0)"

section \<open>Interleavings\<close>

datatype payment_event =
    Calculate jsnum PaymentMethod
  | Schedule jsnum PaymentMethod
  | QuoteTimer
  | QuoteReply QuoteCall reply
  | CancelQuote
  | Pay jsnum string PaymentQuote PaymentMethod
  | StartReply StartCall reply

inductive payment_step ::
  "translate \<Rightarrow> url_parser \<Rightarrow> Location option \<Rightarrow> payment_event \<Rightarrow> PaymentHook \<Rightarrow> PaymentHook \<Rightarrow> bool"
  for t new_url window
where
  step_calculate: "payment_step t new_url window (Calculate a m) s (calculatePaymentQuote t a m s)"
| step_schedule: "payment_step t new_url window (Schedule a m) s (schedulePaymentQuote a m s)"
| step_timer: "ph_debounceTimer s \<noteq> None \<Longrightarrow> payment_step t new_url window QuoteTimer s (onQuoteTimer t s)"
| step_quote_reply: "c \<in> set (ph_quoteCalls s) \<Longrightarrow>
    payment_step t new_url window (QuoteReply c r) s (endApplyQuote t c r s)"
| step_cancel: "payment_step t new_url window CancelQuote s (cancelPendingQuote s)"
| step_pay: "payment_step t new_url window (Pay now i q m) s (beginProcessPayment t now i q m s)"
| step_start_reply: "c \<in> set (ph_startCalls s) \<Longrightarrow>
    payment_step t new_url window (StartReply c r) s (fst (endProcessPayment t new_url window c r s))"

inductive payment_path ::
  "translate \<Rightarrow> url_parser \<Rightarrow> Location option \<Rightarrow> PaymentHook \<Rightarrow> payment_event list \<Rightarrow> PaymentHook \<Rightarrow> bool"
  for t new_url window s0
where
  path_start: "payment_path t new_url window s0 [] s0"
| path_step: "payment_path t new_url window s0 evs s \<Longrightarrow> payment_step t new_url window ev s s'
    \<Longrightarrow> payment_path t new_url window s0 (evs @ [ev]) s'"

abbreviation payment_run ::
  "translate \<Rightarrow> url_parser \<Rightarrow> Location option \<Rightarrow> payment_event list \<Rightarrow> PaymentHook \<Rightarrow> bool"
where
  "payment_run t new_url window evs s \<equiv> payment_path t new_url window initialPaymentHook evs s"

text \<open>The last amount and method asked for, and whether that was after the last cancelling.\<close>

fun asked_by :: "payment_event \<Rightarrow> (jsnum \<times> PaymentMethod) option" where
  "asked_by (Calculate a m) = Some (a, m)"
| "asked_by (Schedule a m) = Some (a, m)"
| "asked_by _ = None"

definition asked :: "payment_event list \<Rightarrow> (jsnum \<times> PaymentMethod) option" where
  "asked evs = last_opt (somes (map asked_by evs))"

definition live :: "payment_event list \<Rightarrow> bool" where
  "live evs = fold (\<lambda>ev b. ev \<noteq> CancelQuote \<and> (asked_by ev \<noteq> None \<or> b)) evs False"

lemma asked_simps [simp]:
  "asked [] = None"
  "asked (evs @ [ev]) = (case asked_by ev of Some x \<Rightarrow> Some x | None \<Rightarrow> asked evs)"
  by (auto simp: asked_def split: option.splits)

lemma live_simps [simp]:
  "live [] = False"
  "live (evs @ [ev]) \<longleftrightarrow> ev \<noteq> CancelQuote \<and> (asked_by ev \<noteq> None \<or> live evs)"
  by (simp_all add: live_def)

text \<open>The calls that may still change the quote: the one on the timer and those sent.\<close>

definition waiting :: "PaymentHook \<Rightarrow> QuoteCall list" where
  "waiting s = (case ph_debounceTimer s of None \<Rightarrow> [] | Some c \<Rightarrow> [c]) @ ph_quoteCalls s"

definition calls_ok :: "payment_event list \<Rightarrow> PaymentHook \<Rightarrow> bool" where
  "calls_ok evs s \<longleftrightarrow>
     distinct (map qc_sequence (waiting s))
     \<and> (\<forall>c \<in> set (waiting s). qc_sequence c \<le> ph_requestSequence s
          \<and> (qc_sequence c = ph_requestSequence s \<longrightarrow> asked evs = Some (qc_amount c, qc_method c) \<and> live evs))
     \<and> (\<forall>c \<in> set (ph_quoteCalls s). quote_amount_ok (qc_amount c) \<and> isUnifiedPaymentMethod (qc_method c))
     \<and> (\<forall>c. ph_debounceTimer s = Some c \<longrightarrow> qc_sequence c = ph_requestSequence s)"

text \<open>The quote is what the server replied for the amount and method asked for last.\<close>

definition answered :: "translate \<Rightarrow> payment_event list \<Rightarrow> PaymentQuote \<Rightarrow> bool" where
  "answered t evs q \<longleftrightarrow> (\<exists>c r. QuoteReply c r \<in> set evs
     \<and> asked evs = Some (qc_amount c, qc_method c) \<and> quote_amount_ok (qc_amount c)
     \<and> isUnifiedPaymentMethod (qc_method c) \<and> requestQuote t (qc_amount c) (qc_method c) r = Inr q)"

definition quote_ok :: "translate \<Rightarrow> payment_event list \<Rightarrow> PaymentHook \<Rightarrow> bool" where
  "quote_ok t evs s \<longleftrightarrow>
     (\<forall>q. ph_quote s = Some q \<longrightarrow> answered t evs q)
     \<and> (ph_calculating s \<longrightarrow> ph_quote s = None \<and> ph_quoteError s = None)
     \<and> (ph_quote s = None \<or> ph_quoteError s = None)
     \<and> (live evs \<longrightarrow>
          ph_calculating s = (ph_requestSequence s \<in> set (map qc_sequence (waiting s))))"

definition start_ok :: "PaymentHook \<Rightarrow> bool" where
  "start_ok s \<longleftrightarrow> ph_processing s = ph_processingRef s
     \<and> length (ph_startCalls s) = (if ph_processingRef s then 1 else 0)"

text \<open>Where the page was sent and what it submitted.\<close>

definition targets_ok :: "Location option \<Rightarrow> PaymentHook \<Rightarrow> bool" where
  "targets_ok window s \<longleftrightarrow>
     (\<forall>href \<in> set (ph_assigned s) \<union> fo_action ` set (ph_submitted s).
        \<exists>loc url. window = Some loc \<and> safe_target loc url \<and> href = u_href url)"

lemmas quote_defs = cancelPendingQuote_def reset_quote_def refuse_quote_def finish_quote_def
  beginApplyQuote_def calculatePaymentQuote_def schedulePaymentQuote_def

lemma calls_initial: "calls_ok [] initialPaymentHook" "quote_ok t [] initialPaymentHook"
  "start_ok initialPaymentHook" "targets_ok w initialPaymentHook"
  by (simp_all add: calls_ok_def quote_ok_def start_ok_def targets_ok_def initialPaymentHook_def waiting_def)

text \<open>After the sequence number has grown, no older call has it.\<close>

lemma calls_old:
  assumes "calls_ok evs s"
  shows "distinct (map qc_sequence (ph_quoteCalls s))"
    "\<forall>c \<in> set (ph_quoteCalls s). qc_sequence c \<le> Suc (ph_requestSequence s)
       \<and> qc_sequence c \<noteq> Suc (ph_requestSequence s)
       \<and> quote_amount_ok (qc_amount c) \<and> isUnifiedPaymentMethod (qc_method c)"
proof -
  show "distinct (map qc_sequence (ph_quoteCalls s))"
    using assms by (auto simp: calls_ok_def waiting_def)
  have "set (ph_quoteCalls s) \<subseteq> set (waiting s)" by (simp add: waiting_def)
  then have "qc_sequence c \<le> ph_requestSequence s" if "c \<in> set (ph_quoteCalls s)" for c
    using assms that unfolding calls_ok_def by blast
  then show "\<forall>c \<in> set (ph_quoteCalls s). qc_sequence c \<le> Suc (ph_requestSequence s)
       \<and> qc_sequence c \<noteq> Suc (ph_requestSequence s)
       \<and> quote_amount_ok (qc_amount c) \<and> isUnifiedPaymentMethod (qc_method c)"
    using assms unfolding calls_ok_def by (metis Suc_n_not_le_n le_SucI)
qed

lemma calls_calculate:
  assumes "calls_ok evs s"
  shows "calls_ok (evs @ [Calculate a m]) (calculatePaymentQuote t a m s)"
  using calls_old [OF assms] by (auto simp: calls_ok_def quote_defs waiting_def Let_def)

lemma calls_schedule:
  assumes "calls_ok evs s"
  shows "calls_ok (evs @ [Schedule a m]) (schedulePaymentQuote a m s)"
  using calls_old [OF assms] by (auto simp: calls_ok_def quote_defs waiting_def Let_def)

lemma calls_cancel:
  assumes "calls_ok evs s"
  shows "calls_ok (evs @ [CancelQuote]) (cancelPendingQuote s)"
  using calls_old [OF assms] by (auto simp: calls_ok_def quote_defs waiting_def Let_def)

lemma calls_timer:
  assumes "calls_ok evs s"
  shows "calls_ok (evs @ [QuoteTimer]) (onQuoteTimer t s)"
  using assms
  by (auto simp: calls_ok_def quote_defs onQuoteTimer_def waiting_def Let_def split: option.splits)

text \<open>What the other callbacks leave alone.\<close>

lemma end_quote_frame:
  "ph_requestSequence (endApplyQuote t c r s) = ph_requestSequence s"
  "ph_debounceTimer (endApplyQuote t c r s) = ph_debounceTimer s"
  "ph_quoteCalls (endApplyQuote t c r s) = remove1 c (ph_quoteCalls s)"
  by (simp_all add: endApplyQuote_def finish_quote_def Let_def split: sum.splits)

lemma pay_frame:
  "ph_requestSequence (beginProcessPayment t now i q m s) = ph_requestSequence s"
  "ph_debounceTimer (beginProcessPayment t now i q m s) = ph_debounceTimer s"
  "ph_quoteCalls (beginProcessPayment t now i q m s) = ph_quoteCalls s"
  "ph_quote (beginProcessPayment t now i q m s) = ph_quote s"
  "ph_quoteError (beginProcessPayment t now i q m s) = ph_quoteError s"
  "ph_calculating (beginProcessPayment t now i q m s) = ph_calculating s"
  "ph_assigned (beginProcessPayment t now i q m s) = ph_assigned s"
  "ph_submitted (beginProcessPayment t now i q m s) = ph_submitted s"
  by (simp_all add: beginProcessPayment_def finish_payment_def fail_payment_def Let_def)

lemma open_frame:
  "ph_requestSequence (fst (open_payment t u w d s)) = ph_requestSequence s"
  "ph_debounceTimer (fst (open_payment t u w d s)) = ph_debounceTimer s"
  "ph_quoteCalls (fst (open_payment t u w d s)) = ph_quoteCalls s"
  "ph_startCalls (fst (open_payment t u w d s)) = ph_startCalls s"
  "ph_quote (fst (open_payment t u w d s)) = ph_quote s"
  "ph_quoteError (fst (open_payment t u w d s)) = ph_quoteError s"
  "ph_calculating (fst (open_payment t u w d s)) = ph_calculating s"
  by (simp_all add: open_payment_def fail_payment_def Let_def split: sum.splits)

lemma end_pay_frame:
  "ph_requestSequence (fst (endProcessPayment t u w c r s)) = ph_requestSequence s"
  "ph_debounceTimer (fst (endProcessPayment t u w c r s)) = ph_debounceTimer s"
  "ph_quoteCalls (fst (endProcessPayment t u w c r s)) = ph_quoteCalls s"
  "ph_startCalls (fst (endProcessPayment t u w c r s)) = remove1 c (ph_startCalls s)"
  "ph_quote (fst (endProcessPayment t u w c r s)) = ph_quote s"
  "ph_quoteError (fst (endProcessPayment t u w c r s)) = ph_quoteError s"
  "ph_calculating (fst (endProcessPayment t u w c r s)) = ph_calculating s"
  "ph_processing (fst (endProcessPayment t u w c r s)) = False"
  "ph_processingRef (fst (endProcessPayment t u w c r s)) = False"
  by (simp_all add: endProcessPayment_def finish_payment_def fail_payment_def Let_def fst_map_prod open_frame
      split: sum.splits option.splits)

lemma calls_reply:
  assumes "calls_ok evs s"
  shows "calls_ok (evs @ [QuoteReply c r]) (endApplyQuote t c r s)"
proof -
  have "distinct (map qc_sequence (remove1 c xs))" if "distinct (map qc_sequence xs)" for xs
    using that by (auto simp: distinct_map intro: inj_on_diff)
  then show ?thesis
    using assms
    by (auto simp: calls_ok_def waiting_def end_quote_frame dest: subsetD [OF set_remove1_subset] split: option.splits)
qed

lemma calls_same:
  assumes "calls_ok evs s" "asked_by ev = None" "ev \<noteq> CancelQuote"
    and "ph_requestSequence s' = ph_requestSequence s" "ph_debounceTimer s' = ph_debounceTimer s"
    and "ph_quoteCalls s' = ph_quoteCalls s"
  shows "calls_ok (evs @ [ev]) s'"
proof -
  have "waiting s' = waiting s" using assms by (simp add: waiting_def)
  then show ?thesis using assms by (simp add: calls_ok_def)
qed

lemma calls_step:
  assumes "payment_step t u w ev s s'" "calls_ok evs s"
  shows "calls_ok (evs @ [ev]) s'"
  using assms
  by (cases rule: payment_step.cases)
     (simp_all add: calls_calculate calls_schedule calls_timer calls_reply calls_cancel
       calls_same pay_frame end_pay_frame)

section \<open>The quote shown\<close>

lemma answered_later: "answered t evs q \<Longrightarrow> asked_by ev = None \<Longrightarrow> answered t (evs @ [ev]) q"
  unfolding answered_def by auto

lemma answered_now:
  "asked evs = Some (qc_amount c, qc_method c) \<Longrightarrow> quote_amount_ok (qc_amount c)
   \<Longrightarrow> isUnifiedPaymentMethod (qc_method c) \<Longrightarrow> requestQuote t (qc_amount c) (qc_method c) r = Inr q
   \<Longrightarrow> answered t (evs @ [QuoteReply c r]) q"
  unfolding answered_def by auto

lemma quote_asked:
  assumes "quote_ok t evs s" "calls_ok evs s"
  shows "quote_ok t (evs @ [Calculate a m]) (calculatePaymentQuote t a m s)"
    "quote_ok t (evs @ [Schedule a m]) (schedulePaymentQuote a m s)"
  using calls_old(2) [OF assms(2)]
  by (auto simp: quote_ok_def quote_defs waiting_def Let_def)

lemma quote_cancelled:
  assumes "quote_ok t evs s"
  shows "quote_ok t (evs @ [CancelQuote]) (cancelPendingQuote s)"
  using assms answered_later by (auto simp: quote_ok_def quote_defs)

lemma quote_timer:
  assumes "quote_ok t evs s" "calls_ok evs s" "ph_debounceTimer s = Some c"
  shows "quote_ok t (evs @ [QuoteTimer]) (onQuoteTimer t s)"
proof -
  have c: "qc_sequence c = ph_requestSequence s" using assms(2,3) by (simp add: calls_ok_def)
  have old: "ph_requestSequence s \<notin> qc_sequence ` set (ph_quoteCalls s)"
    using assms(2,3) c by (auto simp: calls_ok_def waiting_def)
  have "live evs" using assms(2,3) c by (auto simp: calls_ok_def waiting_def)
  then have calc: "ph_calculating s" using assms(1,3) c by (auto simp: quote_ok_def waiting_def)
  then have "ph_quote s = None" "ph_quoteError s = None" using assms(1) by (simp_all add: quote_ok_def)
  then show ?thesis
    using assms(3) c old calc by (auto simp: quote_ok_def quote_defs onQuoteTimer_def waiting_def)
qed

text \<open>The reply to a call that is no longer the latest changes nothing that is shown.\<close>

definition quote_view :: "PaymentHook \<Rightarrow> PaymentQuote option \<times> string option \<times> bool" where
  "quote_view s = (ph_quote s, ph_quoteError s, ph_calculating s)"

lemma stale_reply:
  "qc_sequence c \<noteq> ph_requestSequence s \<Longrightarrow> quote_view (endApplyQuote t c r s) = quote_view s"
  by (simp add: endApplyQuote_def finish_quote_def quote_view_def Let_def split: sum.splits)

lemma latest_reply:
  "qc_sequence c = ph_requestSequence s \<Longrightarrow> quote_view (endApplyQuote t c r s) =
     (case requestQuote t (qc_amount c) (qc_method c) r of
        Inr q \<Rightarrow> (Some q, None, False)
      | Inl e \<Rightarrow> if isRequestCancelled e then (fst (quote_view s), fst (snd (quote_view s)), False)
                else (None, Some (getPaymentErrorMessage e t), False))"
  by (simp add: endApplyQuote_def finish_quote_def quote_view_def Let_def split: sum.splits)

interpretation quote_request: latest_request
  "\<lambda>s. Some (ph_requestSequence s)" quote_view
  "\<lambda>k (a, m, r) s. endApplyQuote t \<lparr>qc_sequence = k, qc_amount = a, qc_method = m\<rparr> r s" for t
  by unfold_locales
     (auto simp: stale_reply latest_reply end_quote_frame split: sum.splits)

lemma quote_reply:
  assumes ok: "quote_ok t evs s" "calls_ok evs s" and c: "c \<in> set (ph_quoteCalls s)"
  shows "quote_ok t (evs @ [QuoteReply c r]) (endApplyQuote t c r s)"
proof -
  let ?s = "endApplyQuote t c r s"
  have dist: "distinct (map qc_sequence (waiting s))" using ok(2) by (simp add: calls_ok_def)
  have cw: "c \<in> set (waiting s)" using c by (simp add: waiting_def)
  have ws: "set (waiting ?s) = set (waiting s) - {c}"
    using dist c by (auto simp: waiting_def end_quote_frame distinct_map split: option.splits)
  show ?thesis
  proof (cases "qc_sequence c = ph_requestSequence s")
    case False
    then have view: "ph_quote ?s = ph_quote s" "ph_quoteError ?s = ph_quoteError s"
      "ph_calculating ?s = ph_calculating s" using stale_reply by (auto simp: quote_view_def)
    have "ph_requestSequence s \<in> qc_sequence ` set (waiting ?s) \<longleftrightarrow>
        ph_requestSequence s \<in> qc_sequence ` set (waiting s)"
      unfolding ws using False by auto
    then show ?thesis
      using ok(1) view answered_later by (auto simp: quote_ok_def end_quote_frame)
  next
    case True
    have now: "asked evs = Some (qc_amount c, qc_method c)" using ok(2) cw True by (simp add: calls_ok_def)
    have valid: "quote_amount_ok (qc_amount c)" "isUnifiedPaymentMethod (qc_method c)"
      using ok(2) c by (simp_all add: calls_ok_def)
    have "ph_requestSequence s \<notin> qc_sequence ` set (waiting ?s)"
      unfolding ws using dist cw True by (auto simp: distinct_map inj_on_def)
    moreover have "quote_view ?s = (case requestQuote t (qc_amount c) (qc_method c) r of
        Inr q \<Rightarrow> (Some q, None, False)
      | Inl e \<Rightarrow> if isRequestCancelled e then (ph_quote s, ph_quoteError s, False)
                else (None, Some (getPaymentErrorMessage e t), False))"
      unfolding latest_reply [OF True] by (simp add: quote_view_def split: sum.splits)
    ultimately show ?thesis
      using ok(1) answered_now [OF now valid] answered_later
      by (auto simp: quote_ok_def end_quote_frame quote_view_def split: sum.splits if_splits)
  qed
qed

lemma quote_same:
  assumes "quote_ok t evs s" "asked_by ev = None" "ev \<noteq> CancelQuote"
    and "ph_requestSequence s' = ph_requestSequence s" "ph_debounceTimer s' = ph_debounceTimer s"
    and "ph_quoteCalls s' = ph_quoteCalls s" "ph_quote s' = ph_quote s"
    and "ph_quoteError s' = ph_quoteError s" "ph_calculating s' = ph_calculating s"
  shows "quote_ok t (evs @ [ev]) s'"
proof -
  have "waiting s' = waiting s" using assms by (simp add: waiting_def)
  then show ?thesis using assms answered_later by (auto simp: quote_ok_def)
qed

lemma quote_step:
  assumes "payment_step t u w ev s s'" "quote_ok t evs s" "calls_ok evs s"
  shows "quote_ok t (evs @ [ev]) s'"
  using assms
  by (cases rule: payment_step.cases)
     (auto simp: quote_asked quote_cancelled quote_timer quote_reply quote_same pay_frame end_pay_frame)

section \<open>Payments\<close>

lemma ask_frame:
  "ph_processing (beginApplyQuote t c s) = ph_processing s"
  "ph_processingRef (beginApplyQuote t c s) = ph_processingRef s"
  "ph_startCalls (beginApplyQuote t c s) = ph_startCalls s"
  "ph_assigned (beginApplyQuote t c s) = ph_assigned s"
  "ph_submitted (beginApplyQuote t c s) = ph_submitted s"
  by (simp_all add: beginApplyQuote_def refuse_quote_def)

lemma end_quote_pay_frame:
  "ph_processing (endApplyQuote t c r s) = ph_processing s"
  "ph_processingRef (endApplyQuote t c r s) = ph_processingRef s"
  "ph_startCalls (endApplyQuote t c r s) = ph_startCalls s"
  "ph_assigned (endApplyQuote t c r s) = ph_assigned s"
  "ph_submitted (endApplyQuote t c r s) = ph_submitted s"
  by (simp_all add: endApplyQuote_def finish_quote_def Let_def split: sum.splits)

lemmas ask_defs = calculatePaymentQuote_def schedulePaymentQuote_def onQuoteTimer_def reset_quote_def
  cancelPendingQuote_def

lemma start_pay: "start_ok s \<Longrightarrow> start_ok (beginProcessPayment t now i q m s)"
  by (auto simp: start_ok_def beginProcessPayment_def finish_payment_def fail_payment_def Let_def)

lemma start_reply:
  assumes "start_ok s" "c \<in> set (ph_startCalls s)"
  shows "start_ok (fst (endProcessPayment t u w c r s))"
proof -
  have "0 < length (ph_startCalls s)" using assms(2) by (auto intro: length_pos_if_in_set)
  then have "length (ph_startCalls s) = 1" using assms(1) by (auto simp: start_ok_def split: if_splits)
  then have "remove1 c (ph_startCalls s) = []" using assms(2) by (auto simp: length_Suc_conv)
  then show ?thesis by (simp add: start_ok_def end_pay_frame)
qed

lemma start_step: "payment_step t u w ev s s' \<Longrightarrow> start_ok s \<Longrightarrow> start_ok s'"
  by (erule payment_step.cases)
     (auto simp: start_pay start_reply, auto simp: start_ok_def ask_defs ask_frame end_quote_pay_frame Let_def
       split: option.splits)

lemma targets_navigate:
  assumes "targets_ok w s"
  shows "targets_ok w (s\<lparr>ph_assigned := snd (navigateToPaymentUrl u w url (ph_assigned s))\<rparr>)"
    "targets_ok w (s\<lparr>ph_submitted := snd (submitPaymentForm u w url params (ph_submitted s))\<rparr>)"
  using assms safe_url_iff [of u _ url] safe_url_no_window
  by (cases w; auto simp: targets_ok_def navigateToPaymentUrl_def submitPaymentForm_def
        split: option.splits)+

lemma targets_fail [simp]: "targets_ok w (fail_payment t e s) = targets_ok w s"
  "targets_ok w (finish_payment s) = targets_ok w s"
  by (simp_all add: targets_ok_def fail_payment_def finish_payment_def)

lemma targets_open: "targets_ok w s \<Longrightarrow> targets_ok w (fst (open_payment t u w d s))"
  using targets_navigate [of w s u]
  by (simp add: open_payment_def Let_def split: sum.splits)

lemma targets_reply: "targets_ok w s \<Longrightarrow> targets_ok w (fst (endProcessPayment t u w c r s))"
proof -
  assume "targets_ok w s"
  then have "targets_ok w (s\<lparr>ph_startCalls := remove1 c (ph_startCalls s)\<rparr>)" by (simp add: targets_ok_def)
  then show ?thesis
    using targets_open
    by (auto simp: endProcessPayment_def Let_def fst_map_prod split: sum.splits option.splits)
qed

lemma targets_step: "payment_step t u w ev s s' \<Longrightarrow> targets_ok w s \<Longrightarrow> targets_ok w s'"
  by (erule payment_step.cases)
     (simp_all add: targets_reply, simp_all add: targets_ok_def ask_defs ask_frame end_quote_pay_frame
       pay_frame Let_def split: option.splits)

lemma run_ok:
  assumes "payment_run t u w evs s"
  shows "calls_ok evs s \<and> quote_ok t evs s \<and> start_ok s \<and> targets_ok w s"
  using assms
  by (induction rule: payment_path.induct)
     (auto simp: calls_initial dest: calls_step quote_step start_step targets_step)

text \<open>A payment that is tried again for the same quote keeps its request identifier.\<close>

lemma pay_again:
  assumes "ph_paymentRequest s = Some r" "sc_quote_id r = pq_quote_id q"
  shows "ph_paymentRequest (beginProcessPayment t now i q m s) = Some r"
    "set (ph_startCalls (beginProcessPayment t now i q m s)) \<subseteq> insert r (set (ph_startCalls s))"
  using assms
  by (auto simp: beginProcessPayment_def finish_payment_def fail_payment_def Let_def)

lemma open_request: "ph_paymentRequest (fst (open_payment t u w d s)) = ph_paymentRequest s"
  by (simp add: open_payment_def fail_payment_def Let_def split: sum.splits)

lemma request_kept:
  "ph_paymentRequest (fst (endProcessPayment t u w c r s)) = ph_paymentRequest s"
  "ph_paymentRequest (endApplyQuote t c' r s) = ph_paymentRequest s"
  "ph_paymentRequest (beginApplyQuote t c' s) = ph_paymentRequest s"
  by (simp_all add: endProcessPayment_def endApplyQuote_def beginApplyQuote_def refuse_quote_def
      finish_quote_def finish_payment_def fail_payment_def Let_def fst_map_prod open_request
      split: sum.splits option.splits)

lemma request_path:
  assumes "payment_path t u w s evs s'"
    and "ph_paymentRequest s = Some r" "set (ph_startCalls s) \<subseteq> {r}"
    and "\<forall>ev \<in> set evs. asked_by ev = None \<and> ev \<noteq> CancelQuote
      \<and> (case ev of Pay now i q m \<Rightarrow> pq_quote_id q = sc_quote_id r | _ \<Rightarrow> True)"
  shows "ph_paymentRequest s' = Some r \<and> set (ph_startCalls s') \<subseteq> {r}"
  using assms
proof (induction rule: payment_path.induct)
  case (path_step evs s1 ev s2)
  then have IH: "ph_paymentRequest s1 = Some r" "set (ph_startCalls s1) \<subseteq> {r}" by simp_all
  have ev: "asked_by ev = None" "ev \<noteq> CancelQuote" using path_step.prems(3) by simp_all
  from path_step.hyps(2) show ?case
  proof (cases rule: payment_step.cases)
    case (step_timer)
    then show ?thesis using IH by (auto simp: onQuoteTimer_def request_kept ask_frame)
  next
    case (step_quote_reply c x)
    then show ?thesis using IH by (simp add: request_kept end_quote_pay_frame)
  next
    case (step_pay now i q m)
    then have "sc_quote_id r = pq_quote_id q" using path_step.prems(3) by simp
    then show ?thesis using pay_again [OF IH(1), of q t now i m] IH(2) step_pay by auto
  next
    case (step_start_reply c x)
    then show ?thesis
      using IH subset_trans [OF set_remove1_subset IH(2)] by (simp add: request_kept end_pay_frame)
  qed (use ev in simp_all)
qed simp

lemma whole_quote_amount: "quote_amount_ok a \<Longrightarrow> whole 1 10000 a"
proof -
  assume a: "quote_amount_ok a"
  then obtain b where b: "a = Fin (of_int b)" by (auto simp: quote_amount_ok_def elim: safe_integerE)
  then have "(of_int 1 :: rat) \<le> of_int b" "(of_int b :: rat) \<le> of_int 10000"
    using a by (simp_all add: quote_amount_ok_def MAX_TOPUP_AMOUNT_def)
  then show ?thesis using b by (simp only: of_int_le_iff whole_Fin)
qed

section \<open>Properties\<close>


definition plain_text :: translate where
  "plain_text key args = key"

definition example_method :: PaymentMethod where
  "example_method = \<lparr>pm_route_id = ''r1'', pm_public_method = ''alipay'', pm_channel_alias = None,
     pm_checkout_mode = ModeQuote, pm_color = None, pm_min_topup = None, pm_icon = None, pm_currency = None\<rparr>"

definition example_call :: "nat \<Rightarrow> QuoteCall" where
  "example_call k = \<lparr>qc_sequence = k, qc_amount = Fin 5, qc_method = example_method\<rparr>"

definition example_reply :: reply where
  "example_reply = Inr \<lparr>ar_success = Some True, ar_code = None, ar_message = None, ar_params = None,
     ar_data = Some (JObj [(''quote_id'', JStr ''q1''), (''payable_amount'', JStr ''5.00'')])\<rparr>"


text \<open>
  Replies that come late do not count: whatever replies to older calls arrive before and
  after it, and in whatever order, the quote, the error and the spinner are those that the reply
  to the latest call alone gives.
\<close>

theorem late_replies_do_not_count:
  assumes "k = ph_requestSequence s" "k \<notin> fst ` set before" "k \<notin> fst ` set after"
  shows "quote_view (fold (\<lambda>(k, a, m, r). endApplyQuote t \<lparr>qc_sequence = k, qc_amount = a, qc_method = m\<rparr> r)
      (before @ (k, a, m, r) # after) s) =
    quote_view (endApplyQuote t \<lparr>qc_sequence = k, qc_amount = a, qc_method = m\<rparr> r s)"
  using quote_request.only_latest [of s k before after t "(a, m, r)"] assms
  by (simp add: case_prod_unfold)

theorem late_replies_do_not_count_witness:
  "quote_view (fold (\<lambda>(k, a, m, r). endApplyQuote plain_text \<lparr>qc_sequence = k, qc_amount = a, qc_method = m\<rparr> r)
      [(0, Fin 3, example_method, example_reply), (1, Fin 5, example_method, example_reply),
       (0, Fin 4, example_method, Inl JNull)]
      (calculatePaymentQuote plain_text (Fin 5) example_method initialPaymentHook)) =
    quote_view (endApplyQuote plain_text (example_call 1) example_reply
      (calculatePaymentQuote plain_text (Fin 5) example_method initialPaymentHook))"
proof -
  have "1 = ph_requestSequence (calculatePaymentQuote plain_text (Fin 5) example_method initialPaymentHook)"
    by code_simp
  from late_replies_do_not_count [OF this, of "[(0, Fin 3, example_method, example_reply)]"
      "[(0, Fin 4, example_method, Inl JNull)]" plain_text "Fin 5" example_method example_reply]
  show ?thesis by (simp add: example_call_def)
qed

text \<open>
  (C39) A payment that is tried again is the same payment: as long as no new quote is asked for
  and no other quote is paid, every request that starts the payment carries the identifier that
  was chosen first, however often and with whatever replies it is retried.
\<close>

theorem payment_retry_keeps_request:
  assumes "payment_path t new_url window s evs s'"
    and "ph_paymentRequest s = Some r" "set (ph_startCalls s) \<subseteq> {r}"
    and "\<forall>ev \<in> set evs. asked_by ev = None \<and> ev \<noteq> CancelQuote
      \<and> (case ev of Pay now i q m \<Rightarrow> pq_quote_id q = sc_quote_id r | _ \<Rightarrow> True)"
  shows "ph_paymentRequest s' = Some r \<and> set (ph_startCalls s') \<subseteq> {r}"
  using request_path [OF assms] .

definition example_quote :: PaymentQuote where
  "example_quote = \<lparr>pq_quote_id = ''q1'', pq_route_id = ''r1'', pq_public_method = ''alipay'',
     pq_channel_alias = None, pq_top_up_amount = None, pq_plan_id = None, pq_payable_amount = ''5'',
     pq_currency = ''USD'', pq_expires_at = Fin 9, pq_legacy = None\<rparr>"

theorem payment_retry_keeps_request_witness:
  "\<exists>s s'. payment_path plain_text path_parser None s
      [StartReply \<lparr>sc_quote_id = ''q1'', sc_request_id = ''id1''\<rparr> (Inl JNull),
       Pay (Fin 0) ''id2'' example_quote example_method] s'
    \<and> ph_startCalls s' \<noteq> [] \<and> set (ph_startCalls s') \<subseteq> {\<lparr>sc_quote_id = ''q1'', sc_request_id = ''id1''\<rparr>}"
proof -
  let ?r = "\<lparr>sc_quote_id = ''q1'', sc_request_id = ''id1''\<rparr>"
  let ?s = "beginProcessPayment plain_text (Fin 0) ''id1'' example_quote example_method initialPaymentHook"
  let ?s1 = "fst (endProcessPayment plain_text path_parser None ?r (Inl JNull) ?s)"
  let ?s2 = "beginProcessPayment plain_text (Fin 0) ''id2'' example_quote example_method ?s1"
  have s: "ph_paymentRequest ?s = Some ?r" "set (ph_startCalls ?s) \<subseteq> {?r}" "?r \<in> set (ph_startCalls ?s)"
    by code_simp+
  have path1: "payment_path plain_text path_parser None ?s ([] @ [StartReply ?r (Inl JNull)]) ?s1"
    by (rule path_step [OF path_start step_start_reply [OF s(3)]])
  have path: "payment_path plain_text path_parser None ?s
      [StartReply ?r (Inl JNull), Pay (Fin 0) ''id2'' example_quote example_method] ?s2"
    using path_step [OF path1 step_pay] by simp
  have "ph_startCalls ?s2 \<noteq> []" by code_simp
  with payment_retry_keeps_request [OF path s(1,2)] path show ?thesis
    by (auto simp: example_quote_def)
qed

end
