(* ===== verification/Wl_Order.thy ===== *)
theory Wl_Order
  imports Wl_Quote
begin

text \<open>
  Following a payment order, \<open>features/wallet/hooks/use-payment-order.ts\<close>: the requests for the
  order, the polling loop with its failures and its deadline, and the effect that starts and
  stops them, as a step relation over the hook's states and refs.
\<close>

section \<open>Polling decisions\<close>

definition POLL_INTERVAL_MS :: jsnum where
  "POLL_INTERVAL_MS = Fin 2000"

definition FALLBACK_POLL_DURATION_MS :: jsnum where
  "FALLBACK_POLL_DURATION_MS = Fin 900000"

datatype PaymentPollingStopReason = StopExpired | StopNetwork | StopTimeout

definition isPaymentOrderTerminal :: "PublicPaymentStatusCode \<Rightarrow> bool" where
  "isPaymentOrderTerminal status \<longleftrightarrow> status \<notin> {Preparing, Awaiting_payment, Confirming}"

definition js_max :: "jsnum \<Rightarrow> jsnum \<Rightarrow> jsnum" where
  "js_max x y = (if x = NaN \<or> y = NaN then NaN else if js_less x y then y else x)"

definition js_add :: "jsnum \<Rightarrow> jsnum \<Rightarrow> jsnum" where
  "js_add x y = js_sub x (js_neg y)"

definition poll_deadline :: "jsnum option \<Rightarrow> jsnum \<Rightarrow> jsnum" where
  "poll_deadline expiresAt now =
     (case expiresAt of
        Some e \<Rightarrow> if truthy_num e \<and> js_less (Fin 0) e then js_mul e (Fin 1000)
          else js_add now FALLBACK_POLL_DURATION_MS
      | None \<Rightarrow> js_add now FALLBACK_POLL_DURATION_MS)"

definition expires_at_ms :: "jsnum \<Rightarrow> PaymentOrder option \<Rightarrow> jsnum" where
  "expires_at_ms fallback currentOrder =
     (case currentOrder of
        Some o' \<Rightarrow> if truthy_num (po_expires_at o') then js_mul (po_expires_at o') (Fin 1000) else fallback
      | None \<Rightarrow> fallback)"

text \<open>
  What a round of the loop decides once its request has ended: nothing more (a final order),
  stop for a reason, or wait and go on with a count of failures. The clock is read twice.
\<close>

datatype PollDecision = PollEnd | PollStop PaymentPollingStopReason | PollAgain jsnum nat

definition poll_decision ::
  "jsnum \<Rightarrow> jsnum \<Rightarrow> jsnum \<Rightarrow> nat \<Rightarrow> PaymentOrder option \<Rightarrow> PaymentOrder option \<Rightarrow> PollDecision"
where
  "poll_decision fallback now now' consecutiveFailures orderRef nextOrder =
     (if (case nextOrder of Some o' \<Rightarrow> isPaymentOrderTerminal (po_status_code o') | None \<Rightarrow> False)
      then PollEnd
      else let failures = (if nextOrder \<noteq> None then 0 else consecutiveFailures + 1)
      in if nextOrder = None \<and> 3 \<le> failures then PollStop StopNetwork
      else let currentOrder = coalesce nextOrder orderRef;
               expiresAtMs = expires_at_ms fallback currentOrder
      in if js_leq expiresAtMs now then PollStop (if currentOrder \<noteq> None then StopExpired else StopTimeout)
         else PollAgain
           (js_min (if nextOrder \<noteq> None then POLL_INTERVAL_MS
                    else js_mul POLL_INTERVAL_MS (Fin (2 ^ failures)))
             (js_max (Fin 250) (js_sub expiresAtMs now'))) failures)"

section \<open>The hook\<close>

record OrderOptions =
  oo_tradeNo :: "string option"
  oo_enabled :: bool
  oo_expiresAt :: "jsnum option"

text \<open>
  A request is named by its controller. The poll that waits for it, if any, is named by the run
  of the effect it belongs to. While the settled callback runs, the order received is kept.
\<close>

record RefreshCall =
  rc_id :: nat
  rc_trade_no :: string
  rc_poll :: "nat option"
  rc_settling :: "PaymentOrder option"

record OrderHook =
  oh_options :: OrderOptions
  oh_order :: "PaymentOrder option"
  oh_loading :: bool
  oh_error :: "string option"
  oh_pollingStoppedReason :: "PaymentPollingStopReason option"
  oh_settledTradeNo :: "string option"
  oh_orderRef :: "PaymentOrder option"
  oh_requestRef :: "nat option"
  oh_effect :: nat
  oh_active :: bool
  oh_timer :: "jsnum option"
  oh_failures :: nat
  oh_fallback :: jsnum
  oh_calls :: "RefreshCall list"
  oh_next :: nat
  oh_settled :: "(nat \<times> PaymentOrder) list"

definition order_enabled :: "OrderOptions \<Rightarrow> bool" where
  "order_enabled opts \<longleftrightarrow> oo_enabled opts \<and> truthy_str (oo_tradeNo opts)"

text \<open>
  \<open>refresh\<close> up to its request. Aborting a request makes it end as cancelled; a request is
  aborted as soon as the request ref no longer names it.
\<close>

definition beginRefresh :: "nat option \<Rightarrow> OrderHook \<Rightarrow> OrderHook" where
  "beginRefresh poll s =
     (if \<not> order_enabled (oh_options s) then s
      else s\<lparr>oh_requestRef := Some (oh_next s), oh_next := oh_next s + 1,
             oh_loading := (if oh_orderRef s = None then True else oh_loading s),
             oh_calls := oh_calls s @ [\<lparr>rc_id = oh_next s,
               rc_trade_no = or_opt (oo_tradeNo (oh_options s)) [], rc_poll = poll,
               rc_settling = None\<rparr>]\<rparr>)"

definition finish_refresh :: "RefreshCall \<Rightarrow> OrderHook \<Rightarrow> OrderHook" where
  "finish_refresh c s =
     (if oh_requestRef s = Some (rc_id c) then s\<lparr>oh_requestRef := None, oh_loading := False\<rparr> else s)"

text \<open>The poll goes on with the result of its request, unless its run of the effect is over.\<close>

definition continue_poll ::
  "jsnum \<Rightarrow> jsnum \<Rightarrow> RefreshCall \<Rightarrow> PaymentOrder option \<Rightarrow> OrderHook \<Rightarrow> OrderHook"
where
  "continue_poll now now' c nextOrder s =
     (if rc_poll c \<noteq> Some (oh_effect s) \<or> \<not> oh_active s then s
      else case poll_decision (oh_fallback s) now now' (oh_failures s) (oh_orderRef s) nextOrder of
          PollEnd \<Rightarrow> s
        | PollStop reason \<Rightarrow> s\<lparr>oh_pollingStoppedReason := Some reason\<rparr>
        | PollAgain delay failures \<Rightarrow> s\<lparr>oh_failures := failures, oh_timer := Some delay\<rparr>)"

definition end_call ::
  "jsnum \<Rightarrow> jsnum \<Rightarrow> RefreshCall \<Rightarrow> PaymentOrder option \<Rightarrow> OrderHook \<Rightarrow> OrderHook"
where
  "end_call now now' c nextOrder s =
     continue_poll now now' c nextOrder
       (finish_refresh c (s\<lparr>oh_calls := remove1 c (oh_calls s)\<rparr>))"

definition is_cancelled :: "jsval \<Rightarrow> bool" where
  "is_cancelled e \<longleftrightarrow> truthy e \<and> is_object e \<and> js_get e ''code'' = JStr ''ERR_CANCELED''"

definition catch_refresh :: "translate \<Rightarrow> jsval \<Rightarrow> OrderHook \<Rightarrow> OrderHook" where
  "catch_refresh t e s =
     (if is_cancelled e then s else s\<lparr>oh_error := Some (getPaymentErrorMessage e t)\<rparr>)"

text \<open>Storing an order, and calling back for a final one: the request whose callback runs is marked.\<close>

definition store_order :: "PaymentOrder \<Rightarrow> OrderHook \<Rightarrow> OrderHook" where
  "store_order data s = s\<lparr>oh_orderRef := Some data, oh_order := Some data, oh_error := None\<rparr>"

definition settle_order :: "RefreshCall \<Rightarrow> PaymentOrder \<Rightarrow> OrderHook \<Rightarrow> OrderHook" where
  "settle_order c data s = s\<lparr>oh_settledTradeNo := Some (po_trade_no data),
     oh_settled := oh_settled s @ [(oh_effect s, data)],
     oh_calls := map (\<lambda>d. if d = c then d\<lparr>rc_settling := Some data\<rparr> else d) (oh_calls s)\<rparr>"

definition endRefresh ::
  "translate \<Rightarrow> currency_digits \<Rightarrow> jsnum \<Rightarrow> jsnum \<Rightarrow> RefreshCall \<Rightarrow> reply \<Rightarrow> OrderHook \<Rightarrow> OrderHook"
where
  "endRefresh t digits now now' c reply s =
     (case reply of
        Inl e \<Rightarrow> end_call now now' c None (catch_refresh t e s)
      | Inr body \<Rightarrow>
          let response = getPaymentOrder digits body
          in case (if isApiSuccess response then ar_data response else None) of
               None \<Rightarrow> end_call now now' c None
                 (s\<lparr>oh_error := Some (getPaymentErrorMessage (js_of_response response) t)\<rparr>)
             | Some data \<Rightarrow>
                 let s = store_order data s
                 in if isPaymentOrderTerminal (po_status_code data)
                       \<and> oh_settledTradeNo s \<noteq> Some (po_trade_no data)
                    then settle_order c data s
                    else end_call now now' c (Some data) s)"

text \<open>The settled callback has ended, with a thrown value or not.\<close>

definition endSettled ::
  "translate \<Rightarrow> jsnum \<Rightarrow> jsnum \<Rightarrow> RefreshCall \<Rightarrow> jsval option \<Rightarrow> OrderHook \<Rightarrow> OrderHook"
where
  "endSettled t now now' c thrown s =
     (case thrown of
        None \<Rightarrow> end_call now now' c (rc_settling c) s
      | Some e \<Rightarrow> end_call now now' c None (catch_refresh t e s))"

definition runEffect :: "jsnum \<Rightarrow> OrderHook \<Rightarrow> OrderHook" where
  "runEffect now s =
     (let s = s\<lparr>oh_effect := oh_effect s + 1\<rparr>
      in if \<not> order_enabled (oh_options s)
         then s\<lparr>oh_requestRef := None, oh_orderRef := None, oh_order := None, oh_error := None,
                oh_pollingStoppedReason := None, oh_active := False\<rparr>
         else beginRefresh (Some (oh_effect s))
           (s\<lparr>oh_orderRef := None, oh_settledTradeNo := None, oh_order := None, oh_error := None,
              oh_pollingStoppedReason := None, oh_active := True, oh_timer := None, oh_failures := 0,
              oh_fallback := poll_deadline (oo_expiresAt (oh_options s)) now\<rparr>))"

definition cleanupEffect :: "OrderHook \<Rightarrow> OrderHook" where
  "cleanupEffect s =
     (if oh_active s then s\<lparr>oh_active := False, oh_requestRef := None, oh_timer := None\<rparr> else s)"

definition renderOrder :: "OrderOptions \<Rightarrow> jsnum \<Rightarrow> OrderHook \<Rightarrow> OrderHook" where
  "renderOrder opts now s =
     (if opts = oh_options s then s
      else runEffect now ((cleanupEffect s)\<lparr>oh_options := opts\<rparr>))"

definition resumePolling :: "jsnum \<Rightarrow> OrderHook \<Rightarrow> OrderHook" where
  "resumePolling now s =
     (if \<not> order_enabled (oh_options s) then s
      else runEffect now (cleanupEffect (s\<lparr>oh_pollingStoppedReason := None\<rparr>)))"

definition onPollTimer :: "OrderHook \<Rightarrow> OrderHook" where
  "onPollTimer s = beginRefresh (Some (oh_effect s)) (s\<lparr>oh_timer := None\<rparr>)"

definition handleVisibilityChange :: "bool \<Rightarrow> OrderHook \<Rightarrow> OrderHook" where
  "handleVisibilityChange hidden s =
     (if \<not> hidden \<and> oh_active s \<and> oh_requestRef s = None then beginRefresh None s else s)"

definition mountOrder :: "OrderOptions \<Rightarrow> jsnum \<Rightarrow> OrderHook" where
  "mountOrder opts now = runEffect now
     \<lparr>oh_options = opts, oh_order = None, oh_loading = False, oh_error = None,
      oh_pollingStoppedReason = None, oh_settledTradeNo = None, oh_orderRef = None,
      oh_requestRef = None, oh_effect = 0, oh_active = False, oh_timer = None, oh_failures = 0,
      oh_fallback = Fin 0, oh_calls = [], oh_next = 0, oh_settled = []\<rparr>"

section \<open>Interleavings\<close>

datatype order_event =
    Render OrderOptions jsnum
  | Resume jsnum
  | Refresh
  | Visible bool
  | PollTimer
  | OrderReply RefreshCall reply jsnum jsnum
  | SettledDone RefreshCall "jsval option" jsnum jsnum
  | Unmount

text \<open>
  A request that was aborted ends as cancelled, which is what the transport documents. The page
  offers a refresh only while it follows an order.
\<close>

inductive order_step :: "translate \<Rightarrow> currency_digits \<Rightarrow> order_event \<Rightarrow> OrderHook \<Rightarrow> OrderHook \<Rightarrow> bool"
  for t digits
where
  order_render: "order_step t digits (Render opts now) s (renderOrder opts now s)"
| order_resume: "oh_active s \<Longrightarrow> order_step t digits (Resume now) s (resumePolling now s)"
| order_refresh: "oh_active s \<Longrightarrow> order_step t digits Refresh s (beginRefresh None s)"
| order_visible: "order_step t digits (Visible hidden) s (handleVisibilityChange hidden s)"
| order_timer: "oh_timer s \<noteq> None \<Longrightarrow> order_step t digits PollTimer s (onPollTimer s)"
| order_reply: "c \<in> set (oh_calls s) \<Longrightarrow> rc_settling c = None \<Longrightarrow>
    oh_requestRef s = Some (rc_id c) \<or> (\<exists>e. r = Inl e \<and> is_cancelled e) \<Longrightarrow>
    order_step t digits (OrderReply c r now now') s (endRefresh t digits now now' c r s)"
| order_settled: "c \<in> set (oh_calls s) \<Longrightarrow> rc_settling c \<noteq> None \<Longrightarrow>
    order_step t digits (SettledDone c thrown now now') s (endSettled t now now' c thrown s)"
| order_unmount: "order_step t digits Unmount s (cleanupEffect s)"

inductive order_run ::
  "translate \<Rightarrow> currency_digits \<Rightarrow> OrderOptions \<Rightarrow> jsnum \<Rightarrow> order_event list \<Rightarrow> OrderHook \<Rightarrow> bool"
  for t digits opts now0
where
  order_start: "order_run t digits opts now0 [] (mountOrder opts now0)"
| order_more: "order_run t digits opts now0 evs s \<Longrightarrow> order_step t digits ev s s'
    \<Longrightarrow> order_run t digits opts now0 (evs @ [ev]) s'"

section \<open>Invariant\<close>

definition polling_calls :: "OrderHook \<Rightarrow> RefreshCall list" where
  "polling_calls s = filter (\<lambda>c. rc_poll c = Some (oh_effect s)) (oh_calls s)"

text \<open>The identities of the requests, and the loop: one timer or one request, or a reason to rest.\<close>

definition idents :: "OrderHook \<Rightarrow> (nat \<times> string) list" where
  "idents s = map (\<lambda>c. (rc_id c, rc_trade_no c)) (oh_calls s)"

definition requests_ok :: "OrderHook \<Rightarrow> bool" where
  "requests_ok s \<longleftrightarrow>
     distinct (map fst (idents s)) \<and> (\<forall>i \<in> fst ` set (idents s). i < oh_next s)
     \<and> (\<forall>i. oh_requestRef s = Some i \<longrightarrow>
          oh_active s \<and> (i, or_opt (oo_tradeNo (oh_options s)) []) \<in> set (idents s))
     \<and> (oh_active s \<longrightarrow> order_enabled (oh_options s))
     \<and> oh_order s = oh_orderRef s"

definition loop_ok :: "OrderHook \<Rightarrow> bool" where
  "loop_ok s \<longleftrightarrow>
     (\<forall>c \<in> set (oh_calls s). \<forall>e. rc_poll c = Some e \<longrightarrow> e \<le> oh_effect s)
     \<and> length (polling_calls s) + (if oh_timer s = None then 0 else 1) \<le> 1
     \<and> (oh_timer s \<noteq> None \<longrightarrow> oh_active s)
     \<and> (\<forall>c \<in> set (polling_calls s). rc_settling c \<noteq> None \<longrightarrow> oh_settledTradeNo s \<noteq> None)
     \<and> (oh_active s \<longrightarrow> polling_calls s \<noteq> [] \<or> oh_timer s \<noteq> None
          \<or> oh_pollingStoppedReason s \<noteq> None \<or> oh_settledTradeNo s \<noteq> None)"

lemma requests_begin: "requests_ok s \<Longrightarrow> oh_active s \<Longrightarrow> requests_ok (beginRefresh p s)"
  by (auto simp: requests_ok_def beginRefresh_def idents_def)

lemma requests_same:
  assumes "requests_ok s" "idents s' = idents s" "oh_next s' = oh_next s" "oh_requestRef s' = oh_requestRef s"
    and "oh_active s' = oh_active s" "oh_options s' = oh_options s" "oh_order s' = oh_orderRef s'"
  shows "requests_ok s'"
  using assms by (simp add: requests_ok_def)

lemma continue_frame [simp]:
  "oh_calls (continue_poll now now' c n s) = oh_calls s"
  "oh_next (continue_poll now now' c n s) = oh_next s"
  "oh_requestRef (continue_poll now now' c n s) = oh_requestRef s"
  "oh_active (continue_poll now now' c n s) = oh_active s"
  "oh_options (continue_poll now now' c n s) = oh_options s"
  "oh_order (continue_poll now now' c n s) = oh_order s"
  "oh_orderRef (continue_poll now now' c n s) = oh_orderRef s"
  "oh_effect (continue_poll now now' c n s) = oh_effect s"
  "oh_settledTradeNo (continue_poll now now' c n s) = oh_settledTradeNo s"
  "oh_settled (continue_poll now now' c n s) = oh_settled s"
  by (simp_all add: continue_poll_def split: PollDecision.splits)

lemma remove_ident:
  assumes "distinct (map fst xs)" "(i, t) \<in> set xs" "i \<noteq> fst y"
  shows "(i, t) \<in> set (remove1 y xs)"
  using assms by (metis fst_conv in_set_remove1)

lemma map_remove1_inj: "inj_on f (insert c (set xs)) \<Longrightarrow> map f (remove1 c xs) = remove1 (f c) (map f xs)"
  by (induction xs) (auto simp: inj_on_def)

lemma idents_remove:
  assumes "distinct (map fst (idents s))" "c \<in> set (oh_calls s)"
  shows "idents (s\<lparr>oh_calls := remove1 c (oh_calls s)\<rparr>) = remove1 (rc_id c, rc_trade_no c) (idents s)"
proof -
  have "inj_on (\<lambda>c. (rc_id c, rc_trade_no c)) (insert c (set (oh_calls s)))"
    using assms by (auto simp: idents_def distinct_map inj_on_def insert_absorb)
  from map_remove1_inj [OF this] show ?thesis by (simp add: idents_def)
qed

lemma requests_finish:
  assumes ok: "requests_ok s" and c: "c \<in> set (oh_calls s)"
  shows "requests_ok (finish_refresh c (s\<lparr>oh_calls := remove1 c (oh_calls s)\<rparr>))"
proof -
  let ?y = "(rc_id c, rc_trade_no c)"
  let ?s = "s\<lparr>oh_calls := remove1 c (oh_calls s)\<rparr>"
  have dist: "distinct (map fst (idents s))" using ok by (simp add: requests_ok_def)
  have ids: "idents ?s = remove1 ?y (idents s)" by (rule idents_remove [OF dist c])
  have fin: "idents (finish_refresh c ?s) = remove1 ?y (idents s)"
    using ids by (simp add: finish_refresh_def idents_def)
  have "distinct (map fst (remove1 ?y (idents s)))"
    using dist by (auto simp: distinct_map intro: inj_on_diff)
  moreover have "i < oh_next s" if "i \<in> fst ` set (remove1 ?y (idents s))" for i
    using that ok set_remove1_subset [of ?y "idents s"] by (auto simp: requests_ok_def)
  moreover have "(i, x) \<in> set (remove1 ?y (idents s))" if "(i, x) \<in> set (idents s)" "i \<noteq> rc_id c" for i x
    by (rule remove_ident [OF dist that(1)]) (simp add: that(2))
  ultimately show ?thesis
    using ok unfolding requests_ok_def fin by (auto simp: finish_refresh_def)
qed

lemma requests_end:
  assumes "requests_ok s" "c \<in> set (oh_calls s)"
  shows "requests_ok (end_call now now' c n s)"
  unfolding end_call_def
  by (rule requests_same [OF requests_finish [OF assms]])
     (use requests_finish [OF assms] in \<open>simp_all add: idents_def requests_ok_def\<close>)

lemma loop_same:
  assumes "oh_calls s' = oh_calls s" "oh_effect s' = oh_effect s" "oh_timer s' = oh_timer s"
    and "oh_active s' = oh_active s" "oh_pollingStoppedReason s' = oh_pollingStoppedReason s"
    and "oh_settledTradeNo s' = oh_settledTradeNo s"
  shows "loop_ok s' = loop_ok s"
  by (simp only: loop_ok_def polling_calls_def assms)

lemma error_frame [simp]: "requests_ok (s\<lparr>oh_error := m\<rparr>) = requests_ok s" "loop_ok (s\<lparr>oh_error := m\<rparr>) = loop_ok s"
  by (simp_all add: requests_ok_def idents_def loop_same [of "s\<lparr>oh_error := m\<rparr>" s])

lemma catch_frame [simp]:
  "oh_calls (catch_refresh t e s) = oh_calls s"
  "requests_ok (catch_refresh t e s) = requests_ok s"
  "loop_ok (catch_refresh t e s) = loop_ok s"
  by (simp_all add: catch_refresh_def)

lemma endRefresh_cases:
  obtains (thrown) e where "r = Inl e"
      "endRefresh t digits now now' c r s = end_call now now' c None (catch_refresh t e s)"
  | (refused) m where
      "endRefresh t digits now now' c r s = end_call now now' c None (s\<lparr>oh_error := Some m\<rparr>)"
  | (settled) body data where "r = Inr body" "ar_data (getPaymentOrder digits body) = Some data"
      "isPaymentOrderTerminal (po_status_code data)" "oh_settledTradeNo s \<noteq> Some (po_trade_no data)"
      "endRefresh t digits now now' c r s = settle_order c data (store_order data s)"
  | (stored) body data where "r = Inr body" "ar_data (getPaymentOrder digits body) = Some data"
      "isPaymentOrderTerminal (po_status_code data) \<longrightarrow> oh_settledTradeNo s = Some (po_trade_no data)"
      "endRefresh t digits now now' c r s = end_call now now' c (Some data) (store_order data s)"
proof (cases r)
  case (Inl e)
  then show thesis using thrown by (simp add: endRefresh_def)
next
  case (Inr body)
  show thesis
  proof (cases "isApiSuccess (getPaymentOrder digits body)")
    case False
    then show thesis using refused Inr by (simp add: endRefresh_def Let_def)
  next
    case True
    show thesis
    proof (cases "ar_data (getPaymentOrder digits body)")
      case None
      then show thesis using refused Inr True by (simp add: endRefresh_def Let_def)
    next
      case (Some data)
      show thesis
        using settled [OF Inr Some] stored [OF Inr Some] Inr Some True
        by (cases "isPaymentOrderTerminal (po_status_code data) \<and> oh_settledTradeNo s \<noteq> Some (po_trade_no data)")
           (auto simp: endRefresh_def Let_def store_order_def)
    qed
  qed
qed

lemma requests_store: "requests_ok s \<Longrightarrow> requests_ok (store_order data s)"
  by (simp add: requests_ok_def store_order_def idents_def)

lemma requests_settle: "requests_ok s \<Longrightarrow> requests_ok (settle_order c data s)"
  by (rule requests_same [of s]) (simp_all add: settle_order_def idents_def requests_ok_def)

lemma requests_reply:
  assumes "requests_ok s" "c \<in> set (oh_calls s)"
  shows "requests_ok (endRefresh t digits now now' c r s)"
proof -
  have "c \<in> set (oh_calls (store_order data s))" for data using assms(2) by (simp add: store_order_def)
  then show ?thesis
    using assms requests_end requests_store requests_settle
    by (cases rule: endRefresh_cases [of r t digits now now' c s]) simp_all
qed

lemma requests_cleanup: "requests_ok s \<Longrightarrow> requests_ok (cleanupEffect s)"
  by (auto simp: requests_ok_def cleanupEffect_def idents_def)

lemma cleanup_quiet: "requests_ok s \<Longrightarrow> oh_requestRef (cleanupEffect s) = None \<and> \<not> oh_active (cleanupEffect s)"
  by (cases "oh_requestRef s") (auto simp: requests_ok_def cleanupEffect_def)

lemma requests_effect:
  assumes "requests_ok s" "oh_requestRef s = None"
  shows "requests_ok (runEffect now s)"
proof (cases "order_enabled (oh_options s)")
  case True
  let ?s = "s\<lparr>oh_effect := oh_effect s + 1, oh_orderRef := None, oh_settledTradeNo := None,
    oh_order := None, oh_error := None, oh_pollingStoppedReason := None, oh_active := True,
    oh_timer := None, oh_failures := 0, oh_fallback := poll_deadline (oo_expiresAt (oh_options s)) now\<rparr>"
  have "requests_ok ?s" using assms True by (simp add: requests_ok_def idents_def)
  then have "requests_ok (beginRefresh (Some (oh_effect ?s)) ?s)" by (rule requests_begin) simp
  then show ?thesis using True by (simp add: runEffect_def Let_def)
next
  case False
  then show ?thesis using assms by (simp add: runEffect_def requests_ok_def idents_def)
qed

lemma requests_restart:
  assumes "requests_ok s"
  shows "requests_ok (runEffect now ((cleanupEffect s)\<lparr>oh_options := opts\<rparr>))"
  using requests_cleanup [OF assms] cleanup_quiet [OF assms]
  by (intro requests_effect) (simp_all add: requests_ok_def idents_def)

lemma requests_mount: "requests_ok (mountOrder opts now)"
  unfolding mountOrder_def by (rule requests_effect) (simp_all add: requests_ok_def idents_def)

lemma stopped_frame [simp]: "requests_ok (s\<lparr>oh_pollingStoppedReason := x\<rparr>) = requests_ok s"
  by (simp add: requests_ok_def idents_def)

lemma requests_timer: "requests_ok s \<Longrightarrow> oh_active s \<Longrightarrow> requests_ok (onPollTimer s)"
  unfolding onPollTimer_def by (rule requests_begin) (simp_all add: requests_ok_def idents_def)

lemma requests_step:
  assumes "order_step t digits ev s s'" "requests_ok s" "loop_ok s"
  shows "requests_ok s'"
  using assms(1)
proof (cases rule: order_step.cases)
  case (order_render opts now)
  then show ?thesis using requests_restart [OF assms(2)] assms(2) by (simp add: renderOrder_def)
next
  case (order_resume now)
  have "requests_ok (s\<lparr>oh_pollingStoppedReason := None\<rparr>)" using assms(2) by simp
  from requests_effect [OF requests_cleanup [OF this]] cleanup_quiet [OF this]
  show ?thesis using order_resume assms(2) by (simp add: resumePolling_def)
next
  case (order_timer)
  then show ?thesis using requests_timer [OF assms(2)] assms(3) by (simp add: loop_ok_def)
next
  case (order_visible hidden)
  then show ?thesis using requests_begin [OF assms(2)] assms(2) by (simp add: handleVisibilityChange_def)
next
  case (order_settled c thrown now now')
  then show ?thesis
    using requests_end assms(2) by (simp add: endSettled_def split: option.splits)
qed (use assms(2) requests_begin requests_reply requests_cleanup in \<open>simp_all\<close>)

section \<open>The loop stays alive\<close>

lemma loop_begin_other: "loop_ok s \<Longrightarrow> loop_ok (beginRefresh None s)"
  by (auto simp: loop_ok_def beginRefresh_def polling_calls_def)

lemma loop_begin_poll:
  assumes "oh_active s" "order_enabled (oh_options s)" "polling_calls s = []" "oh_timer s = None"
    and "\<forall>c \<in> set (oh_calls s). \<forall>e. rc_poll c = Some e \<longrightarrow> e \<le> oh_effect s"
  shows "loop_ok (beginRefresh (Some (oh_effect s)) s)"
  using assms by (auto simp: loop_ok_def beginRefresh_def polling_calls_def)

lemma loop_timer:
  assumes "loop_ok s" "requests_ok s" "oh_timer s \<noteq> None"
  shows "loop_ok (onPollTimer s)"
proof -
  have "polling_calls s = []" "oh_active s" using assms(1,3) by (simp_all add: loop_ok_def)
  then have "loop_ok (beginRefresh (Some (oh_effect (s\<lparr>oh_timer := None\<rparr>))) (s\<lparr>oh_timer := None\<rparr>))"
    using assms by (intro loop_begin_poll) (auto simp: loop_ok_def requests_ok_def polling_calls_def)
  then show ?thesis by (simp add: onPollTimer_def)
qed

lemma loop_effect:
  assumes "\<forall>c \<in> set (oh_calls s). \<forall>e. rc_poll c = Some e \<longrightarrow> e \<le> oh_effect s" "oh_timer s = None"
  shows "loop_ok (runEffect now s)"
proof (cases "order_enabled (oh_options s)")
  case True
  let ?s = "s\<lparr>oh_effect := oh_effect s + 1, oh_orderRef := None, oh_settledTradeNo := None,
    oh_order := None, oh_error := None, oh_pollingStoppedReason := None, oh_active := True,
    oh_timer := None, oh_failures := 0, oh_fallback := poll_deadline (oo_expiresAt (oh_options s)) now\<rparr>"
  have "polling_calls ?s = []" using assms(1) by (fastforce simp: polling_calls_def filter_empty_conv)
  then have "loop_ok (beginRefresh (Some (oh_effect ?s)) ?s)"
    using assms(1) True by (intro loop_begin_poll) auto
  then show ?thesis using True by (simp add: runEffect_def Let_def)
next
  case False
  let ?s = "s\<lparr>oh_effect := oh_effect s + 1, oh_requestRef := None, oh_orderRef := None, oh_order := None,
    oh_error := None, oh_pollingStoppedReason := None, oh_active := False\<rparr>"
  have "polling_calls ?s = []" using assms(1) by (fastforce simp: polling_calls_def filter_empty_conv)
  then have "loop_ok ?s" using assms by (auto simp: loop_ok_def)
  then show ?thesis using False by (simp add: runEffect_def Let_def)
qed

lemma cleanup_frame [simp]: "oh_calls (cleanupEffect s) = oh_calls s" "oh_effect (cleanupEffect s) = oh_effect s"
  by (simp_all add: cleanupEffect_def)

lemma cleanup_timer: "loop_ok s \<Longrightarrow> oh_timer (cleanupEffect s) = None"
  by (auto simp: cleanupEffect_def loop_ok_def)

lemma loop_cleanup: "loop_ok s \<Longrightarrow> loop_ok (cleanupEffect s)"
  by (auto simp: loop_ok_def cleanupEffect_def polling_calls_def)

lemma loop_mount: "loop_ok (mountOrder opts now)"
  unfolding mountOrder_def by (rule loop_effect) simp_all

lemma filter_remove1: "filter P (remove1 c xs) = (if P c then remove1 c (filter P xs) else filter P xs)"
  by (induction xs) auto

lemma poll_end:
  "poll_decision fb now now' k ref n = PollEnd \<Longrightarrow> \<exists>o'. n = Some o' \<and> isPaymentOrderTerminal (po_status_code o')"
  by (auto simp: poll_decision_def Let_def split: option.splits if_splits)

lemma loop_end:
  assumes ok: "loop_ok s" and c: "c \<in> set (oh_calls s)"
    and final: "\<And>o'. n = Some o' \<Longrightarrow> isPaymentOrderTerminal (po_status_code o') \<Longrightarrow>
      rc_poll c = Some (oh_effect s) \<Longrightarrow> oh_settledTradeNo s \<noteq> None"
  shows "loop_ok (end_call now now' c n s)"
proof -
  let ?s = "finish_refresh c (s\<lparr>oh_calls := remove1 c (oh_calls s)\<rparr>)"
  have fields: "oh_calls ?s = remove1 c (oh_calls s)" "oh_effect ?s = oh_effect s" "oh_timer ?s = oh_timer s"
    "oh_active ?s = oh_active s" "oh_pollingStoppedReason ?s = oh_pollingStoppedReason s"
    "oh_settledTradeNo ?s = oh_settledTradeNo s" by (simp_all add: finish_refresh_def)
  have sub: "set (remove1 c (oh_calls s)) \<subseteq> set (oh_calls s)" by (rule set_remove1_subset)
  have pc: "polling_calls ?s = (if rc_poll c = Some (oh_effect s) then remove1 c (polling_calls s) else polling_calls s)"
    by (simp add: polling_calls_def fields filter_remove1)
  show ?thesis
  proof (cases "rc_poll c = Some (oh_effect s)")
    case False
    then have "loop_ok ?s" using ok sub pc by (auto simp: loop_ok_def fields subset_iff)
    then show ?thesis using False by (simp add: end_call_def continue_poll_def fields)
  next
    case True
    then have "c \<in> set (polling_calls s)" using c by (simp add: polling_calls_def)
    then have one: "polling_calls s = [c]" "oh_timer s = None"
      using ok by (auto simp: loop_ok_def length_Suc_conv le_Suc_eq split: if_splits)
    then have none: "polling_calls ?s = []" using pc True by simp
    have old: "\<forall>d \<in> set (remove1 c (oh_calls s)). \<forall>e. rc_poll d = Some e \<longrightarrow> e \<le> oh_effect s"
      using ok sub by (auto simp: loop_ok_def)
    have after: "polling_calls (continue_poll now now' c n ?s) = []"
      using none by (simp add: polling_calls_def)
    show ?thesis
    proof (cases "oh_active s")
      case False
      then have "loop_ok ?s" using none one(2) old by (simp add: loop_ok_def fields)
      then show ?thesis using False by (simp add: end_call_def continue_poll_def fields)
    next
      case active: True
      let ?d = "poll_decision (oh_fallback ?s) now now' (oh_failures ?s) (oh_orderRef ?s) n"
      have "oh_settledTradeNo s \<noteq> None" if "?d = PollEnd" using poll_end [OF that] final True by blast
      then show ?thesis
        using after old one(2) active True
        by (cases ?d) (auto simp: loop_ok_def end_call_def fields continue_poll_def polling_calls_def)
    qed
  qed
qed

lemma store_frame [simp]:
  "oh_calls (store_order data s) = oh_calls s" "oh_effect (store_order data s) = oh_effect s"
  "oh_settledTradeNo (store_order data s) = oh_settledTradeNo s" "oh_settled (store_order data s) = oh_settled s"
  "oh_active (store_order data s) = oh_active s" "oh_options (store_order data s) = oh_options s"
  "oh_requestRef (store_order data s) = oh_requestRef s"
  by (simp_all add: store_order_def)

lemma loop_store [simp]: "loop_ok (store_order data s) = loop_ok s"
  by (rule loop_same) (simp_all add: store_order_def)

lemma loop_end_none: "loop_ok s \<Longrightarrow> c \<in> set (oh_calls s) \<Longrightarrow> loop_ok (end_call now now' c None s)"
  by (rule loop_end) simp_all

lemma loop_settle:
  assumes "loop_ok s"
  shows "loop_ok (settle_order c data s)"
proof -
  let ?mark = "\<lambda>d. if d = c then d\<lparr>rc_settling := Some data\<rparr> else d"
  have "polling_calls (settle_order c data s) = map ?mark (polling_calls s)"
    unfolding polling_calls_def settle_order_def by (simp add: filter_map comp_def) (intro arg_cong [of _ _ "map _"] filter_cong refl, auto)
  then show ?thesis using assms by (auto simp: loop_ok_def settle_order_def)
qed

lemma loop_reply:
  assumes "loop_ok s" "c \<in> set (oh_calls s)"
  shows "loop_ok (endRefresh t digits now now' c r s)"
proof (cases rule: endRefresh_cases [of r t digits now now' c s])
  case (stored body data)
  then show ?thesis using assms loop_end [of "store_order data s" c "Some data"] by simp
qed (use assms loop_end_none loop_settle in simp_all)

lemma loop_settled:
  assumes "loop_ok s" "c \<in> set (oh_calls s)" "rc_settling c \<noteq> None"
  shows "loop_ok (endSettled t now now' c thrown s)"
proof -
  have "oh_settledTradeNo s \<noteq> None" if "rc_poll c = Some (oh_effect s)"
    using assms that by (auto simp: loop_ok_def polling_calls_def)
  then show ?thesis
    using assms loop_end [of s c "rc_settling c"] loop_end_none
    by (auto simp: endSettled_def split: option.splits)
qed

lemma loop_step:
  assumes "order_step t digits ev s s'" "requests_ok s" "loop_ok s"
  shows "loop_ok s'"
  using assms(1)
proof (cases rule: order_step.cases)
  case (order_render opts now)
  have "loop_ok (runEffect now ((cleanupEffect s)\<lparr>oh_options := opts\<rparr>))"
    using assms(3) cleanup_timer [OF assms(3)] by (intro loop_effect) (auto simp: loop_ok_def)
  then show ?thesis using order_render assms(3) by (simp add: renderOrder_def)
next
  case (order_resume now)
  let ?s = "s\<lparr>oh_pollingStoppedReason := None\<rparr>"
  have "oh_timer (cleanupEffect ?s) = None" using assms(3) by (auto simp: cleanupEffect_def loop_ok_def)
  then have "loop_ok (runEffect now (cleanupEffect ?s))"
    using assms(3) by (intro loop_effect) (auto simp: loop_ok_def)
  then show ?thesis using order_resume assms(3) by (simp add: resumePolling_def)
qed (use assms(2,3) loop_begin_other loop_timer loop_reply loop_settled loop_cleanup
      in \<open>simp_all add: handleVisibilityChange_def\<close>)

section \<open>The order shown and the callbacks\<close>

definition trade_of :: "OrderHook \<Rightarrow> string" where
  "trade_of s = or_opt (oo_tradeNo (oh_options s)) []"

text \<open>An order on display was received for the trade number followed.\<close>

definition order_answered :: "currency_digits \<Rightarrow> order_event list \<Rightarrow> OrderHook \<Rightarrow> bool" where
  "order_answered digits evs s \<longleftrightarrow>
     (\<forall>o'. oh_order s = Some o' \<longrightarrow> (\<exists>c body now now'. OrderReply c (Inr body) now now' \<in> set evs
        \<and> rc_trade_no c = trade_of s \<and> ar_data (getPaymentOrder digits body) = Some o'))"

text \<open>No two neighbouring callbacks of one run of the effect are for the same trade number.\<close>

fun callbacks_ok :: "(nat \<times> PaymentOrder) list \<Rightarrow> bool" where
  "callbacks_ok (x # y # xs) \<longleftrightarrow>
     (fst x = fst y \<longrightarrow> po_trade_no (snd x) \<noteq> po_trade_no (snd y)) \<and> callbacks_ok (y # xs)"
| "callbacks_ok _ = True"

definition settled_ok :: "OrderHook \<Rightarrow> bool" where
  "settled_ok s \<longleftrightarrow> callbacks_ok (oh_settled s)
     \<and> (\<forall>x \<in> set (oh_settled s). isPaymentOrderTerminal (po_status_code (snd x)) \<and> fst x \<le> oh_effect s)
     \<and> (oh_active s \<and> oh_settled s \<noteq> [] \<and> fst (last (oh_settled s)) = oh_effect s \<longrightarrow>
          oh_settledTradeNo s = Some (po_trade_no (snd (last (oh_settled s)))))"

lemma callbacks_snoc:
  "callbacks_ok (xs @ [y]) \<longleftrightarrow> callbacks_ok xs
     \<and> (xs \<noteq> [] \<and> fst (last xs) = fst y \<longrightarrow> po_trade_no (snd (last xs)) \<noteq> po_trade_no (snd y))"
  by (induction xs rule: callbacks_ok.induct) auto

lemma end_frame [simp]:
  "oh_order (end_call now now' c n s) = oh_order s" "oh_options (end_call now now' c n s) = oh_options s"
  "oh_settled (end_call now now' c n s) = oh_settled s" "oh_effect (end_call now now' c n s) = oh_effect s"
  "oh_active (end_call now now' c n s) = oh_active s"
  "oh_settledTradeNo (end_call now now' c n s) = oh_settledTradeNo s"
  by (simp_all add: end_call_def finish_refresh_def)

lemma catch_fields [simp]:
  "oh_order (catch_refresh t e s) = oh_order s" "oh_options (catch_refresh t e s) = oh_options s"
  "oh_settled (catch_refresh t e s) = oh_settled s" "oh_effect (catch_refresh t e s) = oh_effect s"
  "oh_active (catch_refresh t e s) = oh_active s" "oh_settledTradeNo (catch_refresh t e s) = oh_settledTradeNo s"
  by (simp_all add: catch_refresh_def)

lemma begin_fields [simp]:
  "oh_order (beginRefresh p s) = oh_order s" "oh_options (beginRefresh p s) = oh_options s"
  "oh_settled (beginRefresh p s) = oh_settled s" "oh_effect (beginRefresh p s) = oh_effect s"
  "oh_active (beginRefresh p s) = oh_active s" "oh_settledTradeNo (beginRefresh p s) = oh_settledTradeNo s"
  by (simp_all add: beginRefresh_def)

lemma settle_fields [simp]:
  "oh_order (settle_order c d s) = oh_order s" "oh_options (settle_order c d s) = oh_options s"
  "oh_settled (settle_order c d s) = oh_settled s @ [(oh_effect s, d)]"
  "oh_effect (settle_order c d s) = oh_effect s" "oh_active (settle_order c d s) = oh_active s"
  "oh_settledTradeNo (settle_order c d s) = Some (po_trade_no d)"
  by (simp_all add: settle_order_def)

lemma effect_fields [simp]:
  "oh_order (runEffect now s) = None" "oh_settled (runEffect now s) = oh_settled s"
  "oh_effect (runEffect now s) = Suc (oh_effect s)"
  by (simp_all add: runEffect_def Let_def)

lemma cleanup_fields [simp]:
  "oh_order (cleanupEffect s) = oh_order s" "oh_settled (cleanupEffect s) = oh_settled s"
  "oh_options (cleanupEffect s) = oh_options s" "oh_settledTradeNo (cleanupEffect s) = oh_settledTradeNo s"
  by (simp_all add: cleanupEffect_def)

lemma settled_effect:
  assumes "callbacks_ok (oh_settled s)"
    and "\<forall>x \<in> set (oh_settled s). isPaymentOrderTerminal (po_status_code (snd x)) \<and> fst x \<le> oh_effect s"
  shows "settled_ok (runEffect now s)"
proof -
  have "fst (last (oh_settled s)) \<noteq> Suc (oh_effect s)" if "oh_settled s \<noteq> []"
    using assms(2) last_in_set [OF that] by fastforce
  then show ?thesis using assms by (fastforce simp: settled_ok_def)
qed

lemma settled_same:
  assumes "settled_ok s" "oh_settled s' = oh_settled s" "oh_effect s' = oh_effect s"
    and "oh_active s' \<longrightarrow> oh_active s" "oh_settledTradeNo s' = oh_settledTradeNo s"
  shows "settled_ok s'"
  using assms by (auto simp: settled_ok_def)

lemma settled_reply:
  assumes "settled_ok s" "oh_active s \<or> (\<exists>e. r = Inl e)"
  shows "settled_ok (endRefresh t digits now now' c r s)"
proof (cases rule: endRefresh_cases [of r t digits now now' c s])
  case (settled body data)
  then have "oh_active s" using assms(2) by auto
  with settled show ?thesis using assms(1) by (auto simp: settled_ok_def callbacks_snoc)
qed (simp_all, (rule settled_same [OF assms(1)]; simp)+)

lemma settled_step:
  assumes "order_step t digits ev s s'" "requests_ok s" "settled_ok s"
  shows "settled_ok s'"
  using assms(1)
proof (cases rule: order_step.cases)
  case (order_render opts now)
  have "settled_ok (runEffect now ((cleanupEffect s)\<lparr>oh_options := opts\<rparr>))"
    using assms(3) by (intro settled_effect) (auto simp: settled_ok_def)
  then show ?thesis using order_render assms(3) by (simp add: renderOrder_def)
next
  case (order_resume now)
  have "settled_ok (runEffect now (cleanupEffect (s\<lparr>oh_pollingStoppedReason := None\<rparr>)))"
    using assms(3) by (intro settled_effect) (auto simp: settled_ok_def)
  then show ?thesis using order_resume assms(3) by (simp add: resumePolling_def)
next
  case (order_reply c r now now')
  then have "oh_active s \<or> (\<exists>e. r = Inl e)" using assms(2) by (auto simp: requests_ok_def)
  then show ?thesis using settled_reply assms(3) order_reply by simp
next
  case (order_unmount)
  then show ?thesis using settled_same [OF assms(3)] by (simp add: cleanupEffect_def)
qed (simp_all add: handleVisibilityChange_def onPollTimer_def endSettled_def settled_same [OF assms(3)]
      split: option.splits)

lemma request_trade:
  assumes "requests_ok s" "c \<in> set (oh_calls s)" "oh_requestRef s = Some (rc_id c)"
  shows "rc_trade_no c = trade_of s"
proof -
  have "(rc_id c, trade_of s) \<in> set (idents s)" "(rc_id c, rc_trade_no c) \<in> set (idents s)"
    using assms by (auto simp: requests_ok_def trade_of_def idents_def)
  moreover have "distinct (map fst (idents s))" using assms(1) by (simp add: requests_ok_def)
  ultimately show ?thesis by (metis eq_key_imp_eq_value)
qed

lemma answered_same:
  assumes "order_answered digits evs s" "oh_order s' = oh_order s \<or> oh_order s' = None"
    and "oh_order s' \<noteq> None \<longrightarrow> oh_options s' = oh_options s"
  shows "order_answered digits (evs @ [ev]) s'"
proof (cases "oh_order s' = None")
  case False
  then have "oh_order s' = oh_order s" "trade_of s' = trade_of s" using assms by (auto simp: trade_of_def)
  then show ?thesis using assms(1) unfolding order_answered_def set_append Un_iff by metis
qed (simp add: order_answered_def)

lemma answered_reply:
  assumes ok: "order_answered digits evs s" "requests_ok s" and c: "c \<in> set (oh_calls s)"
    and live: "oh_requestRef s = Some (rc_id c) \<or> (\<exists>e. r = Inl e \<and> is_cancelled e)"
  shows "order_answered digits (evs @ [OrderReply c r now now']) (endRefresh t digits now now' c r s)"
proof -
  have new: "order_answered digits (evs @ [OrderReply c r now now']) s'"
    if "r = Inr body" "ar_data (getPaymentOrder digits body) = Some data" "oh_order s' = Some data"
      "oh_options s' = oh_options s" for body data s'
  proof -
    have "rc_trade_no c = trade_of s'"
      using request_trade [OF ok(2) c] live that(1,4) by (auto simp: trade_of_def)
    then show ?thesis using that unfolding order_answered_def by auto
  qed
  show ?thesis
  proof (cases rule: endRefresh_cases [of r t digits now now' c s])
    case (settled body data)
    then show ?thesis by (intro new [OF settled(1,2)]) (simp_all add: store_order_def)
  next
    case (stored body data)
    then show ?thesis by (intro new [OF stored(1,2)]) (simp_all add: store_order_def)
  qed (simp_all, (rule answered_same [OF ok(1)]; simp)+)
qed

lemma answered_step:
  assumes "order_step t digits ev s s'" "requests_ok s" "order_answered digits evs s"
  shows "order_answered digits (evs @ [ev]) s'"
  using assms(1)
proof (cases rule: order_step.cases)
  case (order_reply c r now now')
  then show ?thesis using answered_reply [OF assms(3,2)] by simp
next
  case (order_settled c thrown now now')
  then show ?thesis using answered_same [OF assms(3)] by (simp add: endSettled_def split: option.splits)
qed (use answered_same [OF assms(3)] in
      \<open>simp_all add: renderOrder_def resumePolling_def handleVisibilityChange_def onPollTimer_def\<close>)

lemma order_run_ok:
  assumes "order_run t digits opts now0 evs s"
  shows "requests_ok s \<and> loop_ok s \<and> settled_ok s \<and> order_answered digits evs s"
  using assms
proof (induction rule: order_run.induct)
  case order_start
  have "settled_ok (mountOrder opts now0)" unfolding mountOrder_def by (rule settled_effect) simp_all
  moreover have "oh_order (mountOrder opts now0) = None" by (simp add: mountOrder_def)
  ultimately show ?case by (simp add: requests_mount loop_mount order_answered_def)
next
  case (order_more evs s ev s')
  note step = order_more.hyps(2)
  show ?case
    using order_more.IH requests_step [OF step] loop_step [OF step] settled_step [OF step]
      answered_step [OF step] by simp
qed

section \<open>Polling ends\<close>

text \<open>
  The rounds of one loop: the two readings of the clock in milliseconds, the order known, and
  the order received, if any. \<open>None\<close> means that the loop still goes on after the rounds.
\<close>

type_synonym poll_round = "nat \<times> nat \<times> PaymentOrder option \<times> PaymentOrder option"

definition decide :: "jsnum \<Rightarrow> nat \<Rightarrow> poll_round \<Rightarrow> PollDecision" where
  "decide fallback k rnd =
     (case rnd of (now, now', ref, next) \<Rightarrow>
        poll_decision fallback (Fin (of_nat now)) (Fin (of_nat now')) k ref next)"

fun poll_loop :: "jsnum \<Rightarrow> nat \<Rightarrow> poll_round list \<Rightarrow> PollDecision option" where
  "poll_loop fallback k [] = None"
| "poll_loop fallback k (rnd # rnds) =
     (case decide fallback k rnd of
        PollAgain delay k' \<Rightarrow> poll_loop fallback k' rnds
      | d \<Rightarrow> Some d)"

text \<open>The clock does not go back, and a timer does not fire before its delay is over.\<close>

fun timed :: "jsnum \<Rightarrow> nat \<Rightarrow> poll_round list \<Rightarrow> bool" where
  "timed fallback k (rnd # rnd' # rnds) \<longleftrightarrow>
     fst rnd \<le> fst (snd rnd)
     \<and> (case decide fallback k rnd of
          PollAgain delay k' \<Rightarrow>
            (case delay of Fin q \<Rightarrow> of_nat (fst (snd rnd)) + q \<le> of_nat (fst rnd') | _ \<Rightarrow> True)
            \<and> timed fallback k' (rnd' # rnds)
        | _ \<Rightarrow> True)"
| "timed _ _ _ = True"

definition deadline_of :: "jsnum \<Rightarrow> poll_round \<Rightarrow> jsnum" where
  "deadline_of fallback rnd = expires_at_ms fallback (coalesce (snd (snd (snd rnd))) (fst (snd (snd rnd))))"

lemma again_before_deadline:
  assumes "decide fb k rnd = PollAgain d k'" "js_leq (deadline_of fb rnd) (Fin (of_nat D))"
  shows "fst rnd < D"
proof -
  obtain now now' ref nxt where r: "rnd = (now, now', ref, nxt)" by (cases rnd)
  have "\<not> js_leq (deadline_of fb rnd) (Fin (of_nat now))"
    using assms(1) by (auto simp: r decide_def poll_decision_def deadline_of_def Let_def split: if_splits)
  then have "\<not> js_leq (Fin (of_nat D)) (Fin (of_nat now))" using assms(2) js_leq_trans by blast
  then show ?thesis by (simp add: r)
qed

lemma js_max_250: "x \<noteq> NaN \<Longrightarrow> js_leq (Fin 250) (js_max (Fin 250) x) \<and> js_max (Fin 250) x \<noteq> NaN"
  by (cases x) (auto simp: js_max_def js_leq_def js_num_eq_def)

lemma js_min_finite:
  "js_leq (Fin 250) y \<Longrightarrow> y \<noteq> NaN \<Longrightarrow> 250 \<le> a \<Longrightarrow> \<exists>q. js_min (Fin a) y = Fin q \<and> 250 \<le> q"
  by (cases y) (auto simp: js_min_def js_leq_def js_num_eq_def)

lemma js_sub_not_nan: "js_sub (Fin a) (Fin b) \<noteq> NaN"
  by (auto simp: js_sub_def to_double_def Let_def)

lemma backoff: "0 < k \<Longrightarrow> k < 3 \<Longrightarrow> \<exists>a. js_mul POLL_INTERVAL_MS (Fin (2 ^ k)) = Fin a \<and> 250 \<le> a"
proof -
  assume "0 < k" "k < 3"
  then have "k = 1 \<or> k = 2" by auto
  moreover have "js_mul (Fin (of_int 2000)) (Fin (of_int 2)) = Fin (of_int (2000 * 2))"
    "js_mul (Fin (of_int 2000)) (Fin (of_int 4)) = Fin (of_int (2000 * 4))"
    by (rule js_mul_int; simp)+
  ultimately show ?thesis by (auto simp: POLL_INTERVAL_MS_def)
qed

lemma again_delay:
  assumes "decide fb k rnd = PollAgain d k'" "deadline_of fb rnd = Fin e"
  shows "\<exists>q. d = Fin q \<and> 250 \<le> q"
proof -
  obtain now now' ref nxt where r: "rnd = (now, now', ref, nxt)" by (cases rnd)
  have e: "expires_at_ms fb (coalesce nxt ref) = Fin e" using assms(2) by (simp add: r deadline_of_def)
  let ?m = "js_max (Fin 250) (js_sub (Fin e) (Fin (of_nat now')))"
  have m: "js_leq (Fin 250) ?m" "?m \<noteq> NaN" using js_max_250 js_sub_not_nan by blast+
  have "d = js_min (if nxt \<noteq> None then POLL_INTERVAL_MS else js_mul POLL_INTERVAL_MS (Fin (2 ^ Suc k))) ?m"
    "nxt = None \<longrightarrow> Suc k < 3"
    using assms(1) e by (auto simp: r decide_def poll_decision_def Let_def split: if_splits)
  then show ?thesis
    using js_min_finite [OF m] backoff [of "Suc k"] by (cases nxt) (auto simp: POLL_INTERVAL_MS_def)
qed

lemma again_step:
  assumes "decide fb k rnd = PollAgain d k'" "js_leq (deadline_of fb rnd) (Fin (of_nat D))"
    and "timed fb k (rnd # rnd' # rnds)"
  shows "fst rnd + 250 \<le> fst rnd' \<and> timed fb k' (rnd' # rnds)"
proof -
  obtain now now' ref nxt where r: "rnd = (now, now', ref, nxt)" by (cases rnd)
  have "\<not> js_leq (deadline_of fb rnd) (Fin (of_nat now))"
    using assms(1) by (auto simp: r decide_def poll_decision_def deadline_of_def Let_def split: if_splits)
  then obtain e where "deadline_of fb rnd = Fin e"
    using assms(2) by (cases "deadline_of fb rnd") (auto simp: js_leq_def js_num_eq_def)
  then obtain q where q: "d = Fin q" "250 \<le> q" using again_delay [OF assms(1)] by blast
  then have "of_nat now' + q \<le> of_nat (fst rnd')" "now \<le> now'" "timed fb k' (rnd' # rnds)"
    using assms(1,3) by (simp_all add: r)
  then have "of_nat (now + 250) \<le> (of_nat (fst rnd') :: rat)" using q(2) by simp
  then have "now + 250 \<le> fst rnd'" by (simp only: of_nat_le_iff)
  then show ?thesis using \<open>timed fb k' (rnd' # rnds)\<close> by (simp add: r)
qed

lemma poll_loop_bound:
  assumes "poll_loop fb k rnds = None" "rnds \<noteq> []" "timed fb k rnds"
    and "\<forall>rnd \<in> set rnds. js_leq (deadline_of fb rnd) (Fin (of_nat D))"
  shows "fst (hd rnds) + 250 * (length rnds - 1) < D"
  using assms
proof (induction rnds arbitrary: k)
  case (Cons rnd rnds)
  obtain d k' where again: "decide fb k rnd = PollAgain d k'" "poll_loop fb k' rnds = None"
    using Cons.prems(1) by (cases "decide fb k rnd") auto
  have dl: "js_leq (deadline_of fb rnd) (Fin (of_nat D))" using Cons.prems(4) by simp
  show ?case
  proof (cases rnds)
    case Nil
    then show ?thesis using again_before_deadline [OF again(1) dl] by simp
  next
    case more: (Cons rnd' rest)
    have later: "fst rnd + 250 \<le> fst rnd'" "timed fb k' rnds"
      using again_step [OF again(1) dl Cons.prems(3) [unfolded more]] more by simp_all
    then have "fst (hd rnds) + 250 * (length rnds - 1) < D"
      using Cons.IH [OF again(2)] Cons.prems(4) more by simp
    then show ?thesis using later(1) more by simp
  qed
qed simp

lemma three_failures:
  assumes "\<forall>rnd \<in> set rnds. snd (snd (snd rnd)) = None" "length rnds + k = 3" "k < 3"
  shows "poll_loop fb k rnds \<noteq> None"
  using assms
proof (induction rnds arbitrary: k)
  case (Cons rnd rnds)
  obtain now now' ref nxt where r: "rnd = (now, now', ref, nxt)" by (cases rnd)
  then have n: "nxt = None" using Cons.prems(1) by simp
  show ?case
  proof (cases "decide fb k rnd")
    case (PollAgain d k')
    then have "k' = Suc k" "k' < 3"
      by (auto simp: r n decide_def poll_decision_def Let_def split: if_splits)
    then show ?thesis using Cons.IH [of k'] Cons.prems PollAgain by simp
  qed simp_all
qed simp

section \<open>Properties\<close>

text \<open>
  (C5) In every interleaving of renders, refreshes, timers, replies and callbacks: an order on
  display was received for the trade number that is followed; while an order is followed the
  loop has a timer or a request of its own, unless it gave a reason to stop or a final order was
  received; it never has two; and callbacks are made only for final orders, never twice in a row
  for the same trade number in one run of the effect.
\<close>

theorem order_is_followed:
  assumes "order_run t digits opts now0 evs s"
  shows "(\<forall>o'. oh_order s = Some o' \<longrightarrow> (\<exists>c body now now'. OrderReply c (Inr body) now now' \<in> set evs
        \<and> rc_trade_no c = or_opt (oo_tradeNo (oh_options s)) []
        \<and> ar_data (getPaymentOrder digits body) = Some o'))
    \<and> (oh_active s \<longrightarrow> polling_calls s \<noteq> [] \<or> oh_timer s \<noteq> None
        \<or> oh_pollingStoppedReason s \<noteq> None \<or> oh_settledTradeNo s \<noteq> None)
    \<and> length (polling_calls s) + (if oh_timer s = None then 0 else 1) \<le> 1
    \<and> callbacks_ok (oh_settled s)
    \<and> (\<forall>x \<in> set (oh_settled s). isPaymentOrderTerminal (po_status_code (snd x)))"
  using order_run_ok [OF assms]
  by (simp add: loop_ok_def settled_ok_def order_answered_def trade_of_def)

definition example_options :: OrderOptions where
  "example_options = \<lparr>oo_tradeNo = Some ''T1'', oo_enabled = True, oo_expiresAt = None\<rparr>"

theorem order_is_followed_witness:
  "\<exists>s. order_run plain_text example_digits example_options (Fin 0) [Refresh, Visible False] s
    \<and> oh_active s \<and> polling_calls s \<noteq> [] \<and> length (polling_calls s) \<le> 1"
proof -
  let ?s0 = "mountOrder example_options (Fin 0)"
  let ?s2 = "handleVisibilityChange False (beginRefresh None ?s0)"
  have e: "order_enabled example_options" by code_simp
  have o0: "oh_options ?s0 = example_options" and a: "oh_active ?s0" and r0: "oh_requestRef ?s0 \<noteq> None"
    and z: "oh_timer ?s0 = None" "oh_pollingStoppedReason ?s0 = None" "oh_settledTradeNo ?s0 = None"
    using e by (simp_all add: mountOrder_def runEffect_def beginRefresh_def Let_def)
  have run1: "order_run plain_text example_digits example_options (Fin 0) ([] @ [Refresh]) (beginRefresh None ?s0)"
    by (rule order_more [OF order_start order_refresh [OF a]])
  have run: "order_run plain_text example_digits example_options (Fin 0) [Refresh, Visible False] ?s2"
    using order_more [OF run1 order_visible] by simp
  have "oh_active ?s2" "oh_timer ?s2 = None" "oh_pollingStoppedReason ?s2 = None" "oh_settledTradeNo ?s2 = None"
    using a o0 e r0 z by (simp_all add: handleVisibilityChange_def beginRefresh_def)
  moreover from this have "polling_calls ?s2 \<noteq> []" "length (polling_calls ?s2) \<le> 1"
    using order_is_followed [OF run] by simp_all
  ultimately show ?thesis using run by blast
qed

text \<open>
  (C7) Polling ends: when every request of the loop is answered in some way and no deadline in
  force lies after \<open>D\<close>, the loop has stopped before its rounds, at least a quarter of a second
  apart, pass \<open>D\<close>. When the server cannot be reached, three rounds are enough, whatever the
  clock says.
\<close>

theorem polling_ends:
  "(timed fallback k rnds \<and> rnds \<noteq> []
      \<and> (\<forall>rnd \<in> set rnds. js_leq (deadline_of fallback rnd) (Fin (of_nat D)))
      \<and> D \<le> fst (hd rnds) + 250 * (length rnds - 1) \<longrightarrow> (\<exists>d. poll_loop fallback k rnds = Some d))
   \<and> (length fails = 3 \<and> (\<forall>rnd \<in> set fails. snd (snd (snd rnd)) = None) \<longrightarrow>
      (\<exists>d. poll_loop fallback 0 fails = Some d))"
  using poll_loop_bound [of fallback k rnds D] three_failures [of fails 0 fallback] by fastforce

theorem polling_ends_witness:
  "(\<exists>d. poll_loop (Fin 100) 2 [(0, 0, None, None), (250, 250, None, None)] = Some d)
   \<and> (\<exists>d. poll_loop PosInf 0 [(0, 0, None, None), (1, 1, None, None), (2, 2, None, None)] = Some d)"
proof -
  have "decide (Fin 100) 2 (0, 0, None, None) = PollStop StopNetwork"
    by (simp add: decide_def poll_decision_def)
  then have "timed (Fin 100) 2 [(0, 0, None, None), (250, 250, None, None)]" by simp
  then show ?thesis
    using polling_ends [of "Fin 100" 2 "[(0, 0, None, None), (250, 250, None, None)]" 250 "[]"]
      polling_ends [of PosInf 0 "[]" 0 "[(0, 0, None, None), (1, 1, None, None), (2, 2, None, None)]"]
    by (simp add: deadline_of_def expires_at_ms_def)
qed

end
