(* ===== verification/Wl_Checkout.thy ===== *)
theory Wl_Checkout
  imports Wl_Order
begin

text \<open>
  The payment page, \<open>features/wallet/components/payment-checkout-page.tsx\<close>: the panel it
  shows for an order as headings, texts and buttons with what they do, the call into the WeChat
  browser with its waiting, and the page around them. Styling is left out.
\<close>

section \<open>Calling the WeChat browser\<close>

text \<open>
  \<open>invokeWeChatJSAPI\<close>: the call is made at once when the bridge is there, else when one of the
  two ready events comes; after five seconds it is given up. \<open>jc_invoked\<close> and \<open>jc_gave_up\<close>
  count what was done; the listeners and the timer are on exactly while \<open>jc_waiting\<close>.
\<close>

record JsapiCall =
  jc_finished :: bool
  jc_waiting :: bool
  jc_invoked :: nat
  jc_gave_up :: nat

definition jsapi_invoke :: "bool \<Rightarrow> JsapiCall \<Rightarrow> JsapiCall" where
  "jsapi_invoke bridge s =
     (if \<not> bridge \<or> jc_finished s then s
      else s\<lparr>jc_finished := True, jc_waiting := False, jc_invoked := jc_invoked s + 1\<rparr>)"

definition invokeWeChatJSAPI :: "bool \<Rightarrow> JsapiCall" where
  "invokeWeChatJSAPI bridge =
     (let s = jsapi_invoke bridge \<lparr>jc_finished = False, jc_waiting = False, jc_invoked = 0, jc_gave_up = 0\<rparr>
      in if jc_finished s then s else s\<lparr>jc_waiting := True\<rparr>)"

definition onBridgeReady :: "bool \<Rightarrow> JsapiCall \<Rightarrow> JsapiCall" where
  "onBridgeReady bridge s = (if jc_waiting s then jsapi_invoke bridge s else s)"

definition onJsapiTimeout :: "JsapiCall \<Rightarrow> JsapiCall" where
  "onJsapiTimeout s =
     (if \<not> jc_waiting s \<or> jc_finished s then s
      else s\<lparr>jc_finished := True, jc_waiting := False, jc_gave_up := jc_gave_up s + 1\<rparr>)"

datatype jsapi_event = BridgeReady bool | JsapiTimeout

fun jsapi_step :: "jsapi_event \<Rightarrow> JsapiCall \<Rightarrow> JsapiCall" where
  "jsapi_step (BridgeReady bridge) s = onBridgeReady bridge s"
| "jsapi_step JsapiTimeout s = onJsapiTimeout s"

datatype JsapiState = JsIdle | JsOpening | JsSubmitted | JsCancelled | JsUnavailable

text \<open>The callback: the state after it, and whether the order is refreshed.\<close>

definition jsapi_result :: "string option \<Rightarrow> JsapiState \<times> bool" where
  "jsapi_result err_msg =
     (let message = or_opt err_msg []
      in if message = ''get_brand_wcpay_request:ok'' then (JsSubmitted, True)
         else if message = ''get_brand_wcpay_request:cancel'' then (JsCancelled, False)
         else (JsUnavailable, False))"

definition jsapi_arguments :: "PaymentJSAPIParameters \<Rightarrow> (string \<times> string) list" where
  "jsapi_arguments p =
     [(''appId'', js_app_id p), (''timeStamp'', js_timestamp p), (''nonceStr'', js_nonce_str p),
      (''package'', js_package p), (''signType'', js_sign_type p), (''paySign'', js_pay_sign p)]"

section \<open>The panel\<close>

datatype panel_action =
    GoWallet
  | RefreshStatus
  | CopyPageLink
  | AssignUrl string
  | PaymentUrl string
  | OpenBlank string
  | InvokeJsapi "(string \<times> string) list"

record PanelButton =
  pb_label :: string
  pb_action :: panel_action
  pb_disabled :: bool

record Panel =
  pn_title :: string
  pn_texts :: "string list"
  pn_buttons :: "PanelButton list"
  pn_qr :: "string option"

text \<open>What the panel depends on besides the order.\<close>

record PanelEnv =
  pe_t :: "string \<Rightarrow> string"
  pe_new_url :: url_parser
  pe_location :: Location
  pe_environment :: PaymentBrowserEnvironment
  pe_refreshing :: bool
  pe_jsapiState :: JsapiState
  pe_copied :: bool
  pe_copyFailed :: bool

definition button :: "string \<Rightarrow> panel_action \<Rightarrow> PanelButton" where
  "button label action = \<lparr>pb_label = label, pb_action = action, pb_disabled = False\<rparr>"

definition plain_panel :: "string \<Rightarrow> string list \<Rightarrow> PanelButton list \<Rightarrow> Panel" where
  "plain_panel title texts buttons =
     \<lparr>pn_title = title, pn_texts = texts, pn_buttons = buttons, pn_qr = None\<rparr>"

definition refresh_button :: "PanelEnv \<Rightarrow> PanelButton" where
  "refresh_button e = \<lparr>pb_label = pe_t e ''Refresh status'', pb_action = RefreshStatus,
     pb_disabled = pe_refreshing e\<rparr>"

definition copy_link :: "PanelEnv \<Rightarrow> PanelButton list \<times> string list" where
  "copy_link e =
     ([button (if pe_copied e then pe_t e ''Page link copied'' else pe_t e ''Copy page link'') CopyPageLink],
      (if pe_copyFailed e then [pe_t e ''Unable to copy. Copy the browser address manually.''] else []))"

definition succeeded_panel :: "PanelEnv \<Rightarrow> PaymentOrder \<Rightarrow> Panel" where
  "succeeded_panel e order =
     plain_panel (pe_t e ''Payment completed'')
       [if (case po_plan_id order of Some n \<Rightarrow> truthy_num n | None \<Rightarrow> False)
        then pe_t e ''Your fixed-term access is ready to use.''
        else pe_t e ''Your balance has been updated.'']
       [button (pe_t e ''Return to Wallet'') GoWallet]"

definition confirming_panel :: "PanelEnv \<Rightarrow> Panel" where
  "confirming_panel e =
     plain_panel (pe_t e ''Confirming payment'')
       [pe_t e ''Payment was submitted and is being confirmed. You may keep this page open or return later.''] []"

definition expired_panel :: "PanelEnv \<Rightarrow> Panel" where
  "expired_panel e =
     plain_panel (pe_t e ''Payment expired'')
       [pe_t e ''This payment can no longer be completed. Create a new order from your wallet.'']
       [button (pe_t e ''Create a new payment'') GoWallet]"

definition unavailable_panel :: "PanelEnv \<Rightarrow> Panel" where
  "unavailable_panel e =
     plain_panel (pe_t e ''Payment temporarily unavailable'')
       [pe_t e ''We could not prepare this payment. Refresh the status or create a new order.'']
       [refresh_button e, button (pe_t e ''Return to Wallet'') GoWallet]"

definition preparing_panel :: "PanelEnv \<Rightarrow> Panel" where
  "preparing_panel e =
     plain_panel (pe_t e ''Preparing your payment'')
       [pe_t e ''This usually takes a few seconds. You can safely leave and return with the same order number.''] []"

definition link_unavailable :: "PanelEnv \<Rightarrow> string list" where
  "link_unavailable e = [pe_t e ''Payment link unavailable'',
     pe_t e ''Refresh the order status before trying again.'']"

definition authorize_panel :: "PanelEnv \<Rightarrow> PaymentOrder \<Rightarrow> PaymentCheckout \<Rightarrow> Panel" where
  "authorize_panel e order checkout =
     (let authorizationURL = getSafeWeChatAuthorizationUrl (pe_new_url e) (Some (pe_location e))
            (co_continue_url checkout) (po_trade_no order)
      in if pe_environment e \<noteq> Wechat
         then plain_panel (pe_t e ''Open in WeChat'')
           (pe_t e ''This payment is available inside WeChat. Open this page in WeChat to continue.''
            # (if pe_environment e = Mobile then snd (copy_link e) else []))
           (if pe_environment e = Mobile then fst (copy_link e) else [])
         else case authorizationURL of
             Some url \<Rightarrow> plain_panel (pe_t e ''Continue with WeChat Pay'')
               [pe_t e ''Confirm your WeChat account to prepare this payment securely.'']
               [button (pe_t e ''Continue in WeChat'') (AssignUrl (u_href url))]
           | None \<Rightarrow> plain_panel (pe_t e ''Continue with WeChat Pay'')
               (pe_t e ''Confirm your WeChat account to prepare this payment securely.'' # link_unavailable e) [])"

definition jsapi_panel :: "PanelEnv \<Rightarrow> PaymentCheckout \<Rightarrow> Panel" where
  "jsapi_panel e checkout =
     (let parameters = co_jsapi checkout;
          state = pe_jsapiState e
      in if pe_environment e \<noteq> Wechat
         then plain_panel (pe_t e ''Open in WeChat'')
           [pe_t e ''This payment is ready inside WeChat. Reopen this order in WeChat to continue.''] []
         else if \<not> isSafePaymentJSAPIParameters parameters
         then plain_panel (pe_t e ''Payment temporarily unavailable'')
           [pe_t e ''Refresh the order status before trying again.''] [refresh_button e]
         else plain_panel (pe_t e ''Pay with WeChat'')
           ((if state = JsSubmitted
             then pe_t e ''Payment was submitted. Waiting for secure confirmation.''
             else pe_t e ''WeChat will open the payment panel. Final success is confirmed by this site.'')
            # (if state = JsCancelled then [pe_t e ''Payment was cancelled. You can try again.''] else [])
            @ (if state = JsUnavailable
               then [pe_t e ''WeChat Pay could not open. Refresh the page and try again.''] else []))
           (\<lparr>pb_label = (if state = JsOpening then pe_t e ''Opening WeChat Pay'' else pe_t e ''Pay now''),
             pb_action = InvokeJsapi (jsapi_arguments (the parameters)),
             pb_disabled = (state = JsOpening \<or> state = JsSubmitted)\<rparr>
            # (if state = JsUnavailable then [refresh_button e] else [])))"

definition hosted_panel :: "PanelEnv \<Rightarrow> PaymentOrder \<Rightarrow> PaymentCheckout \<Rightarrow> Panel" where
  "hosted_panel e order checkout =
     (let continueUrl = (case co_continue_url checkout of
            Some u \<Rightarrow> if u \<noteq> []
              then getSafePaymentContinueUrl (pe_new_url e) (Some (pe_location e)) u (po_trade_no order)
              else None
          | None \<Rightarrow> None);
          text = pe_t e ''Continue through the secure payment page. Final confirmation will appear here.''
      in case continueUrl of
           Some url \<Rightarrow> plain_panel (pe_t e ''Continue your payment'') [text]
             [button (pe_t e ''Continue to payment'') (AssignUrl (u_href url))]
         | None \<Rightarrow> plain_panel (pe_t e ''Continue your payment'') (text # link_unavailable e) [])"

definition qr_instruction :: "PanelEnv \<Rightarrow> PaymentOrder \<Rightarrow> string" where
  "qr_instruction e order =
     (if po_public_method order = ''alipay''
      then if pe_environment e = Desktop then pe_t e ''Use Alipay on your phone to scan this code.''
           else pe_t e ''Open Alipay to pay. If it does not open, use a browser or scan the code from another device.''
      else if po_public_method order = ''wechat_pay''
      then if pe_environment e = Desktop then pe_t e ''Use WeChat on your phone to scan this code.''
           else if pe_environment e = Wechat
           then pe_t e ''This order currently requires another device to scan the payment code.''
           else pe_t e ''Open this page in WeChat, or use another device to scan the payment code.''
      else pe_t e ''Scan the code with the selected payment app.'')"

definition qr_panel :: "PanelEnv \<Rightarrow> PaymentOrder \<Rightarrow> PaymentCheckout \<Rightarrow> Panel" where
  "qr_panel e order checkout =
     (let qrContent = or_opt (co_qr_content checkout) [];
          isAlipay = (po_public_method order = ''alipay'');
          isWechatPay = (po_public_method order = ''wechat_pay'');
          alipayUrl = (if isAlipay then getSafePaymentUrl (pe_new_url e) (Some (pe_location e)) qrContent
            else None)
      in if \<not> isSafePaymentQrContent (pe_new_url e) qrContent
         then plain_panel (pe_t e ''Payment code unavailable'')
           [pe_t e ''This payment code is unavailable. Refresh the status before trying again.''] [refresh_button e]
         else \<lparr>pn_title = pe_t e ''Scan to Pay'',
           pn_texts = qr_instruction e order
             # (if isWechatPay \<and> pe_environment e = Mobile then snd (copy_link e) else []),
           pn_buttons =
             (case alipayUrl of
                Some url \<Rightarrow> if pe_environment e \<noteq> Desktop
                  then [button (pe_t e ''Open Alipay'') (PaymentUrl (u_href url)),
                        button (pe_t e ''Open in browser'') (OpenBlank (u_href url))]
                  else []
              | None \<Rightarrow> [])
             @ (if isWechatPay \<and> pe_environment e = Mobile then fst (copy_link e) else []),
           pn_qr = Some qrContent\<rparr>)"

definition CheckoutPanel :: "PanelEnv \<Rightarrow> PaymentOrder \<Rightarrow> Panel" where
  "CheckoutPanel e order =
     (case po_status_code order of
        Succeeded \<Rightarrow> succeeded_panel e order
      | Confirming \<Rightarrow> confirming_panel e
      | Expired \<Rightarrow> expired_panel e
      | Temporarily_unavailable \<Rightarrow> unavailable_panel e
      | _ \<Rightarrow>
          (case po_checkout order of
             None \<Rightarrow> preparing_panel e
           | Some checkout \<Rightarrow>
               (case co_flow checkout of
                  FlowPending \<Rightarrow> preparing_panel e
                | FlowAuthorize \<Rightarrow> authorize_panel e order checkout
                | FlowJsapi \<Rightarrow> jsapi_panel e checkout
                | FlowHosted \<Rightarrow> hosted_panel e order checkout
                | FlowForm \<Rightarrow> hosted_panel e order checkout
                | FlowQr \<Rightarrow> qr_panel e order checkout)))"

section \<open>The page\<close>

text \<open>The remainder of a division, which is exact.\<close>

definition js_rem :: "jsnum \<Rightarrow> jsnum \<Rightarrow> jsnum" where
  "js_rem x y = (case (x, y) of
     (Fin a, Fin b) \<Rightarrow>
       if b = 0 then NaN else Fin (a - b * of_int (if 0 \<le> a / b then \<lfloor>a / b\<rfloor> else \<lceil>a / b\<rceil>))
   | (Fin a, PosInf) \<Rightarrow> Fin a
   | (Fin a, NegInf) \<Rightarrow> Fin a
   | _ \<Rightarrow> NaN)"

text \<open>Minutes and seconds.\<close>

definition formatRemainingTime :: "jsnum \<Rightarrow> string \<times> string" where
  "formatRemainingTime totalSeconds =
     (let safeSeconds = js_max (Fin 0) totalSeconds
      in (pad_start 2 CHR ''0'' (number_to_string (js_floor (js_div safeSeconds (Fin 60)))),
          pad_start 2 CHR ''0'' (number_to_string (js_rem safeSeconds (Fin 60)))))"

definition page_expires_at :: "PaymentOrder option \<Rightarrow> jsnum" where
  "page_expires_at order =
     (case order of
        None \<Rightarrow> Fin 0
      | Some o' \<Rightarrow>
          let c = (case po_checkout o' of Some c \<Rightarrow> co_expires_at c | None \<Rightarrow> NaN)
          in if truthy_num c then c else if truthy_num (po_expires_at o') then po_expires_at o' else Fin 0)"

text \<open>\<open>Math.max(0, Math.floor(expiresAt - now / 1000))\<close>, or 0 without an expiry.\<close>

definition remaining_seconds :: "jsnum \<Rightarrow> jsnum \<Rightarrow> jsnum" where
  "remaining_seconds expiresAt now =
     (if truthy_num expiresAt
      then js_max (Fin 0) (js_floor (js_sub expiresAt (js_div now (Fin 1000)))) else Fin 0)"

definition displayed_status :: "PaymentOrder option \<Rightarrow> jsnum \<Rightarrow> PublicPaymentStatusCode option" where
  "displayed_status order now =
     map_option (\<lambda>o'. getEffectivePaymentStatus (po_status_code o') (page_expires_at order) now) order"

definition displayed_order :: "PaymentOrder option \<Rightarrow> jsnum \<Rightarrow> PaymentOrder option" where
  "displayed_order order now =
     (case (order, displayed_status order now) of
        (Some o', Some st) \<Rightarrow> Some (if st \<noteq> po_status_code o' then o'\<lparr>po_status_code := st\<rparr> else o')
      | _ \<Rightarrow> order)"

datatype CheckoutContent = LoadingContent | ErrorContent | PanelContent Panel | NoContent

definition checkout_content :: "PanelEnv \<Rightarrow> OrderHook \<Rightarrow> jsnum \<Rightarrow> CheckoutContent" where
  "checkout_content e hook now =
     (if oh_loading hook \<and> oh_order hook = None then LoadingContent
      else if truthy_str (oh_error hook) \<and> oh_order hook = None then ErrorContent
      else case displayed_order (oh_order hook) now of
          Some o' \<Rightarrow> PanelContent (CheckoutPanel e o')
        | None \<Rightarrow> NoContent)"

text \<open>The refresh button of the page: nothing while loading, else a restart or a refresh.\<close>

definition handlePageRefresh :: "jsnum \<Rightarrow> OrderHook \<Rightarrow> OrderHook" where
  "handlePageRefresh now hook =
     (if oh_loading hook then hook
      else if oh_pollingStoppedReason hook \<noteq> None then resumePolling now hook
      else beginRefresh None hook)"

definition cancelled_notice :: "bool \<Rightarrow> OrderHook \<Rightarrow> jsnum \<Rightarrow> bool" where
  "cancelled_notice returnedCancelled hook now \<longleftrightarrow>
     returnedCancelled \<and> displayed_status (oh_order hook) now \<in> {Some Preparing, Some Awaiting_payment}"

definition paused_notice :: "OrderHook \<Rightarrow> jsnum \<Rightarrow> bool" where
  "paused_notice hook now \<longleftrightarrow>
     (truthy_str (oh_error hook) \<or> oh_pollingStoppedReason hook \<noteq> None) \<and> oh_order hook \<noteq> None
     \<and> displayed_status (oh_order hook) now \<noteq> Some Expired"

text \<open>A tick of the countdown: the time shown, and whether it goes on.\<close>

definition countdown_runs :: "PaymentOrder option \<Rightarrow> bool" where
  "countdown_runs order \<longleftrightarrow> truthy_num (page_expires_at order)
     \<and> (case order of Some o' \<Rightarrow> po_status_code o' \<in> {Preparing, Awaiting_payment, Confirming} | None \<Rightarrow> False)"

definition countdown_tick :: "jsnum \<Rightarrow> jsnum \<Rightarrow> jsnum \<times> bool" where
  "countdown_tick expiresAt currentTime =
     (currentTime, \<not> js_leq expiresAt (js_div currentTime (Fin 1000)))"

record CheckoutHeader =
  ch_kind :: string
  ch_amount :: "js_error + string"
  ch_method :: string
  ch_channel :: "string option"
  ch_status :: "StatusConfig option"
  ch_remaining :: "(string \<times> string) option"

definition checkout_header :: "translate \<Rightarrow> intl \<Rightarrow> OrderHook \<Rightarrow> jsnum \<Rightarrow> CheckoutHeader" where
  "checkout_header t intl hook now =
     (let order = oh_order hook; expiresAt = page_expires_at order
      in \<lparr>ch_kind = (case order of
            Some o' \<Rightarrow> if (case po_plan_id o' of Some n \<Rightarrow> truthy_num n | None \<Rightarrow> False)
              then t ''Access purchase'' [] else t ''Secure payment'' []
          | None \<Rightarrow> t ''Secure payment'' []),
         ch_amount = (case order of
            Some o' \<Rightarrow> formatPaymentDecimalAmount intl (JStr (po_payment_amount o')) (po_currency o') None
          | None \<Rightarrow> Inr (if oh_loading hook then t ''Preparing'' [] else t ''Not available'' [])),
         ch_method = (case order of
            Some o' \<Rightarrow> getPublicPaymentMethodLabel (po_public_method o') t
          | None \<Rightarrow> t ''Payment method'' []),
         ch_channel = (case order of
            Some o' \<Rightarrow> getPublicPaymentChannelAliasLabel (po_channel_alias o') t
          | None \<Rightarrow> None),
         ch_status = map_option (\<lambda>st. getStatusConfig (Some st)) (displayed_status order now),
         ch_remaining = (if truthy_num expiresAt
            then Some (formatRemainingTime (remaining_seconds expiresAt now)) else None)\<rparr>)"

section \<open>The alert after a return\<close>

text \<open>
  \<open>components/payment-result-alert.tsx\<close>: what is said about the order the provider sent the
  user back with.
\<close>

definition result_hint_label :: "(string \<Rightarrow> string) \<Rightarrow> string option \<Rightarrow> string" where
  "result_hint_label t hint =
     (if hint = Some ''success'' then t ''Payment submitted''
      else if hint = Some ''cancelled'' then t ''Payment was cancelled''
      else if hint = Some ''failed'' then t ''Payment could not be completed''
      else if hint = Some ''pending'' then t ''Payment confirmation is pending''
      else t ''Checking your payment'')"

definition result_pending :: "PaymentOrder option \<Rightarrow> bool" where
  "result_pending order \<longleftrightarrow>
     (case order of None \<Rightarrow> True
      | Some o' \<Rightarrow> po_status_code o' \<in> {Preparing, Awaiting_payment, Confirming})"

datatype ResultIcon = IconFailed | IconSucceeded | IconChecking | IconWaiting

definition result_icon :: "OrderHook \<Rightarrow> ResultIcon" where
  "result_icon hook =
     (if map_option po_status_code (oh_order hook) = Some Succeeded then IconSucceeded
      else if result_pending (oh_order hook) \<and> oh_loading hook then IconChecking
      else if result_pending (oh_order hook) then IconWaiting
      else IconFailed)"

definition result_title :: "(string \<Rightarrow> string) \<Rightarrow> OrderHook \<Rightarrow> string" where
  "result_title t hook =
     (case oh_order hook of
        Some o' \<Rightarrow> t (sc_label (getStatusConfig (Some (po_status_code o'))))
      | None \<Rightarrow> t ''Checking payment status'')"

definition result_description ::
  "(string \<Rightarrow> string) \<Rightarrow> intl \<Rightarrow> string option \<Rightarrow> OrderHook \<Rightarrow> js_error + string"
where
  "result_description t intl hint hook =
     (case oh_pollingStoppedReason hook of
        Some StopExpired \<Rightarrow> Inr (t ''Automatic status checks stopped because the order expired. Refresh once to confirm the final status.'')
      | Some StopNetwork \<Rightarrow> Inr (t ''Automatic status checks paused after repeated failures. Check your network and refresh.'')
      | Some StopTimeout \<Rightarrow> Inr (t ''Automatic status checks paused. Refresh to check the latest status.'')
      | None \<Rightarrow>
          if truthy_str (oh_error hook) then Inr (t ''Unable to refresh payment status'')
          else case oh_order hook of
              Some o' \<Rightarrow> map_sum id
                (\<lambda>amount. t ''Order Number'' @ '': '' @ po_trade_no o' @ '' '' @ [CHR 0xB7] @ '' '' @ amount)
                (formatPaymentDecimalAmount intl (JStr (po_payment_amount o')) (po_currency o') None)
            | None \<Rightarrow> Inr (t ''Checking the latest order status.'' @ '' ('' @ result_hint_label t hint @ '')''))"

definition result_destructive :: "OrderHook \<Rightarrow> bool" where
  "result_destructive hook \<longleftrightarrow> truthy_str (oh_error hook)
     \<or> map_option po_status_code (oh_order hook) = Some Temporarily_unavailable"

definition result_can_refresh :: "OrderHook \<Rightarrow> bool" where
  "result_can_refresh hook \<longleftrightarrow> truthy_str (oh_error hook) \<or> oh_pollingStoppedReason hook \<noteq> None"

definition result_can_dismiss :: "OrderHook \<Rightarrow> bool" where
  "result_can_dismiss hook \<longleftrightarrow> \<not> result_pending (oh_order hook)"

section \<open>What the page can open\<close>

fun pays :: "panel_action \<Rightarrow> bool" where
  "pays (AssignUrl _) = True"
| "pays (PaymentUrl _) = True"
| "pays (OpenBlank _) = True"
| "pays (InvokeJsapi _) = True"
| "pays _ = False"

definition action_safe :: "PanelEnv \<Rightarrow> string \<Rightarrow> panel_action \<Rightarrow> bool" where
  "action_safe e tradeNo a \<longleftrightarrow>
     (case a of
        AssignUrl h \<Rightarrow> \<exists>url. h = u_href url
          \<and> (own_url (pe_location e) (continue_path tradeNo) url \<or> own_url (pe_location e) (authorize_path tradeNo) url)
      | PaymentUrl h \<Rightarrow> \<exists>url. h = u_href url \<and> safe_target (pe_location e) url
      | OpenBlank h \<Rightarrow> \<exists>url. h = u_href url \<and> safe_target (pe_location e) url
      | InvokeJsapi args \<Rightarrow> pe_environment e = Wechat
          \<and> (\<exists>p. isSafePaymentJSAPIParameters (Some p) \<and> args = jsapi_arguments p)
      | _ \<Rightarrow> True)"

definition panel_safe :: "PanelEnv \<Rightarrow> string \<Rightarrow> Panel \<Rightarrow> bool" where
  "panel_safe e tradeNo p \<longleftrightarrow> (\<forall>b \<in> set (pn_buttons p). action_safe e tradeNo (pb_action b))
     \<and> (\<forall>q. pn_qr p = Some q \<longrightarrow> isSafePaymentQrContent (pe_new_url e) q)"

definition panel_idle :: "Panel \<Rightarrow> bool" where
  "panel_idle p \<longleftrightarrow> (\<forall>b \<in> set (pn_buttons p). \<not> pays (pb_action b)) \<and> pn_qr p = None"

lemma action_safe_simps [simp]:
  "action_safe e n GoWallet" "action_safe e n RefreshStatus" "action_safe e n CopyPageLink"
  by (simp_all add: action_safe_def)

lemmas panel_parts = plain_panel_def button_def refresh_button_def copy_link_def

lemma final_panels:
  "panel_idle (succeeded_panel e o')" "panel_idle (confirming_panel e)" "panel_idle (expired_panel e)"
  "panel_idle (unavailable_panel e)" "panel_idle (preparing_panel e)"
  by (simp_all add: panel_idle_def panel_parts succeeded_panel_def confirming_panel_def expired_panel_def
      unavailable_panel_def preparing_panel_def)

lemma idle_safe: "panel_idle p \<Longrightarrow> panel_safe e n p"
proof -
  have "action_safe e n a" if "\<not> pays a" for a using that by (cases a) simp_all
  then show "panel_idle p \<Longrightarrow> panel_safe e n p" by (auto simp: panel_idle_def panel_safe_def)
qed

lemma authorize_safe: "panel_safe e (po_trade_no o') (authorize_panel e o' c)"
  using authorize_url_iff
  by (auto simp: panel_safe_def authorize_panel_def panel_parts action_safe_def split: option.splits)

lemma jsapi_safe: "panel_safe e n (jsapi_panel e c)"
  by (auto simp: panel_safe_def jsapi_panel_def panel_parts action_safe_def Let_def
      isSafePaymentJSAPIParameters_def split: option.splits)

lemma hosted_safe: "panel_safe e (po_trade_no o') (hosted_panel e o' c)"
  using continue_url_iff
  by (auto simp: panel_safe_def hosted_panel_def panel_parts action_safe_def Let_def split: option.splits if_splits)

lemma qr_safe: "panel_safe e n (qr_panel e o' c)"
proof -
  have "\<exists>url. u_href x = u_href url \<and> safe_target (pe_location e) url"
    if "Some x = getSafePaymentUrl (pe_new_url e) (Some (pe_location e)) v" for x v
    using that safe_url_iff by metis
  then show ?thesis
    by (auto simp: panel_safe_def qr_panel_def panel_parts action_safe_def Let_def split: option.splits if_splits)
qed

lemma checkout_panel_safe: "panel_safe e (po_trade_no o') (CheckoutPanel e o')"
  by (auto simp: CheckoutPanel_def final_panels [THEN idle_safe] authorize_safe jsapi_safe hosted_safe qr_safe
      split: PublicPaymentStatusCode.splits option.splits PaymentCheckoutFlow.splits)

lemma checkout_panel_idle:
  "po_status_code o' \<notin> {Preparing, Awaiting_payment} \<Longrightarrow> panel_idle (CheckoutPanel e o')"
  by (cases "po_status_code o'") (simp_all add: CheckoutPanel_def final_panels)

section \<open>The call into the WeChat browser\<close>

definition jsapi_ok :: "JsapiCall \<Rightarrow> bool" where
  "jsapi_ok s \<longleftrightarrow> jc_invoked s + jc_gave_up s = (if jc_finished s then 1 else 0)
     \<and> jc_waiting s = (\<not> jc_finished s)"

lemma jsapi_start: "jsapi_ok (invokeWeChatJSAPI bridge)"
  by (simp add: jsapi_ok_def invokeWeChatJSAPI_def jsapi_invoke_def)

lemma jsapi_step_ok: "jsapi_ok s \<Longrightarrow> jsapi_ok (jsapi_step ev s)"
  by (cases ev) (auto simp: jsapi_ok_def onBridgeReady_def onJsapiTimeout_def jsapi_invoke_def)

text \<open>
  However the ready events and the timeout come, the payment is asked for or given up at most
  once, exactly once when the timeout is over, and nothing is left waiting then.
\<close>

lemma jsapi_once:
  assumes "s = fold jsapi_step evs (invokeWeChatJSAPI bridge)"
  shows "jc_invoked s + jc_gave_up s \<le> 1"
    and "JsapiTimeout \<in> set evs \<Longrightarrow> jc_invoked s + jc_gave_up s = 1 \<and> \<not> jc_waiting s"
proof -
  have ok: "jsapi_ok (fold jsapi_step evs s0)" if "jsapi_ok s0" for s0
    using that by (induction evs arbitrary: s0) (auto simp: jsapi_step_ok)
  have fin: "jc_finished (fold jsapi_step evs s0)" if "jsapi_ok s0" "JsapiTimeout \<in> set evs \<or> jc_finished s0" for s0
    using that
  proof (induction evs arbitrary: s0)
    case (Cons ev evs)
    have "JsapiTimeout \<in> set evs \<or> jc_finished (jsapi_step ev s0)"
      using Cons.prems
      by (cases ev) (auto simp: jsapi_ok_def onBridgeReady_def onJsapiTimeout_def jsapi_invoke_def)
    then show ?case using Cons.IH [OF jsapi_step_ok [OF Cons.prems(1)]] by simp
  qed simp
  show "jc_invoked s + jc_gave_up s \<le> 1" using ok [OF jsapi_start] assms by (simp add: jsapi_ok_def)
  show "jc_invoked s + jc_gave_up s = 1 \<and> \<not> jc_waiting s" if "JsapiTimeout \<in> set evs"
    using ok [OF jsapi_start] fin [OF jsapi_start] that assms by (simp add: jsapi_ok_def)
qed

text \<open>
  A poll whose request is aborted by another refresh counts as a failure: the third one in a row
  stops the polling although the server can be reached.
\<close>

lemma aborted_poll_counts:
  assumes "oh_active s" "rc_poll c = Some (oh_effect s)" "oh_failures s = 2" "is_cancelled e"
  shows "oh_pollingStoppedReason (endRefresh t digits now now' c (Inl e) s) = Some StopNetwork"
  using assms
  by (simp add: endRefresh_def catch_refresh_def end_call_def finish_refresh_def continue_poll_def poll_decision_def)

section \<open>Properties\<close>


definition example_env :: PanelEnv where
  "example_env = \<lparr>pe_t = id, pe_new_url = path_parser, pe_location = example_location, pe_environment = Desktop,
     pe_refreshing = False, pe_jsapiState = JsIdle, pe_copied = False, pe_copyFailed = False\<rparr>"

definition example_order :: PaymentOrder where
  "example_order = \<lparr>po_trade_no = ''T1'', po_route_id = ''r1'', po_public_method = ''card'',
     po_channel_alias = None, po_status_code = Awaiting_payment, po_payment_amount = ''5'',
     po_top_up_amount = None, po_plan_id = None, po_currency = ''USD'', po_expires_at = Fin 0,
     po_completed_at = None,
     po_checkout = Some \<lparr>co_flow = FlowHosted, co_qr_content = None,
       co_continue_url = Some ''/api/user/payment/orders/T1/continue'', co_jsapi = None,
       co_expires_at = Fin 0\<rparr>\<rparr>"


end
