(* ===== verification/Wl_Page.thy ===== *)
theory Wl_Page
  imports Wl_Checkout
begin

text \<open>
  The rest of the wallet: the checkout of fixed products and of route options
  (\<open>hooks/use-creem-payment.ts\<close>, \<open>use-waffo-payment.ts\<close>, \<open>use-waffo-pancake-payment.ts\<close>),
  redemption, referral rewards, the billing history and the handlers of the page
  \<open>features/wallet/index.tsx\<close> that connect them.
\<close>

section \<open>Products and options\<close>

record Operation =
  op_key :: string
  op_quoteId :: string
  op_requestId :: string

text \<open>A run of the callback waits for its quote or for its start.\<close>

datatype OperationCall = AskQuote string PaymentQuoteRequest | AskStart string string

record OperationHook =
  ok_processing :: bool
  ok_operation :: "Operation option"
  ok_calls :: "OperationCall list"
  ok_toasts :: "string list"

definition initialOperation :: OperationHook where
  "initialOperation = \<lparr>ok_processing = False, ok_operation = None, ok_calls = [], ok_toasts = []\<rparr>"

definition creem_key :: "string \<Rightarrow> string \<Rightarrow> string" where
  "creem_key routeId productId = routeId @ '':'' @ productId"

definition creem_request :: "string \<Rightarrow> string \<Rightarrow> PaymentQuoteRequest" where
  "creem_request routeId productId =
     \<lparr>qr_order_kind = Topup, qr_amount = None, qr_plan_id = None, qr_product_id = Some productId,
      qr_option_id = None, qr_route_id = Some routeId, qr_provider = None, qr_payment_method = None\<rparr>"

definition waffo_key :: "string \<Rightarrow> jsnum \<Rightarrow> string \<Rightarrow> string" where
  "waffo_key routeId topupAmount optionId =
     routeId @ '':'' @ number_to_string topupAmount @ '':'' @ optionId"

definition waffo_request :: "string \<Rightarrow> jsnum \<Rightarrow> string \<Rightarrow> PaymentQuoteRequest" where
  "waffo_request routeId topupAmount optionId =
     \<lparr>qr_order_kind = Topup, qr_amount = Some (js_floor topupAmount), qr_plan_id = None,
      qr_product_id = None, qr_option_id = Some optionId, qr_route_id = Some routeId,
      qr_provider = None, qr_payment_method = None\<rparr>"

definition start_operation :: "OperationHook \<Rightarrow> OperationHook" where
  "start_operation s =
     (case ok_operation s of
        Some op \<Rightarrow> s\<lparr>ok_calls := ok_calls s @ [AskStart (op_quoteId op) (op_requestId op)]\<rparr>
      | None \<Rightarrow> s)"

text \<open>Both callbacks: ask for a quote unless the last operation has this key, then start it.\<close>

definition begin_operation :: "string \<Rightarrow> PaymentQuoteRequest \<Rightarrow> OperationHook \<Rightarrow> OperationHook" where
  "begin_operation key request s =
     (let s = s\<lparr>ok_processing := True\<rparr>
      in if map_option op_key (ok_operation s) \<noteq> Some key
         then s\<lparr>ok_calls := ok_calls s @ [AskQuote key request]\<rparr>
         else start_operation s)"

definition fail_operation :: "translate \<Rightarrow> jsval \<Rightarrow> OperationHook \<Rightarrow> OperationHook" where
  "fail_operation t e s =
     s\<lparr>ok_toasts := ok_toasts s @ [getPaymentErrorMessage e t], ok_processing := False\<rparr>"

definition operation_quoted ::
  "translate \<Rightarrow> string \<Rightarrow> string \<Rightarrow> PaymentQuoteRequest \<Rightarrow> reply \<Rightarrow> OperationHook \<Rightarrow> OperationHook"
where
  "operation_quoted t requestId key request reply s =
     (let s = s\<lparr>ok_calls := remove1 (AskQuote key request) (ok_calls s)\<rparr>
      in case reply of
           Inl e \<Rightarrow> fail_operation t e s
         | Inr body \<Rightarrow>
             let response = createPaymentQuote request body
             in case (if isApiSuccess response then ar_data response else None) of
                  None \<Rightarrow> fail_operation t (createPaymentError (js_of_response response)) s
                | Some q \<Rightarrow>
                    start_operation (s\<lparr>ok_operation := Some \<lparr>op_key = key,
                      op_quoteId = pq_quote_id q, op_requestId = requestId\<rparr>\<rparr>))"

definition operation_started ::
  "translate \<Rightarrow> string \<Rightarrow> string \<Rightarrow> reply \<Rightarrow> OperationHook \<Rightarrow> OperationHook \<times> jsval option"
where
  "operation_started t quoteId requestId reply s =
     (let s = s\<lparr>ok_calls := remove1 (AskStart quoteId requestId) (ok_calls s)\<rparr>
      in case reply of
           Inl e \<Rightarrow> (fail_operation t e s, None)
         | Inr response \<Rightarrow>
             (case (if isApiSuccess response then ar_data response else None) of
                None \<Rightarrow> (fail_operation t (createPaymentError (js_of_response response)) s, None)
              | Some data \<Rightarrow>
                  if \<not> truthy data
                  then (fail_operation t (createPaymentError (js_of_response response)) s, None)
                  else (s\<lparr>ok_processing := False\<rparr>, Some data)))"

definition processCreemPayment :: "string \<Rightarrow> string \<Rightarrow> OperationHook \<Rightarrow> OperationHook" where
  "processCreemPayment routeId productId =
     begin_operation (creem_key routeId productId) (creem_request routeId productId)"

definition processWaffoPayment :: "string \<Rightarrow> jsnum \<Rightarrow> string \<Rightarrow> OperationHook \<Rightarrow> OperationHook" where
  "processWaffoPayment routeId topupAmount optionId =
     begin_operation (waffo_key routeId topupAmount optionId) (waffo_request routeId topupAmount optionId)"

definition getCheckoutUrl :: "jsval \<Rightarrow> string option" where
  "getCheckoutUrl data = (if \<not> truthy data \<or> \<not> is_object data then None
     else as_string (js_get data ''checkout_url''))"

text \<open>
  The hosted checkout of Waffo Pancake after its reply: the addresses opened, the toasts, and
  the result.
\<close>

definition processWaffoPancakePayment ::
  "translate \<Rightarrow> url_parser \<Rightarrow> Location option \<Rightarrow> reply \<Rightarrow> string list \<Rightarrow> string list
   \<Rightarrow> string list \<times> string list \<times> bool"
where
  "processWaffoPancakePayment t new_url window reply assigned toasts =
     (case reply of
        Inl e \<Rightarrow> (assigned, toasts @ [getPaymentErrorMessage e t], False)
      | Inr response \<Rightarrow>
          (case (if isApiSuccess response then Option.bind (ar_data response) getCheckoutUrl else None) of
             Some url \<Rightarrow>
               (case (if url \<noteq> [] then navigateToPaymentUrl new_url window url assigned else (False, assigned)) of
                  (True, assigned') \<Rightarrow> (assigned', toasts, True)
                | (False, assigned') \<Rightarrow>
                    (assigned', toasts @ [getPaymentErrorMessage (js_of_response response) t], False))
           | None \<Rightarrow> (assigned, toasts @ [getPaymentErrorMessage (js_of_response response) t], False)))"

definition pancake_request_amount :: "jsnum \<Rightarrow> jsnum" where
  "pancake_request_amount topupAmount = js_floor topupAmount"

section \<open>Redemption\<close>

record RedemptionHook =
  rd_redeeming :: bool
  rd_toasts :: "string list"
  rd_selfFetches :: nat

text \<open>
  \<open>redeemCode\<close> up to its request (whether one is sent), and from the reply on. The quota format
  and a failing refresh of the account come from outside.
\<close>

definition beginRedeem :: "translate \<Rightarrow> string \<Rightarrow> RedemptionHook \<Rightarrow> RedemptionHook \<times> bool" where
  "beginRedeem t redemption_code s =
     (if redemption_code = [] \<or> trim redemption_code = []
      then (s\<lparr>rd_toasts := rd_toasts s @ [t ''Please enter a redemption code'' []]\<rparr>, False)
      else (s\<lparr>rd_redeeming := True\<rparr>, True))"

definition endRedeem ::
  "translate \<Rightarrow> (jsval \<Rightarrow> string) \<Rightarrow> bool \<Rightarrow> reply \<Rightarrow> RedemptionHook \<Rightarrow> RedemptionHook \<times> bool"
where
  "endRedeem t formatQuota selfFails reply s =
     (let failed = t ''Redemption failed'' [];
          refuse = (\<lambda>m s. (s\<lparr>rd_toasts := rd_toasts s @ [m], rd_redeeming := False\<rparr>, False))
      in case reply of
           Inl _ \<Rightarrow> refuse failed s
         | Inr response \<Rightarrow>
             (case (if ar_success response = Some True then ar_data response else None) of
                Some quotaAdded \<Rightarrow>
                  if truthy quotaAdded
                  then let s = s\<lparr>rd_toasts := rd_toasts s
                             @ [t ''Redemption successful! Added: {{quota}}'' [(''quota'', JStr (formatQuota quotaAdded))]],
                             rd_selfFetches := rd_selfFetches s + 1\<rparr>
                       in if selfFails then refuse failed s else (s\<lparr>rd_redeeming := False\<rparr>, True)
                  else refuse (or_opt (ar_message response) failed) s
              | None \<Rightarrow> refuse (or_opt (ar_message response) failed) s))"

section \<open>Referral rewards\<close>

record AffiliateHook =
  af_code :: string
  af_link :: string
  af_loading :: bool
  af_transferring :: bool
  af_toasts :: "string list"

text \<open>
  The parsed link as the platform prints it; without a window there is no base. The reply is the
  link of a successful answer, or nothing.
\<close>

definition endFetchAffiliate ::
  "url_parser \<Rightarrow> Location option \<Rightarrow> string option \<Rightarrow> AffiliateHook \<Rightarrow> AffiliateHook"
where
  "endFetchAffiliate new_url window invite_link s =
     (let s = (case invite_link of
            None \<Rightarrow> s
          | Some link \<Rightarrow>
              (let origin = map_option loc_origin window
               in case new_url link origin of
                    Inl _ \<Rightarrow> s\<lparr>af_link := link, af_code := []\<rparr>
                  | Inr url \<Rightarrow> s\<lparr>af_link := (if truthy_str origin then u_href url else link),
                      af_code := (case map_of (u_entries url) ''aff'' of Some c \<Rightarrow> c | None \<Rightarrow> [])\<rparr>))
      in s\<lparr>af_loading := False\<rparr>)"

definition beginTransfer :: "AffiliateHook \<Rightarrow> AffiliateHook" where
  "beginTransfer s = s\<lparr>af_transferring := True\<rparr>"

text \<open>The transfer after its reply; on success the link is fetched again before it ends.\<close>

definition endTransfer ::
  "translate \<Rightarrow> url_parser \<Rightarrow> Location option \<Rightarrow> string option \<Rightarrow> reply \<Rightarrow> AffiliateHook
   \<Rightarrow> AffiliateHook \<times> bool"
where
  "endTransfer t new_url window invite_link reply s =
     (case reply of
        Inr response \<Rightarrow>
          if ar_success response = Some True
          then let s = s\<lparr>af_toasts := af_toasts s
                     @ [or_opt (ar_message response) (t ''Transfer successful'' [])], af_loading := True\<rparr>
               in ((endFetchAffiliate new_url window invite_link s)\<lparr>af_transferring := False\<rparr>, True)
          else (s\<lparr>af_toasts := af_toasts s @ [or_opt (ar_message response) (t ''Transfer failed'' [])],
                  af_transferring := False\<rparr>, False)
      | Inl _ \<Rightarrow> (s\<lparr>af_toasts := af_toasts s @ [t ''Transfer failed'' []], af_transferring := False\<rparr>, False))"

text \<open>\<open>lib/affiliate.ts\<close>; setting a query parameter of a parsed address is the platform's.\<close>

definition generateReferralLink ::
  "url_parser \<Rightarrow> (Url \<Rightarrow> string \<Rightarrow> string \<Rightarrow> string) \<Rightarrow> Location \<Rightarrow> string \<Rightarrow> string \<Rightarrow> string"
where
  "generateReferralLink new_url with_param location baseLink affCode =
     (if baseLink = [] \<or> affCode = [] then []
      else case new_url baseLink (Some (loc_origin location)) of
          Inl _ \<Rightarrow> []
        | Inr url \<Rightarrow> with_param url ''aff'' affCode)"

section \<open>Billing history\<close>

record BillingQuery =
  bq_page :: nat
  bq_pageSize :: nat
  bq_keyword :: string
  bq_enabled :: bool

record BillingHook =
  bi_records :: "TopupRecord list"
  bi_total :: jsnum
  bi_query :: BillingQuery
  bi_typed :: string
  bi_timer :: "string option"
  bi_loading :: bool
  bi_error :: "string option"
  bi_request :: "nat option"
  bi_next :: nat
  bi_calls :: "(nat \<times> BillingQuery) list"

text \<open>The fetch of the current query; the request before it is aborted.\<close>

definition beginFetchBilling :: "BillingHook \<Rightarrow> BillingHook" where
  "beginFetchBilling s =
     (if \<not> bq_enabled (bi_query s) then s
      else s\<lparr>bi_request := Some (bi_next s), bi_next := bi_next s + 1, bi_loading := True,
             bi_calls := bi_calls s @ [(bi_next s, bi_query s)]\<rparr>)"

definition finish_billing :: "nat \<Rightarrow> BillingHook \<Rightarrow> BillingHook" where
  "finish_billing k s =
     (if bi_request s = Some k then s\<lparr>bi_request := None, bi_loading := False\<rparr> else s)"

definition endFetchBilling ::
  "translate \<Rightarrow> currency_digits \<Rightarrow> nat \<Rightarrow> reply \<Rightarrow> BillingHook \<Rightarrow> BillingHook"
where
  "endFetchBilling t digits k reply s =
     (let s = s\<lparr>bi_calls := filter (\<lambda>c. fst c \<noteq> k) (bi_calls s)\<rparr>;
          failed = t ''Failed to load billing history'' []
      in finish_billing k
        (case reply of
           Inl e \<Rightarrow> if is_cancelled e then s else s\<lparr>bi_error := Some failed\<rparr>
         | Inr body \<Rightarrow>
             let response = getUserBillingHistory digits body
             in case (if isApiSuccess response then ar_data response else None) of
                  Some data \<Rightarrow> s\<lparr>bi_records := bh_items data,
                    bi_total := (if truthy_num (bh_total data) then bh_total data else Fin 0), bi_error := None\<rparr>
                | None \<Rightarrow> s\<lparr>bi_error := Some failed\<rparr>))"

text \<open>A changed query: the old effect aborts its request and the new one fetches.\<close>

definition requery :: "BillingQuery \<Rightarrow> BillingHook \<Rightarrow> BillingHook" where
  "requery q s =
     (if q = bi_query s then s else beginFetchBilling (s\<lparr>bi_query := q, bi_request := None\<rparr>))"

definition handlePageChange :: "nat \<Rightarrow> BillingHook \<Rightarrow> BillingHook" where
  "handlePageChange newPage s = requery ((bi_query s)\<lparr>bq_page := newPage\<rparr>) s"

definition handlePageSizeChange :: "nat \<Rightarrow> BillingHook \<Rightarrow> BillingHook" where
  "handlePageSizeChange newPageSize s =
     requery ((bi_query s)\<lparr>bq_pageSize := newPageSize, bq_page := 1\<rparr>) s"

definition handleSearch :: "string \<Rightarrow> BillingHook \<Rightarrow> BillingHook" where
  "handleSearch newKeyword s =
     requery ((bi_query s)\<lparr>bq_page := 1\<rparr>)
       (if newKeyword = bi_typed s then s else s\<lparr>bi_typed := newKeyword, bi_timer := Some newKeyword\<rparr>)"

definition onSearchTimer :: "BillingHook \<Rightarrow> BillingHook" where
  "onSearchTimer s =
     (case bi_timer s of
        None \<Rightarrow> s
      | Some keyword \<Rightarrow> requery ((bi_query s)\<lparr>bq_keyword := trim keyword\<rparr>) (s\<lparr>bi_timer := None\<rparr>))"

definition setBillingEnabled :: "bool \<Rightarrow> BillingHook \<Rightarrow> BillingHook" where
  "setBillingEnabled enabled s = requery ((bi_query s)\<lparr>bq_enabled := enabled\<rparr>) s"

definition mountBilling :: "nat \<Rightarrow> nat \<Rightarrow> bool \<Rightarrow> BillingHook" where
  "mountBilling initialPage initialPageSize enabled =
     beginFetchBilling \<lparr>bi_records = [], bi_total = Fin 0,
       bi_query = \<lparr>bq_page = initialPage, bq_pageSize = initialPageSize, bq_keyword = [], bq_enabled = enabled\<rparr>,
       bi_typed = [], bi_timer = Some [], bi_loading = False, bi_error = None, bi_request = None,
       bi_next = 0, bi_calls = []\<rparr>"

text \<open>
  A request that was aborted rejects as cancelled: this is what the hook relies on, since it does
  not itself ask whether a reply is the one it waits for.
\<close>

definition billing_reply :: "nat \<Rightarrow> reply \<Rightarrow> BillingHook \<Rightarrow> reply" where
  "billing_reply k reply s =
     (if bi_request s = Some k then reply else Inl (JObj [(''code'', JStr ''ERR_CANCELED'')]))"

definition billing_view :: "BillingHook \<Rightarrow> TopupRecord list \<times> jsnum \<times> string option \<times> bool" where
  "billing_view s = (bi_records s, bi_total s, bi_error s, bi_loading s)"

lemma billing_cancelled: "is_cancelled (JObj [(''code'', JStr ''ERR_CANCELED'')])"
  by code_simp

lemma stale_billing:
  assumes "bi_request s \<noteq> Some k"
  shows "billing_view (endFetchBilling t d k (billing_reply k r s) s) = billing_view s"
    "bi_request (endFetchBilling t d k (billing_reply k r s) s) = bi_request s"
  using assms
  by (simp_all add: billing_reply_def endFetchBilling_def finish_billing_def billing_view_def
      billing_cancelled Let_def)

lemma latest_billing:
  assumes "bi_request s = Some k"
  shows "bi_request (endFetchBilling t d k (billing_reply k r s) s) = None"
    "billing_view (endFetchBilling t d k (billing_reply k r s) s) =
       (let (records, total, error, loading) = billing_view s; failed = t ''Failed to load billing history'' []
        in case r of
             Inl e \<Rightarrow> (records, total, if is_cancelled e then error else Some failed, False)
           | Inr body \<Rightarrow>
               (case (let resp = getUserBillingHistory d body in if isApiSuccess resp then ar_data resp else None) of
                  Some data \<Rightarrow> (bh_items data, if truthy_num (bh_total data) then bh_total data else Fin 0, None, False)
                | None \<Rightarrow> (records, total, Some failed, False)))"
  using assms
  by (auto simp: billing_reply_def endFetchBilling_def finish_billing_def billing_view_def Let_def
      split: sum.splits option.splits)

interpretation billing_request: latest_request bi_request billing_view
  "\<lambda>k r s. endFetchBilling t d k (billing_reply k r s) s" for t d
  by unfold_locales (simp_all add: stale_billing latest_billing)

text \<open>Whatever order the replies come in, the history shown is the latest request's.\<close>

lemma billing_shows_latest:
  assumes "bi_request s = Some k" "k \<notin> fst ` set before" "k \<notin> fst ` set after"
  shows "billing_view (fold (\<lambda>(k, r) s. endFetchBilling t d k (billing_reply k r s) s)
           (before @ (k, r) # after) s)
       = billing_view (endFetchBilling t d k r s)"
  using billing_request.only_latest [OF assms] assms(1) by (simp add: billing_reply_def)

text \<open>The key of an operation decides its request, as long as the parts hold no colon.\<close>

lemma creem_key_inj:
  assumes "CHR '':'' \<notin> set r" "CHR '':'' \<notin> set r'"
  shows "creem_key r p = creem_key r' p' \<longleftrightarrow> r = r' \<and> p = p'"
proof
  assume eq: "creem_key r p = creem_key r' p'"
  have "takeWhile (\<lambda>c. c \<noteq> CHR '':'') (creem_key r p) = r" using assms(1)
    by (auto simp: creem_key_def takeWhile_append)
  moreover have "takeWhile (\<lambda>c. c \<noteq> CHR '':'') (creem_key r' p') = r'" using assms(2)
    by (auto simp: creem_key_def takeWhile_append)
  ultimately show "r = r' \<and> p = p'" using eq by (simp add: creem_key_def)
qed simp

text \<open>
  The quote of an operation is never renewed: once a product was quoted, choosing it again starts
  the same quote under the same request, however long ago that was and whatever became of it.
\<close>

lemma operation_reuses_quote:
  assumes "ok_operation s = Some op" "op_key op = creem_key r p"
  shows "ok_calls (processCreemPayment r p s) = ok_calls s @ [AskStart (op_quoteId op) (op_requestId op)]"
    "ok_operation (fst (operation_started t q i reply (processCreemPayment r p s))) = Some op"
  using assms
  by (simp_all add: processCreemPayment_def begin_operation_def start_operation_def operation_started_def
      fail_operation_def Let_def split: sum.splits option.splits)

end
