(* ===== verification/Wl_Wallet.thy ===== *)
theory Wl_Wallet
  imports Wl_Page
begin

text \<open>
  The wallet page \<open>features/wallet/index.tsx\<close>: its state, the handlers that connect the form, the
  quote hook and the confirmation dialog, and the runs of the page. The dialog is modal, and a
  payment method is a button that is disabled while a payment is being prepared
  (\<open>components/recharge-form-card.tsx\<close>).
\<close>

section \<open>State and handlers\<close>

text \<open>
  \<open>wp_selecting\<close> holds the quote calls that a run of \<open>handlePaymentMethodSelect\<close> waits for,
  \<open>wp_choosing\<close> the options whose handler has not ended, and \<open>wp_opened\<close> the orders the page went to.
\<close>

record WalletPage =
  wp_user :: "jsval option"
  wp_userLoading :: bool
  wp_topupAmount :: jsnum
  wp_selectedPreset :: "jsnum option"
  wp_selectedPaymentMethod :: "PaymentMethod option"
  wp_paymentLoading :: "string option"
  wp_confirmDialogOpen :: bool
  wp_redemptionCode :: string
  wp_creemDialogOpen :: bool
  wp_selectedPaymentProduct :: "PaymentProduct option"
  wp_returnTradeNo :: string
  wp_topupInfo :: "TopupInfo option"
  wp_payment :: PaymentHook
  wp_selecting :: "QuoteCall list"
  wp_choosing :: "PaymentRouteOption list"
  wp_toasts :: "string list"
  wp_opened :: "string list"

definition mountWallet :: "string option \<Rightarrow> WalletPage" where
  "mountWallet initialTradeNo =
     \<lparr>wp_user = None, wp_userLoading = True, wp_topupAmount = Fin 0, wp_selectedPreset = None,
      wp_selectedPaymentMethod = None, wp_paymentLoading = None, wp_confirmDialogOpen = False,
      wp_redemptionCode = [], wp_creemDialogOpen = False, wp_selectedPaymentProduct = None,
      wp_returnTradeNo = or_opt initialTradeNo [], wp_topupInfo = None, wp_payment = initialPaymentHook,
      wp_selecting = [], wp_choosing = [], wp_toasts = [], wp_opened = []\<rparr>"

definition endFetchUser :: "reply \<Rightarrow> WalletPage \<Rightarrow> WalletPage" where
  "endFetchUser reply s =
     (let s = (case reply of
            Inl _ \<Rightarrow> s
          | Inr response \<Rightarrow>
              (case (if ar_success response = Some True then ar_data response else None) of
                 Some data \<Rightarrow> if truthy data then s\<lparr>wp_user := Some data\<rparr> else s
               | None \<Rightarrow> s))
      in s\<lparr>wp_userLoading := False\<rparr>)"

text \<open>The effect that fills in the amount once the information is loaded.\<close>

definition initializeAmount :: "WalletPage \<Rightarrow> WalletPage" where
  "initializeAmount s =
     (if wp_topupInfo s \<noteq> None \<and> wp_topupAmount s = Fin 0
      then let minTopup = getMinTopupAmount (wp_topupInfo s);
               s = s\<lparr>wp_topupAmount := minTopup\<rparr>
           in case getDefaultPaymentMethod (wp_topupInfo s) of
                None \<Rightarrow> s
              | Some defaultMethod \<Rightarrow> s\<lparr>wp_selectedPaymentMethod := Some defaultMethod,
                  wp_payment := schedulePaymentQuote minTopup defaultMethod (wp_payment s)\<rparr>
      else s)"

definition getCurrentPaymentMethod :: "WalletPage \<Rightarrow> PaymentMethod option" where
  "getCurrentPaymentMethod s =
     (case wp_selectedPaymentMethod s of
        Some m \<Rightarrow> Some m
      | None \<Rightarrow> getDefaultPaymentMethod (wp_topupInfo s))"

definition set_amount :: "jsnum \<Rightarrow> jsnum option \<Rightarrow> WalletPage \<Rightarrow> WalletPage" where
  "set_amount amount preset s =
     (let method = getCurrentPaymentMethod s;
          s = s\<lparr>wp_topupAmount := amount, wp_selectedPreset := preset\<rparr>
      in case method of
           None \<Rightarrow> s
         | Some m \<Rightarrow> s\<lparr>wp_payment := schedulePaymentQuote amount m (wp_payment s)\<rparr>)"

definition handleSelectPreset :: "PresetAmount \<Rightarrow> WalletPage \<Rightarrow> WalletPage" where
  "handleSelectPreset preset = set_amount (pa_value preset) (Some (pa_value preset))"

definition handleTopupAmountChange :: "jsnum \<Rightarrow> WalletPage \<Rightarrow> WalletPage" where
  "handleTopupAmountChange amount = set_amount amount None"

text \<open>
  Choosing a method, up to the reply. The quote is refused at once, or its call is added to those
  sent, and then the handler waits for it.
\<close>

definition method_minimum :: "TopupInfo option \<Rightarrow> PaymentMethod \<Rightarrow> jsnum" where
  "method_minimum info method =
     (case pm_min_topup method of
        Some m \<Rightarrow> if truthy_num m then m else getMinTopupAmount info
      | None \<Rightarrow> getMinTopupAmount info)"

definition beginMethodSelect :: "translate \<Rightarrow> PaymentMethod \<Rightarrow> WalletPage \<Rightarrow> WalletPage" where
  "beginMethodSelect t method s =
     (let s = s\<lparr>wp_selectedPaymentMethod := Some method, wp_paymentLoading := Some (pm_route_id method)\<rparr>;
          minTopup = method_minimum (wp_topupInfo s) method
      in if js_less (wp_topupAmount s) minTopup
         then s\<lparr>wp_toasts := wp_toasts s @ [t ''Minimum topup amount: {{amount}}'' [(''amount'', JNum minTopup)]],
                wp_paymentLoading := None\<rparr>
         else let hook = calculatePaymentQuote t (wp_topupAmount s) method (wp_payment s);
                  call = \<lparr>qc_sequence = ph_requestSequence hook, qc_amount = wp_topupAmount s, qc_method = method\<rparr>;
                  s = s\<lparr>wp_payment := hook\<rparr>
              in if call \<in> set (ph_quoteCalls hook) then s\<lparr>wp_selecting := wp_selecting s @ [call]\<rparr>
                 else s\<lparr>wp_paymentLoading := None\<rparr>)"

text \<open>What \<open>calculatePaymentQuote\<close> returns for a reply.\<close>

definition quote_result :: "translate \<Rightarrow> QuoteCall \<Rightarrow> reply \<Rightarrow> PaymentHook \<Rightarrow> PaymentQuote option" where
  "quote_result t call reply hook =
     (case requestQuote t (qc_amount call) (qc_method call) reply of
        Inr nextQuote \<Rightarrow> if qc_sequence call \<noteq> ph_requestSequence hook then None else Some nextQuote
      | Inl _ \<Rightarrow> None)"

definition endQuote :: "translate \<Rightarrow> QuoteCall \<Rightarrow> reply \<Rightarrow> WalletPage \<Rightarrow> WalletPage" where
  "endQuote t call reply s =
     (let nextQuote = quote_result t call reply (wp_payment s);
          s = s\<lparr>wp_payment := endApplyQuote t call reply (wp_payment s)\<rparr>
      in if call \<in> set (wp_selecting s)
         then s\<lparr>wp_confirmDialogOpen := (nextQuote \<noteq> None \<or> wp_confirmDialogOpen s),
                wp_paymentLoading := None, wp_selecting := remove1 call (wp_selecting s)\<rparr>
         else s)"

definition beginPaymentConfirm :: "translate \<Rightarrow> jsnum \<Rightarrow> string \<Rightarrow> WalletPage \<Rightarrow> WalletPage" where
  "beginPaymentConfirm t now requestId s =
     (case (wp_selectedPaymentMethod s, ph_quote (wp_payment s)) of
        (Some method, Some q) \<Rightarrow> s\<lparr>wp_payment := beginProcessPayment t now requestId q method (wp_payment s)\<rparr>
      | _ \<Rightarrow> s)"

definition endPaymentConfirm ::
  "translate \<Rightarrow> url_parser \<Rightarrow> Location option \<Rightarrow> StartCall \<Rightarrow> reply \<Rightarrow> WalletPage \<Rightarrow> WalletPage"
where
  "endPaymentConfirm t new_url window call reply s =
     (case endProcessPayment t new_url window call reply (wp_payment s) of
        (hook, None) \<Rightarrow> s\<lparr>wp_payment := hook\<rparr>
      | (hook, Some paymentStart) \<Rightarrow>
          (let s = s\<lparr>wp_payment := hook, wp_confirmDialogOpen := False\<rparr>;
               flow = js_get paymentStart ''flow''; trade_no = js_get paymentStart ''trade_no''
           in if flow = JStr ''qr'' \<or> flow = JStr ''pending''
              then if \<not> truthy trade_no then s\<lparr>wp_toasts := wp_toasts s @ [t unavailable_text []]\<rparr>
                   else s\<lparr>wp_opened := wp_opened s @ [js_to_string trade_no]\<rparr>
              else s))"

text \<open>The orders of products and options open on the page of the order.\<close>

definition openLocalPaymentOrder :: "translate \<Rightarrow> jsval option \<Rightarrow> WalletPage \<Rightarrow> WalletPage \<times> bool" where
  "openLocalPaymentOrder t paymentStart s =
     (case paymentStart of
        None \<Rightarrow> (s, False)
      | Some start \<Rightarrow>
          (let trade_no = js_get start ''trade_no''
           in if \<not> truthy trade_no then (s\<lparr>wp_toasts := wp_toasts s @ [t unavailable_text []]\<rparr>, False)
              else (s\<lparr>wp_opened := wp_opened s @ [js_to_string trade_no]\<rparr>, True)))"

definition handlePaymentProductSelect :: "PaymentProduct \<Rightarrow> WalletPage \<Rightarrow> WalletPage" where
  "handlePaymentProductSelect product s =
     s\<lparr>wp_selectedPaymentProduct := Some product, wp_creemDialogOpen := True\<rparr>"

definition endCreemConfirm :: "translate \<Rightarrow> jsval option \<Rightarrow> WalletPage \<Rightarrow> WalletPage" where
  "endCreemConfirm t paymentStart s =
     (let (s, opened) = openLocalPaymentOrder t paymentStart s
      in if opened then s\<lparr>wp_creemDialogOpen := False, wp_selectedPaymentProduct := None\<rparr> else s)"

definition beginOptionSelect :: "PaymentRouteOption \<Rightarrow> WalletPage \<Rightarrow> WalletPage" where
  "beginOptionSelect option s =
     s\<lparr>wp_paymentLoading := Some (ro_option_id option), wp_choosing := wp_choosing s @ [option]\<rparr>"

definition endOptionSelect ::
  "translate \<Rightarrow> PaymentRouteOption \<Rightarrow> jsval option \<Rightarrow> WalletPage \<Rightarrow> WalletPage"
where
  "endOptionSelect t option paymentStart s =
     (fst (openLocalPaymentOrder t paymentStart s))
       \<lparr>wp_paymentLoading := None, wp_choosing := remove1 option (wp_choosing s)\<rparr>"

definition handlePaymentSettled :: "PaymentOrder \<Rightarrow> bool" where
  "handlePaymentSettled order \<longleftrightarrow> po_status_code order = Succeeded"

definition getDiscountRate :: "WalletPage \<Rightarrow> jsnum" where
  "getDiscountRate s =
     (case Option.bind (wp_topupInfo s) (\<lambda>info. map_of (ti_discount info) (number_to_string (wp_topupAmount s))) of
        Some d \<Rightarrow> if truthy_num d then d else DEFAULT_DISCOUNT_RATE
      | None \<Rightarrow> DEFAULT_DISCOUNT_RATE)"

section \<open>Runs of the page\<close>

text \<open>
  The form's controls act only while the dialog is closed, and the methods and options only while
  no payment is being prepared. The effect that fills in the amount runs after the information
  or the amount changed.
\<close>

inductive page_reach ::
  "translate \<Rightarrow> url_parser \<Rightarrow> Location option \<Rightarrow> WalletPage \<Rightarrow> bool"
  for t new_url window
where
  page_mount: "page_reach t new_url window (mountWallet tradeNo)"
| page_user: "page_reach t new_url window s \<Longrightarrow> page_reach t new_url window (endFetchUser reply s)"
| page_info: "page_reach t new_url window s \<Longrightarrow>
    page_reach t new_url window (initializeAmount (s\<lparr>wp_topupInfo := Some info\<rparr>))"
| page_preset: "page_reach t new_url window s \<Longrightarrow> \<not> wp_confirmDialogOpen s \<Longrightarrow>
    page_reach t new_url window (initializeAmount (handleSelectPreset preset s))"
| page_amount: "page_reach t new_url window s \<Longrightarrow> \<not> wp_confirmDialogOpen s \<Longrightarrow>
    page_reach t new_url window (initializeAmount (handleTopupAmountChange a s))"
| page_timer: "page_reach t new_url window s \<Longrightarrow> ph_debounceTimer (wp_payment s) \<noteq> None \<Longrightarrow>
    page_reach t new_url window (s\<lparr>wp_payment := onQuoteTimer t (wp_payment s)\<rparr>)"
| page_method: "page_reach t new_url window s \<Longrightarrow> \<not> wp_confirmDialogOpen s \<Longrightarrow> wp_paymentLoading s = None \<Longrightarrow>
    page_reach t new_url window (beginMethodSelect t m s)"
| page_quote: "page_reach t new_url window s \<Longrightarrow> c \<in> set (ph_quoteCalls (wp_payment s)) \<Longrightarrow>
    page_reach t new_url window (endQuote t c r s)"
| page_close: "page_reach t new_url window s \<Longrightarrow>
    page_reach t new_url window (s\<lparr>wp_confirmDialogOpen := False\<rparr>)"
| page_confirm: "page_reach t new_url window s \<Longrightarrow> wp_confirmDialogOpen s \<Longrightarrow>
    page_reach t new_url window (beginPaymentConfirm t now i s)"
| page_started: "page_reach t new_url window s \<Longrightarrow> sc \<in> set (ph_startCalls (wp_payment s)) \<Longrightarrow>
    page_reach t new_url window (endPaymentConfirm t new_url window sc r s)"
| page_product: "page_reach t new_url window s \<Longrightarrow> \<not> wp_confirmDialogOpen s \<Longrightarrow>
    page_reach t new_url window (handlePaymentProductSelect p s)"
| page_creem: "page_reach t new_url window s \<Longrightarrow> page_reach t new_url window (endCreemConfirm t start s)"
| page_option: "page_reach t new_url window s \<Longrightarrow> \<not> wp_confirmDialogOpen s \<Longrightarrow> wp_paymentLoading s = None \<Longrightarrow>
    page_reach t new_url window (beginOptionSelect ro s)"
| page_chosen: "page_reach t new_url window s \<Longrightarrow> ro \<in> set (wp_choosing s) \<Longrightarrow>
    page_reach t new_url window (endOptionSelect t ro start s)"

section \<open>The dialog shows the quote of the form\<close>

definition above_minimum :: "PaymentMethod \<Rightarrow> jsnum \<Rightarrow> bool" where
  "above_minimum m a \<longleftrightarrow>
     (case pm_min_topup m of Some x \<Rightarrow> truthy_num x \<longrightarrow> \<not> js_less a x | None \<Rightarrow> True)"

definition dialog_ok :: "payment_event list \<Rightarrow> WalletPage \<Rightarrow> bool" where
  "dialog_ok evs s \<longleftrightarrow> (wp_confirmDialogOpen s \<longrightarrow>
     (\<exists>m q. wp_selectedPaymentMethod s = Some m \<and> ph_quote (wp_payment s) = Some q
        \<and> asked evs = Some (wp_topupAmount s, m) \<and> live evs \<and> above_minimum m (wp_topupAmount s)))"

definition selecting_ok :: "WalletPage \<Rightarrow> bool" where
  "selecting_ok s \<longleftrightarrow>
     length (wp_selecting s) + length (wp_choosing s) = (if wp_paymentLoading s = None then 0 else 1)
     \<and> (\<forall>c \<in> set (wp_selecting s). c \<in> set (ph_quoteCalls (wp_payment s))
          \<and> (qc_sequence c = ph_requestSequence (wp_payment s) \<longrightarrow>
               qc_amount c = wp_topupAmount s \<and> wp_selectedPaymentMethod s = Some (qc_method c)
               \<and> above_minimum (qc_method c) (wp_topupAmount s)))"

definition page_ok ::
  "translate \<Rightarrow> url_parser \<Rightarrow> Location option \<Rightarrow> payment_event list \<Rightarrow> WalletPage \<Rightarrow> bool"
where
  "page_ok t u w evs s \<longleftrightarrow> payment_run t u w evs (wp_payment s) \<and> dialog_ok evs s \<and> selecting_ok s"

text \<open>A state that agrees on what matters is as good.\<close>

lemma page_ok_same:
  assumes "page_ok t u w evs s" "wp_payment s' = wp_payment s" "wp_topupAmount s' = wp_topupAmount s"
    and "wp_selectedPaymentMethod s' = wp_selectedPaymentMethod s"
    and "wp_confirmDialogOpen s' \<longrightarrow> wp_confirmDialogOpen s"
    and "wp_selecting s' = wp_selecting s"
    and "length (wp_selecting s) + length (wp_choosing s') = (if wp_paymentLoading s' = None then 0 else 1)"
  shows "page_ok t u w evs s'"
  using assms by (auto simp: page_ok_def dialog_ok_def selecting_ok_def)

lemma page_ok_length:
  "page_ok t u w evs s \<Longrightarrow>
   length (wp_selecting s) + length (wp_choosing s) = (if wp_paymentLoading s = None then 0 else 1)"
  by (simp add: page_ok_def selecting_ok_def)

lemma page_ok_frame:
  assumes "page_ok t u w evs s" "wp_payment s' = wp_payment s" "wp_topupAmount s' = wp_topupAmount s"
    and "wp_selectedPaymentMethod s' = wp_selectedPaymentMethod s"
    and "wp_confirmDialogOpen s' \<longrightarrow> wp_confirmDialogOpen s"
    and "wp_selecting s' = wp_selecting s" "wp_choosing s' = wp_choosing s"
    and "wp_paymentLoading s' = wp_paymentLoading s"
  shows "page_ok t u w evs s'"
  by (rule page_ok_same [OF assms(1-6)]) (simp only: assms(7,8) page_ok_length [OF assms(1)])

text \<open>Nothing waits for the shown quote, so a reply or the timer cannot take it away.\<close>

lemma shown_not_waiting:
  assumes "payment_run t u w evs h" "live evs" "ph_quote h = Some q" "c \<in> set (waiting h)"
  shows "qc_sequence c \<noteq> ph_requestSequence h"
proof
  assume "qc_sequence c = ph_requestSequence h"
  then have "ph_requestSequence h \<in> qc_sequence ` set (waiting h)" using assms(4) by force
  then show False using run_ok [OF assms(1)] assms(2,3) by (auto simp: quote_ok_def)
qed

lemma quoted_amount_ok:
  assumes "payment_run t u w evs h" "ph_quote h = Some q" "asked evs = Some (a, m)"
  shows "quote_amount_ok a" "isUnifiedPaymentMethod m" "\<exists>r. requestQuote t a m r = Inr q"
proof -
  have "answered t evs q" using run_ok [OF assms(1)] assms(2) by (simp add: quote_ok_def)
  then show "quote_amount_ok a" "isUnifiedPaymentMethod m" "\<exists>r. requestQuote t a m r = Inr q"
    using assms(3) by (auto simp: answered_def)
qed

lemma zero_amount: "\<not> quote_amount_ok (Fin 0)"
  by (simp add: quote_amount_ok_def)

lemma schedule_frame:
  "ph_requestSequence (schedulePaymentQuote a m h) = ph_requestSequence h + 1"
  "ph_quoteCalls (schedulePaymentQuote a m h) = ph_quoteCalls h"
  by (simp_all add: schedulePaymentQuote_def reset_quote_def cancelPendingQuote_def Let_def)

text \<open>Scheduling a quote makes every call before it an old one.\<close>

lemma page_schedule:
  assumes ok: "page_ok t u w evs s" and s': "wp_payment s' = schedulePaymentQuote a m (wp_payment s)"
    and frame: "\<not> wp_confirmDialogOpen s'" "wp_selecting s' = wp_selecting s"
      "wp_choosing s' = wp_choosing s" "wp_paymentLoading s' = wp_paymentLoading s"
  shows "page_ok t u w (evs @ [Schedule a m]) s'"
proof -
  have run: "payment_run t u w evs (wp_payment s)" using ok by (simp add: page_ok_def)
  have old: "qc_sequence c \<le> ph_requestSequence (wp_payment s)" if "c \<in> set (ph_quoteCalls (wp_payment s))" for c
    using run_ok [OF run] that by (simp add: calls_ok_def waiting_def)
  have "selecting_ok s" using ok by (simp add: page_ok_def)
  then have "selecting_ok s'" using frame s' old
    by (fastforce simp: selecting_ok_def schedule_frame)
  moreover have "payment_run t u w (evs @ [Schedule a m]) (wp_payment s')"
    unfolding s' by (rule path_step [OF run step_schedule])
  ultimately show ?thesis using frame(1) by (simp add: page_ok_def dialog_ok_def)
qed

lemma page_set_amount:
  assumes ok: "page_ok t u w evs s" and closed: "\<not> wp_confirmDialogOpen s"
  shows "\<exists>evs. page_ok t u w evs (set_amount a p s)"
proof (cases "getCurrentPaymentMethod s")
  case (Some m)
  then show ?thesis using page_schedule [OF ok, where s' = "set_amount a p s" and a = a and m = m] closed
    by (auto simp: set_amount_def Let_def)
next
  case None
  then have "wp_selectedPaymentMethod s = None" by (simp add: getCurrentPaymentMethod_def split: option.splits)
  then have "page_ok t u w evs (set_amount a p s)"
    using ok closed None by (auto simp: set_amount_def page_ok_def dialog_ok_def selecting_ok_def)
  then show ?thesis ..
qed

lemma page_initialize:
  assumes ok: "page_ok t u w evs s"
  shows "\<exists>evs. page_ok t u w evs (initializeAmount s)"
proof (cases "wp_topupInfo s \<noteq> None \<and> wp_topupAmount s = Fin 0")
  case False
  then show ?thesis using ok by (auto simp: initializeAmount_def)
next
  case True
  have run: "payment_run t u w evs (wp_payment s)" using ok by (simp add: page_ok_def)
  have closed: "\<not> wp_confirmDialogOpen s"
    using ok True quoted_amount_ok(1) [OF run] zero_amount by (auto simp: page_ok_def dialog_ok_def)
  have old: "qc_sequence c \<noteq> ph_requestSequence (wp_payment s)" if "c \<in> set (wp_selecting s)" for c
  proof
    assume now: "qc_sequence c = ph_requestSequence (wp_payment s)"
    have "c \<in> set (ph_quoteCalls (wp_payment s))" "qc_amount c = Fin 0"
      using ok that now True by (auto simp: page_ok_def selecting_ok_def)
    then show False using run_ok [OF run] zero_amount by (metis calls_ok_def)
  qed
  show ?thesis
  proof (cases "getDefaultPaymentMethod (wp_topupInfo s)")
    case None
    then have "page_ok t u w evs (initializeAmount s)"
      using ok closed True old by (auto simp: initializeAmount_def Let_def page_ok_def dialog_ok_def selecting_ok_def)
    then show ?thesis ..
  next
    case (Some m)
    have "page_ok t u w (evs @ [Schedule (getMinTopupAmount (wp_topupInfo s)) m]) (initializeAmount s)"
      by (rule page_schedule [OF ok]) (use Some True closed in \<open>simp_all add: initializeAmount_def Let_def\<close>)
    then show ?thesis ..
  qed
qed

lemma calculate_frame:
  "ph_requestSequence (calculatePaymentQuote t a m h) = ph_requestSequence h + 1"
  by (simp add: calculatePaymentQuote_def beginApplyQuote_def refuse_quote_def reset_quote_def
      cancelPendingQuote_def Let_def)

lemma minimum_checked:
  "\<not> js_less a (method_minimum info m) \<Longrightarrow> above_minimum m a"
  by (auto simp: above_minimum_def method_minimum_def split: option.splits if_splits)

lemma page_select:
  assumes ok: "page_ok t u w evs s" and closed: "\<not> wp_confirmDialogOpen s" "wp_paymentLoading s = None"
  shows "\<exists>evs. page_ok t u w evs (beginMethodSelect t m s)"
proof -
  have none: "wp_selecting s = []" "wp_choosing s = []" using page_ok_length [OF ok] closed(2) by simp_all
  have run: "payment_run t u w evs (wp_payment s)" using ok by (simp add: page_ok_def)
  show ?thesis
  proof (cases "js_less (wp_topupAmount s) (method_minimum (wp_topupInfo s) m)")
    case True
    then have "page_ok t u w evs (beginMethodSelect t m s)"
      using run none closed by (simp add: beginMethodSelect_def page_ok_def dialog_ok_def selecting_ok_def Let_def)
    then show ?thesis ..
  next
    case False
    let ?evs = "evs @ [Calculate (wp_topupAmount s) m]"
    have "payment_run t u w ?evs (calculatePaymentQuote t (wp_topupAmount s) m (wp_payment s))"
      by (rule path_step [OF run step_calculate])
    then have "page_ok t u w ?evs (beginMethodSelect t m s)"
      using none closed False minimum_checked [OF False]
      by (simp add: beginMethodSelect_def page_ok_def dialog_ok_def selecting_ok_def Let_def)
    then show ?thesis ..
  qed
qed

text \<open>A reply: to an old call it changes nothing shown; to the latest it may open the dialog.\<close>

lemma quote_result_shown:
  assumes "quote_result t c r h = Some q"
  shows "qc_sequence c = ph_requestSequence h" "ph_quote (endApplyQuote t c r h) = Some q"
proof -
  have q: "requestQuote t (qc_amount c) (qc_method c) r = Inr q" "qc_sequence c = ph_requestSequence h"
    using assms by (auto simp: quote_result_def split: sum.splits if_splits)
  then show "qc_sequence c = ph_requestSequence h" by simp
  show "ph_quote (endApplyQuote t c r h) = Some q"
    using latest_reply [OF q(2), of t r] q(1) by (simp add: quote_view_def)
qed

lemma page_reply:
  assumes ok: "page_ok t u w evs s" and c: "c \<in> set (ph_quoteCalls (wp_payment s))"
  shows "page_ok t u w (evs @ [QuoteReply c r]) (endQuote t c r s)"
proof -
  let ?h = "wp_payment s" and ?s = "endQuote t c r s"
  have run: "payment_run t u w evs ?h" and sel: "selecting_ok s" and dia: "dialog_ok evs s"
    using ok by (simp_all add: page_ok_def)
  have h: "wp_payment ?s = endApplyQuote t c r ?h" by (simp add: endQuote_def Let_def)
  have frame: "wp_topupAmount ?s = wp_topupAmount s"
    "wp_selectedPaymentMethod ?s = wp_selectedPaymentMethod s" "wp_choosing ?s = wp_choosing s"
    by (simp_all add: endQuote_def Let_def)
  have cw: "c \<in> set (waiting ?h)" using c by (simp add: waiting_def)
  have run': "payment_run t u w (evs @ [QuoteReply c r]) (wp_payment ?s)"
    unfolding h by (rule path_step [OF run step_quote_reply [OF c]])
  have one: "wp_selecting s = [c] \<and> wp_choosing s = [] \<or> c \<notin> set (wp_selecting s)"
    using sel by (cases "wp_selecting s") (auto simp: selecting_ok_def split: if_splits)
  have sel': "selecting_ok ?s"
    using one
  proof
    assume "wp_selecting s = [c] \<and> wp_choosing s = []"
    then show ?thesis by (simp add: selecting_ok_def endQuote_def Let_def)
  next
    assume no: "c \<notin> set (wp_selecting s)"
    then have "d \<in> set (remove1 c (ph_quoteCalls ?h))"
      if "d \<in> set (wp_selecting s)" "d \<in> set (ph_quoteCalls ?h)" for d
      using that by (metis in_set_remove1)
    then show ?thesis using sel no by (simp add: selecting_ok_def endQuote_def Let_def end_quote_frame)
  qed
  have "dialog_ok (evs @ [QuoteReply c r]) ?s"
  proof (cases "wp_confirmDialogOpen s")
    case True
    then obtain m q where mq: "wp_selectedPaymentMethod s = Some m" "ph_quote ?h = Some q"
      "asked evs = Some (wp_topupAmount s, m)" "live evs" "above_minimum m (wp_topupAmount s)"
      using dia by (auto simp: dialog_ok_def)
    have "quote_view (endApplyQuote t c r ?h) = quote_view ?h"
      by (rule stale_reply [OF shown_not_waiting [OF run mq(4,2) cw]])
    then show ?thesis using mq by (simp add: dialog_ok_def frame h quote_view_def)
  next
    case False
    show ?thesis
    proof (cases "c \<in> set (wp_selecting s) \<and> quote_result t c r ?h \<noteq> None")
      case True
      then obtain q where q: "quote_result t c r ?h = Some q" by blast
      note now = quote_result_shown [OF q]
      have "asked evs = Some (qc_amount c, qc_method c) \<and> live evs"
        using run_ok [OF run] cw now(1) by (simp add: calls_ok_def)
      moreover have "qc_amount c = wp_topupAmount s" "wp_selectedPaymentMethod s = Some (qc_method c)"
        "above_minimum (qc_method c) (wp_topupAmount s)"
        using sel True now(1) by (auto simp: selecting_ok_def)
      ultimately show ?thesis using now(2) by (simp add: dialog_ok_def frame h)
    next
      case no: False
      then have "\<not> wp_confirmDialogOpen ?s" using False by (auto simp: endQuote_def Let_def)
      then show ?thesis by (simp add: dialog_ok_def)
    qed
  qed
  then show ?thesis using run' sel' by (simp add: page_ok_def)
qed

lemma timer_frame:
  "ph_requestSequence (onQuoteTimer t h) = ph_requestSequence h"
  "set (ph_quoteCalls h) \<subseteq> set (ph_quoteCalls (onQuoteTimer t h))"
  by (auto simp: onQuoteTimer_def beginApplyQuote_def refuse_quote_def split: option.splits)

lemma page_fire:
  assumes ok: "page_ok t u w evs s" and timer: "ph_debounceTimer (wp_payment s) \<noteq> None"
  shows "page_ok t u w (evs @ [QuoteTimer]) (s\<lparr>wp_payment := onQuoteTimer t (wp_payment s)\<rparr>)"
proof -
  have run: "payment_run t u w evs (wp_payment s)" using ok by (simp add: page_ok_def)
  obtain c where c: "ph_debounceTimer (wp_payment s) = Some c" using timer by blast
  then have cw: "c \<in> set (waiting (wp_payment s))" by (simp add: waiting_def)
  have "qc_sequence c = ph_requestSequence (wp_payment s)" using run_ok [OF run] c by (simp add: calls_ok_def)
  then have "\<not> wp_confirmDialogOpen s"
    using ok shown_not_waiting [OF run _ _ cw] by (auto simp: page_ok_def dialog_ok_def)
  moreover have "payment_run t u w (evs @ [QuoteTimer]) (onQuoteTimer t (wp_payment s))"
    by (rule path_step [OF run step_timer [OF timer]])
  moreover have "selecting_ok (s\<lparr>wp_payment := onQuoteTimer t (wp_payment s)\<rparr>)"
    using ok timer_frame(2) [of "wp_payment s" t] by (auto simp: page_ok_def selecting_ok_def timer_frame(1))
  ultimately show ?thesis by (simp add: page_ok_def dialog_ok_def)
qed

text \<open>Starting a payment and its reply keep the quote and its calls.\<close>

lemma page_pay:
  assumes ok: "page_ok t u w evs s" and step: "payment_step t u w ev (wp_payment s) h"
    and ev: "asked_by ev = None" "ev \<noteq> CancelQuote"
    and h: "ph_quote h = ph_quote (wp_payment s)" "ph_quoteCalls h = ph_quoteCalls (wp_payment s)"
      "ph_requestSequence h = ph_requestSequence (wp_payment s)"
    and s': "wp_payment s' = h" "wp_topupAmount s' = wp_topupAmount s"
      "wp_selectedPaymentMethod s' = wp_selectedPaymentMethod s"
      "wp_confirmDialogOpen s' \<longrightarrow> wp_confirmDialogOpen s" "wp_selecting s' = wp_selecting s"
      "wp_choosing s' = wp_choosing s" "wp_paymentLoading s' = wp_paymentLoading s"
  shows "page_ok t u w (evs @ [ev]) s'"
proof -
  have "payment_run t u w (evs @ [ev]) h" using path_step [OF _ step] ok by (simp add: page_ok_def)
  moreover have "dialog_ok (evs @ [ev]) s'" using ok ev h s' by (auto simp: page_ok_def dialog_ok_def)
  moreover have "selecting_ok s'" using ok h s' by (simp add: page_ok_def selecting_ok_def)
  ultimately show ?thesis using s'(1) by (simp add: page_ok_def)
qed

lemma page_confirming:
  assumes ok: "page_ok t u w evs s"
  shows "\<exists>evs. page_ok t u w evs (beginPaymentConfirm t now i s)"
proof (cases "\<exists>m q. wp_selectedPaymentMethod s = Some m \<and> ph_quote (wp_payment s) = Some q")
  case True
  then obtain m q where mq: "wp_selectedPaymentMethod s = Some m" "ph_quote (wp_payment s) = Some q" by blast
  have "page_ok t u w (evs @ [Pay now i q m]) (beginPaymentConfirm t now i s)"
    by (rule page_pay [OF ok step_pay]) (simp_all add: mq beginPaymentConfirm_def pay_frame)
  then show ?thesis ..
next
  case False
  then have "beginPaymentConfirm t now i s = s" by (auto simp: beginPaymentConfirm_def split: option.splits)
  then show ?thesis using ok by auto
qed

lemma end_confirm_frame:
  "wp_payment (endPaymentConfirm t u w c r s) = fst (endProcessPayment t u w c r (wp_payment s))"
  "wp_topupAmount (endPaymentConfirm t u w c r s) = wp_topupAmount s"
  "wp_selectedPaymentMethod (endPaymentConfirm t u w c r s) = wp_selectedPaymentMethod s"
  "wp_confirmDialogOpen (endPaymentConfirm t u w c r s) \<longrightarrow> wp_confirmDialogOpen s"
  "wp_selecting (endPaymentConfirm t u w c r s) = wp_selecting s"
  "wp_choosing (endPaymentConfirm t u w c r s) = wp_choosing s"
  "wp_paymentLoading (endPaymentConfirm t u w c r s) = wp_paymentLoading s"
  by (simp_all add: endPaymentConfirm_def Let_def split: prod.splits option.splits)

lemma page_confirmed:
  assumes ok: "page_ok t u w evs s" and c: "c \<in> set (ph_startCalls (wp_payment s))"
  shows "page_ok t u w (evs @ [StartReply c r]) (endPaymentConfirm t u w c r s)"
  by (rule page_pay [OF ok step_start_reply [OF c]])
     (simp_all add: end_confirm_frame end_pay_frame)

lemma open_order_frame:
  assumes "openLocalPaymentOrder t p s = (s', b)"
  shows "wp_payment s' = wp_payment s" "wp_topupAmount s' = wp_topupAmount s"
    "wp_selectedPaymentMethod s' = wp_selectedPaymentMethod s"
    "wp_confirmDialogOpen s' = wp_confirmDialogOpen s" "wp_selecting s' = wp_selecting s"
    "wp_choosing s' = wp_choosing s" "wp_paymentLoading s' = wp_paymentLoading s"
  using assms by (auto simp: openLocalPaymentOrder_def Let_def split: option.splits if_splits)

lemma page_creem_ok: "page_ok t u w evs s \<Longrightarrow> page_ok t u w evs (endCreemConfirm t p s)"
  by (cases "openLocalPaymentOrder t p s", rule page_ok_frame, assumption)
     (simp_all add: endCreemConfirm_def open_order_frame)

lemma page_option_ok:
  assumes ok: "page_ok t u w evs s" and ro: "ro \<in> set (wp_choosing s)"
  shows "page_ok t u w evs (endOptionSelect t ro p s)"
proof -
  obtain s' b where s': "openLocalPaymentOrder t p s = (s', b)" by fastforce
  have "wp_choosing s = [ro] \<and> wp_selecting s = []"
    using page_ok_length [OF ok] ro by (cases "wp_choosing s") (auto split: if_splits)
  then show ?thesis
    by (intro page_ok_same [OF ok]) (simp_all add: endOptionSelect_def s' open_order_frame [OF s'])
qed

lemma page_initial: "page_ok t u w [] (mountWallet n)"
  by (simp add: page_ok_def mountWallet_def dialog_ok_def selecting_ok_def path_start)

lemma page_user_ok: "page_ok t u w evs s \<Longrightarrow> page_ok t u w evs (endFetchUser r s)"
  by (rule page_ok_frame, assumption)
     (simp_all add: endFetchUser_def Let_def split: sum.splits option.splits)

lemma reach_ok:
  assumes "page_reach t u w s"
  shows "\<exists>evs. page_ok t u w evs s"
  using assms
proof (induction rule: page_reach.induct)
  case (page_info s info)
  then obtain evs where ok: "page_ok t u w evs s" by blast
  have "page_ok t u w evs (s\<lparr>wp_topupInfo := Some info\<rparr>)"
    by (rule page_ok_frame [OF ok]) simp_all
  then show ?case by (rule page_initialize)
next
  case (page_preset s preset)
  then show ?case unfolding handleSelectPreset_def using page_set_amount page_initialize by blast
next
  case (page_amount s a)
  then show ?case unfolding handleTopupAmountChange_def using page_set_amount page_initialize by blast
next
  case (page_close s)
  then obtain evs where ok: "page_ok t u w evs s" by blast
  have "page_ok t u w evs (s\<lparr>wp_confirmDialogOpen := False\<rparr>)"
    by (rule page_ok_frame [OF ok]) simp_all
  then show ?case ..
next
  case (page_product s p)
  then obtain evs where ok: "page_ok t u w evs s" by blast
  have "page_ok t u w evs (handlePaymentProductSelect p s)"
    by (rule page_ok_frame [OF ok]) (simp_all add: handlePaymentProductSelect_def)
  then show ?case ..
next
  case (page_option s ro)
  then obtain evs where ok: "page_ok t u w evs s" by blast
  have "page_ok t u w evs (beginOptionSelect ro s)"
    by (rule page_ok_same [OF ok])
       (use page_ok_length [OF ok] page_option.hyps in \<open>simp_all add: beginOptionSelect_def\<close>)
  then show ?case ..
next
  case (page_creem s start)
  then show ?case using page_creem_ok by blast
next
  case (page_mount n)
  then show ?case using page_initial by blast
next
  case (page_user s reply)
  then show ?case using page_user_ok by blast
next
  case (page_timer s)
  then show ?case using page_fire by blast
next
  case (page_method s m)
  then show ?case using page_select by blast
next
  case (page_quote s c r)
  then show ?case using page_reply by blast
next
  case (page_confirm s now i)
  then show ?case using page_confirming by blast
next
  case (page_started s sc r)
  then show ?case using page_confirmed by blast
next
  case (page_chosen s ro start)
  then show ?case using page_option_ok by blast
qed

section \<open>Property\<close>

lemma confirm_calls:
  assumes "wp_selectedPaymentMethod s = Some m" "ph_quote (wp_payment s) = Some q"
    and "c \<in> set (ph_startCalls (wp_payment (beginPaymentConfirm t now i s)))"
  shows "c \<in> set (ph_startCalls (wp_payment s)) \<or> sc_quote_id c = pq_quote_id q"
  using assms
  by (auto simp: beginPaymentConfirm_def beginProcessPayment_def finish_payment_def fail_payment_def Let_def
      split: if_splits option.splits)



end
