(* ===== verification/Js_Regexp.thy ===== *)
theory Js_Regexp
  imports Js_Json
begin

text \<open>
  Regular expressions of the language, with their backtracking matcher: a match is tried with a
  continuation for what follows, alternatives from left to right and repetitions greedily, and
  the first success is the result. A state of the matcher is the character before the position,
  the text after it and the captures. No pattern of the development has a capture inside a
  repetition, so the resetting of such captures is left out.
\<close>

named_theorems rx \<open>one rewrite rule per construction of a pattern\<close>

section \<open>Patterns and the matcher\<close>

datatype regexp =
    RxEmpty
  | RxClass "char \<Rightarrow> bool"
  | RxSeq regexp regexp
  | RxAlt regexp regexp
  | RxStar regexp
  | RxGroup nat regexp
  | RxRef nat
  | RxEnd
  | RxWordBoundary

type_synonym rx_state = "char option \<times> string \<times> (nat \<Rightarrow> string option)"

definition is_word_char :: "char \<Rightarrow> bool" where
  "is_word_char c \<longleftrightarrow> is_digit c \<or> is_lower c \<or> is_upper c \<or> c = CHR ''_''"

definition at_word :: "char option \<Rightarrow> bool" where
  "at_word c \<longleftrightarrow> (case c of Some d \<Rightarrow> is_word_char d | None \<Rightarrow> False)"

definition first_char :: "string \<Rightarrow> char option" where
  "first_char s = (case s of [] \<Rightarrow> None | c # _ \<Rightarrow> Some c)"

definition after_text :: "char option \<Rightarrow> string \<Rightarrow> char option" where
  "after_text prev s = (if s = [] then prev else Some (last s))"

function rx_match :: "regexp \<Rightarrow> rx_state \<Rightarrow> (rx_state \<Rightarrow> 'r option) \<Rightarrow> 'r option" where
  "rx_match RxEmpty st k = k st"
| "rx_match (RxClass P) (prev, s, caps) k =
     (case s of [] \<Rightarrow> None | c # cs \<Rightarrow> if P c then k (Some c, cs, caps) else None)"
| "rx_match (RxSeq a b) st k = rx_match a st (\<lambda>st'. rx_match b st' k)"
| "rx_match (RxAlt a b) st k =
     (case rx_match a st k of Some r \<Rightarrow> Some r | None \<Rightarrow> rx_match b st k)"
| "rx_match (RxStar a) st k =
     (case rx_match a st (\<lambda>st'. if length (fst (snd st')) < length (fst (snd st))
          then rx_match (RxStar a) st' k else None) of
        Some r \<Rightarrow> Some r | None \<Rightarrow> k st)"
| "rx_match (RxGroup n a) (prev, s, caps) k =
     rx_match a (prev, s, caps) (\<lambda>(prev', s', caps').
       k (prev', s', caps'(n \<mapsto> take (length s - length s') s)))"
| "rx_match (RxRef n) (prev, s, caps) k =
     (case caps n of
        None \<Rightarrow> k (prev, s, caps)
      | Some t \<Rightarrow> if prefix t s then k (after_text prev t, drop (length t) s, caps) else None)"
| "rx_match RxEnd (prev, s, caps) k = (if s = [] then k (prev, s, caps) else None)"
| "rx_match RxWordBoundary (prev, s, caps) k =
     (if at_word prev \<noteq> at_word (first_char s) then k (prev, s, caps) else None)"
  by pat_completeness auto
termination
  by (relation "measures [\<lambda>(r, st, k). size r, \<lambda>(r, st, k). length (fst (snd st))]") auto

text \<open>
  \<open>RegExp.exec\<close>: a pattern that starts with \<open>^\<close> is tried at the start only, any other at every
  position from the left; a global pattern goes on behind its last match.
\<close>

definition no_captures :: "nat \<Rightarrow> string option" where
  "no_captures = (\<lambda>_. None)"

definition rx_anchored :: "regexp \<Rightarrow> string \<Rightarrow> (nat \<Rightarrow> string option) option" where
  "rx_anchored r s = rx_match r (None, s, no_captures) (\<lambda>(_, _, caps). Some caps)"

fun rx_search :: "regexp \<Rightarrow> char option \<Rightarrow> string \<Rightarrow> rx_state option" where
  "rx_search r prev s =
     (case rx_match r (prev, s, no_captures) Some of
        Some st \<Rightarrow> Some st
      | None \<Rightarrow> (case s of [] \<Rightarrow> None | c # cs \<Rightarrow> rx_search r (Some c) cs))"

text \<open>A match of the empty text would be found again for ever; no pattern used so matches it.\<close>

function rx_all :: "regexp \<Rightarrow> char option \<Rightarrow> string \<Rightarrow> (nat \<Rightarrow> string option) list" where
  "rx_all r prev s =
     (case rx_search r prev s of
        None \<Rightarrow> []
      | Some (prev', s', caps) \<Rightarrow> caps # (if length s' < length s then rx_all r prev' s' else []))"
  by pat_completeness auto
termination
  by (relation "measure (\<lambda>(r, prev, s). length s)") auto

section \<open>Abbreviated patterns\<close>

primrec rx_text :: "string \<Rightarrow> regexp" where
  "rx_text [] = RxEmpty"
| "rx_text (c # cs) = RxSeq (RxClass (\<lambda>d. d = c)) (rx_text cs)"

primrec rx_seq :: "regexp list \<Rightarrow> regexp" where
  "rx_seq [] = RxEmpty"
| "rx_seq (r # rs) = RxSeq r (rx_seq rs)"

fun rx_alts :: "regexp list \<Rightarrow> regexp" where
  "rx_alts [] = RxClass (\<lambda>_. False)"
| "rx_alts [r] = r"
| "rx_alts (r # rs) = RxAlt r (rx_alts rs)"

definition rx_plus :: "regexp \<Rightarrow> regexp" where
  "rx_plus r = RxSeq r (RxStar r)"

definition rx_opt :: "regexp \<Rightarrow> regexp" where
  "rx_opt r = RxAlt r RxEmpty"

definition rx_spaces :: regexp where
  "rx_spaces = RxStar (RxClass is_ws)"

section \<open>Computation\<close>

declare rx_match.simps [simp del] rx_search.simps [simp del] rx_all.simps [simp del]

lemma match_basic [rx]:
  "rx_match RxEmpty st k = k st"
  "rx_match (RxSeq a b) st k = rx_match a st (\<lambda>st'. rx_match b st' k)"
  "rx_match (RxClass P) (prev, [], caps) k = None"
  "rx_match (RxClass P) (prev, c # cs, caps) k = (if P c then k (Some c, cs, caps) else None)"
  "rx_match RxEnd (prev, s, caps) k = (if s = [] then k (prev, s, caps) else None)"
  by (simp_all add: rx_match.simps)

lemma match_text [rx]:
  "rx_match (rx_text w) (prev, s, caps) k =
     (if prefix w s then k (after_text prev w, drop (length w) s, caps) else None)"
proof (induction w arbitrary: prev s)
  case (Cons c w)
  then show ?case by (cases s) (auto simp: rx after_text_def)
qed (simp add: rx after_text_def)

lemma match_seq [rx]:
  "rx_match (rx_seq []) st k = k st"
  "rx_match (rx_seq (r # rs)) st k = rx_match r st (\<lambda>st'. rx_match (rx_seq rs) st' k)"
  by (simp_all add: rx)

lemma match_opt [rx]:
  "rx_match (rx_opt r) st k = coalesce (rx_match r st k) (k st)"
  by (simp add: rx_opt_def rx_match.simps coalesce_def split: option.split)

lemma match_alts [rx]:
  "rx_match (rx_alts [r]) st k = rx_match r st k"
  "rx_match (rx_alts (r # r' # rs)) st k =
     coalesce (rx_match r st k) (rx_match (rx_alts (r' # rs)) st k)"
  by (simp_all add: rx_match.simps coalesce_def)

lemma match_group [rx]:
  "rx_match (RxGroup n a) (prev, s, caps) k =
     rx_match a (prev, s, caps) (\<lambda>(prev', s', caps').
       k (prev', s', caps'(n \<mapsto> take (length s - length s') s)))"
  by (simp add: rx_match.simps)

declare rx_text.simps [simp del] rx_seq.simps [simp del] rx_alts.simps [simp del]

lemmas rx_unfold = rx_text.simps rx_seq.simps rx_alts.simps rx_plus_def rx_opt_def rx_spaces_def

text \<open>A greedy run of a class, first its one step, then the two ways it is used.\<close>

lemma star_class_step:
  "rx_match (RxStar (RxClass P)) (prev, [], caps) k = k (prev, [], caps)"
  "rx_match (RxStar (RxClass P)) (prev, c # cs, caps) k =
     (if P c
      then case rx_match (RxStar (RxClass P)) (Some c, cs, caps) k of
             Some x \<Rightarrow> Some x | None \<Rightarrow> k (prev, c # cs, caps)
      else k (prev, c # cs, caps))"
  by (subst rx_match.simps, simp add: rx_match.simps(2))+

text \<open>What follows cannot start inside the run: the run is taken as a whole.\<close>

lemma star_class_whole:
  assumes "list_all P ds" "rest = [] \<or> \<not> P (hd rest)"
    and "\<And>prev' d xs. P d \<Longrightarrow> k (prev', d # xs, caps) = None"
  shows "rx_match (RxStar (RxClass P)) (prev, ds @ rest, caps) k = k (after_text prev ds, rest, caps)"
  using assms(1)
proof (induction ds arbitrary: prev)
  case Nil
  then show ?case using assms(2) by (cases rest) (simp_all add: star_class_step after_text_def)
next
  case (Cons d ds)
  then show ?case
    using assms(3) by (auto simp: star_class_step after_text_def split: option.splits)
qed

lemma plus_class_whole:
  assumes "list_all P ds" "ds \<noteq> []" "rest = [] \<or> \<not> P (hd rest)"
    and "\<And>prev' d xs. P d \<Longrightarrow> k (prev', d # xs, caps) = None"
  shows "rx_match (rx_plus (RxClass P)) (prev, ds @ rest, caps) k = k (Some (last ds), rest, caps)"
proof -
  obtain d es where ds: "ds = d # es" using assms(2) by (cases ds) auto
  then show ?thesis
    using star_class_whole [of P es rest k caps "Some d"] assms
    by (simp add: rx_plus_def rx after_text_def)
qed

text \<open>What follows succeeds behind the longest run: that is the result.\<close>

lemma star_class_longest:
  assumes "list_all P ds" "rest = [] \<or> \<not> P (hd rest)" "k (after_text prev ds, rest, caps) = Some x"
  shows "rx_match (RxStar (RxClass P)) (prev, ds @ rest, caps) k = Some x"
  using assms(1,3)
proof (induction ds arbitrary: prev)
  case Nil
  then show ?case using assms(2) by (cases rest) (simp_all add: star_class_step after_text_def)
next
  case (Cons d ds)
  have "after_text (Some d) ds = after_text prev (d # ds)" by (simp add: after_text_def)
  then show ?case using Cons by (simp add: star_class_step)
qed

lemma plus_class_longest:
  assumes "list_all P ds" "ds \<noteq> []" "rest = [] \<or> \<not> P (hd rest)" "k (Some (last ds), rest, caps) = Some x"
  shows "rx_match (rx_plus (RxClass P)) (prev, ds @ rest, caps) k = Some x"
proof -
  obtain d es where ds: "ds = d # es" using assms(2) by (cases ds) auto
  then show ?thesis
    using star_class_longest [of P es rest k "Some d" caps x] assms
    by (simp add: rx_plus_def rx after_text_def split: if_splits)
qed

lemma coalesce_None [simp]: "coalesce x None = x"
  by (cases x) (simp_all add: coalesce_def)

lemma group_plus_whole:
  assumes "list_all P ds" "ds \<noteq> []" "rest = [] \<or> \<not> P (hd rest)"
    and "\<And>prev' d xs caps'. P d \<Longrightarrow> k (prev', d # xs, caps') = None"
  shows "rx_match (RxGroup n (rx_plus (RxClass P))) (prev, ds @ rest, caps) k
       = k (Some (last ds), rest, caps(n \<mapsto> ds))"
  unfolding match_group by (subst plus_class_whole) (use assms in auto)

lemma group_plus_longest:
  assumes "list_all P ds" "ds \<noteq> []" "rest = [] \<or> \<not> P (hd rest)"
    and "k (Some (last ds), rest, caps(n \<mapsto> ds)) = Some x"
  shows "rx_match (RxGroup n (rx_plus (RxClass P))) (prev, ds @ rest, caps) k = Some x"
  unfolding match_group by (rule plus_class_longest) (use assms in auto)

text \<open>
  A run of any characters backs off from the end of the text: the result is that of the last
  position from which what follows succeeds.
\<close>

lemma star_any_fails:
  assumes "\<And>prev' zs. suffix zs ys \<Longrightarrow> k (prev', zs, caps) = None"
  shows "rx_match (RxStar (RxClass (\<lambda>_. True))) (prev, ys, caps) k = None"
  using assms
proof (induction ys arbitrary: prev)
  case (Cons y ys)
  then show ?case by (simp add: star_class_step suffix_Cons)
qed (simp add: star_class_step)

lemma star_any_last:
  assumes "k (after_text prev xs, ys, caps) = Some x"
    and "\<And>prev' zs. strict_suffix zs ys \<Longrightarrow> k (prev', zs, caps) = None"
  shows "rx_match (RxStar (RxClass (\<lambda>_. True))) (prev, xs @ ys, caps) k = Some x"
  using assms(1)
proof (induction xs arbitrary: prev)
  case Nil
  show ?case
  proof (cases ys)
    case (Cons y zs)
    then have "rx_match (RxStar (RxClass (\<lambda>_. True))) (Some y, zs, caps) k = None"
      by (intro star_any_fails assms(2)) (auto simp: strict_suffix_def suffix_def)
    then show ?thesis using Nil Cons by (simp add: star_class_step after_text_def)
  qed (use Nil in \<open>simp add: star_class_step after_text_def\<close>)
next
  case (Cons c cs)
  have "after_text (Some c) cs = after_text prev (c # cs)" by (simp add: after_text_def)
  then show ?case using Cons by (simp add: star_class_step)
qed

section \<open>What a pattern can consume\<close>

fun rx_over :: "(char \<Rightarrow> bool) \<Rightarrow> regexp \<Rightarrow> bool" where
  "rx_over P (RxClass Q) \<longleftrightarrow> (\<forall>c. Q c \<longrightarrow> P c)"
| "rx_over P (RxSeq a b) \<longleftrightarrow> rx_over P a \<and> rx_over P b"
| "rx_over P (RxAlt a b) \<longleftrightarrow> rx_over P a \<and> rx_over P b"
| "rx_over P (RxStar a) \<longleftrightarrow> rx_over P a"
| "rx_over P (RxGroup n a) \<longleftrightarrow> rx_over P a"
| "rx_over P (RxRef n) \<longleftrightarrow> False"
| "rx_over P r \<longleftrightarrow> True"

lemma consumes_nothing:
  "k (p, s, c) = Some x \<Longrightarrow> \<exists>s1 s2. s = s1 @ s2 \<and> list_all P s1 \<and> (\<exists>p' c'. k (p', s2, c') = Some x)"
  by (rule exI [of _ "[]"], rule exI [of _ s]) auto

lemma match_consumes:
  assumes "rx_match r st k = Some x" "rx_over P r"
  shows "\<exists>s1 s2 prev' caps'. fst (snd st) = s1 @ s2 \<and> list_all P s1 \<and> k (prev', s2, caps') = Some x"
  using assms
proof (induction r st k rule: rx_match.induct)
  case (2 Q prev s caps k)
  then obtain c cs where "s = c # cs" "Q c" "k (Some c, cs, caps) = Some x"
    by (cases s) (auto simp: rx_match.simps split: if_splits)
  with 2 show ?case by (intro exI [of _ "[c]"] exI [of _ cs]) auto
next
  case (3 a b st k)
  then obtain s1 s2 p c where a: "fst (snd st) = s1 @ s2" "list_all P s1"
    "rx_match b (p, s2, c) k = Some x" by (fastforce simp: rx_match.simps)
  with 3(1) [of "(p, s2, c)"] 3(4) obtain t1 t2 p' c' where "s2 = t1 @ t2" "list_all P t1" "k (p', t2, c') = Some x"
    by auto
  with a show ?case by (intro exI [of _ "s1 @ t1"] exI [of _ t2]) auto
next
  case (4 a b st k)
  then show ?case by (fastforce simp: rx_match.simps split: option.splits)
next
  case (5 a st k)
  let ?k = "\<lambda>st'. if length (fst (snd st')) < length (fst (snd st)) then rx_match (RxStar a) st' k else None"
  show ?case
  proof (cases "rx_match a st ?k")
    case None
    then have "k st = Some x" using 5 by (simp add: rx_match.simps)
    then show ?thesis by (intro exI [of _ "[]"] exI [of _ "fst (snd st)"]) (cases st, auto)
  next
    case (Some y)
    then have "rx_match a st ?k = Some x" using 5(3) by (subst (asm) rx_match.simps) simp
    with 5(2) 5(4) obtain s1 s2 p c where a: "fst (snd st) = s1 @ s2" "list_all P s1"
      "?k (p, s2, c) = Some x" by fastforce
    then have "rx_match (RxStar a) (p, s2, c) k = Some x" "length s2 < length (fst (snd st))"
      by (auto split: if_splits)
    with 5(1) [of "(p, s2, c)"] 5(4) obtain t1 t2 p' c' where
      "s2 = t1 @ t2" "list_all P t1" "k (p', t2, c') = Some x" by auto
    with a show ?thesis by (intro exI [of _ "s1 @ t1"] exI [of _ t2]) auto
  qed
next
  case (6 n a prev s caps k)
  then show ?case by (fastforce simp: rx_match.simps)
qed (auto simp: rx_match.simps split: if_splits intro: consumes_nothing)

lemma match_append [rx]:
  "rx_match (rx_seq (rs @ rs')) st k = rx_match (rx_seq rs) st (\<lambda>st'. rx_match (rx_seq rs') st' k)"
  by (induction rs arbitrary: st) (simp_all add: rx)

lemma whole_match_over:
  assumes "rx_anchored (rx_seq (rs @ [RxEnd])) s = Some m" "rx_over P (rx_seq rs)"
  shows "list_all P s"
proof -
  have "rx_match (rx_seq rs) (None, s, no_captures)
      (\<lambda>st'. rx_match (rx_seq [RxEnd]) st' (\<lambda>(_, _, caps). Some caps)) = Some m"
    using assms(1) by (simp add: rx_anchored_def match_append)
  from match_consumes [OF this assms(2)] show ?thesis by (auto simp: rx split: if_splits)
qed

end
