(* ===== verification/Pr_Rules.thy ===== *)
theory Pr_Rules
  imports Js_Regexp
begin

text \<open>
  Request rules of the pricing pages, second half of \<open>features/pricing/lib/billing-expr.ts\<close>: the
  conditions and multipliers an administrator edits, the expression built from them, the parser
  that reads such an expression back, and how an expression is combined from and split into the
  price and the rules. Patterns are those of the source, group by group.
\<close>

section \<open>Data\<close>

datatype RuleSource = SrcParam | SrcHeader

datatype RequestCondition =
    TimeCondition (rc_timeFunc: string) (rc_timezone: string) (rc_time_mode: string)
      (rc_time_value: string) (rc_rangeStart: string) (rc_rangeEnd: string)
  | ParamHeaderCondition (rc_source: RuleSource) (rc_path: string) (rc_mode: string) (rc_value: string)

record RequestRuleGroup =
  rg_conditions :: "RequestCondition list"
  rg_multiplier :: string

definition TIME_FUNCS :: "string list" where
  "TIME_FUNCS = [''hour'', ''minute'', ''weekday'', ''month'', ''day'']"

section \<open>Patterns\<close>

abbreviation rx_char :: "char \<Rightarrow> regexp" where
  "rx_char c \<equiv> RxClass (\<lambda>d. d = c)"

abbreviation rx_digits :: regexp where
  "rx_digits \<equiv> rx_plus (RxClass is_digit)"

definition NUMERIC_LITERAL_REGEX :: regexp where
  "NUMERIC_LITERAL_REGEX = rx_seq
     ([rx_opt (rx_char CHR ''-''),
      RxAlt (rx_seq [rx_digits, rx_opt (rx_char CHR ''.''), RxStar (RxClass is_digit)])
            (rx_seq [rx_char CHR ''.'', rx_digits]),
      rx_opt (rx_seq [RxClass (\<lambda>c. c = CHR ''e'' \<or> c = CHR ''E''),
        rx_opt (RxClass (\<lambda>c. c = CHR ''+'' \<or> c = CHR ''-'')), rx_digits])]
      @ [RxEnd])"

definition is_numeric_literal :: "string \<Rightarrow> bool" where
  "is_numeric_literal s \<longleftrightarrow> rx_anchored NUMERIC_LITERAL_REGEX s \<noteq> None"

text \<open>\<open>[\d.eE+-]\<close>, \<open>[^"]\<close> and \<open>.\<close>\<close>

definition numeral_char :: "char \<Rightarrow> bool" where
  "numeral_char c \<longleftrightarrow> is_digit c \<or> c \<in> set ''.eE+-''"

definition not_quote :: "char \<Rightarrow> bool" where
  "not_quote c \<longleftrightarrow> c \<noteq> CHR 0x22"

definition not_line_end :: "char \<Rightarrow> bool" where
  "not_line_end c \<longleftrightarrow> \<not> is_line_end c"

definition rx_numeral :: "nat \<Rightarrow> regexp" where
  "rx_numeral n = RxGroup n (rx_plus (RxClass numeral_char))"

definition rx_name :: "nat \<Rightarrow> regexp" where
  "rx_name n = RxGroup n (rx_plus (RxClass not_quote))"

text \<open>\<open>"(?:[^"\\]|\\.)*"\<close>\<close>

definition rx_string :: "nat \<Rightarrow> regexp" where
  "rx_string n = RxGroup n (rx_seq [rx_char CHR 0x22,
     RxStar (RxAlt (RxClass (\<lambda>c. c \<noteq> CHR 0x22 \<and> c \<noteq> CHR 0x5C))
                   (rx_seq [rx_char CHR 0x5C, RxClass not_line_end])),
     rx_char CHR 0x22])"

definition rx_time_func :: regexp where
  "rx_time_func = RxGroup 1 (rx_alts (map rx_text TIME_FUNCS))"

definition dquote :: string where
  "dquote = [CHR 0x22]"

definition time_range_pattern :: "regexp list" where
  "time_range_pattern =
     [rx_time_func, rx_text (''('' @ dquote), rx_name 2, rx_text (dquote @ '') >= ''), rx_numeral 3,
      rx_text '' || '', RxRef 1, rx_text (''('' @ dquote), RxRef 2, rx_text (dquote @ '') < ''), rx_numeral 4]"

definition time_pattern :: regexp where
  "time_pattern = rx_seq
     [rx_time_func, rx_text (''('' @ dquote), rx_name 2, rx_text (dquote @ '') ''),
      RxGroup 3 (rx_alts [rx_text ''=='', rx_text ''>='', rx_text ''<'']), rx_text '' '', rx_numeral 4, RxEnd]"

section \<open>Reading rules\<close>

text \<open>
  The loop over the characters keeps the nesting depth and the part read so far, and goes on
  behind a separator at depth 0.
\<close>

definition paren_depth :: "int \<Rightarrow> char \<Rightarrow> int" where
  "paren_depth depth c =
     (if c = CHR ''('' then depth + 1 else if c = CHR '')'' then depth - 1 else depth)"

function split_top :: "string \<Rightarrow> int \<Rightarrow> string \<Rightarrow> string \<Rightarrow> string list" where
  "split_top sep depth part [] = [trim part]"
| "split_top sep depth part (c # cs) =
     (let depth' = paren_depth depth c
      in if depth' = 0 \<and> prefix sep (c # cs)
         then trim part # split_top sep depth' [] (drop (length sep - 1) cs)
         else split_top sep depth' (part @ [c]) cs)"
  by pat_completeness auto
termination
  by (relation "measure (\<lambda>(sep, depth, part, s). length s)") auto

definition splitTopLevelMultiply :: "string \<Rightarrow> string list" where
  "splitTopLevelMultiply expr = filter (\<lambda>p. p \<noteq> []) (split_top '' * '' 0 [] expr)"

definition splitTopLevelAnd :: "string \<Rightarrow> string list" where
  "splitTopLevelAnd expr = filter (\<lambda>p. p \<noteq> []) (split_top '' && '' 0 [] expr)"

text \<open>The value of a literal; \<open>null\<close> when it is \<open>null\<close> or not a literal.\<close>

definition parseExprLiteral :: "string \<Rightarrow> jsval" where
  "parseExprLiteral raw =
     (let text = trim raw
      in if text = ''true'' \<or> text = ''false'' then JStr text
         else if is_numeric_literal text then JStr text
         else case json_parse text of Inr v \<Rightarrow> v | Inl _ \<Rightarrow> JNull)"

definition capture :: "(nat \<Rightarrow> string option) \<Rightarrow> nat \<Rightarrow> string" where
  "capture caps n = (case caps n of Some s \<Rightarrow> s | None \<Rightarrow> [])"

definition time_range :: "(nat \<Rightarrow> string option) \<Rightarrow> RequestCondition" where
  "time_range m = TimeCondition (capture m 1) (capture m 2) ''range'' [] (capture m 3) (capture m 4)"

definition tryParseTimeCondition :: "string \<Rightarrow> RequestCondition option" where
  "tryParseTimeCondition expr =
     (case rx_anchored (rx_seq (time_range_pattern @ [RxEnd])) expr of
        Some m \<Rightarrow> Some (time_range m)
      | None \<Rightarrow>
     (case rx_anchored (rx_seq (rx_text ''('' # time_range_pattern @ [rx_text '')'', RxEnd])) expr of
        Some m \<Rightarrow> Some (time_range m)
      | None \<Rightarrow>
     (case rx_anchored time_pattern expr of
        Some m \<Rightarrow>
          let op = capture m 3;
              mode = (if op = ''=='' then ''eq'' else if op = ''>='' then ''gte'' else ''lt'')
          in Some (TimeCondition (capture m 1) (capture m 2) mode (capture m 4) [] [])
      | None \<Rightarrow> None)))"

definition header_exists_pattern :: regexp where
  "header_exists_pattern =
     rx_seq [rx_text (''header('' @ dquote), rx_name 1, rx_text (dquote @ '') != '' @ dquote @ dquote), RxEnd]"

definition param_exists_pattern :: regexp where
  "param_exists_pattern =
     rx_seq [rx_text (''param('' @ dquote), rx_name 1, rx_text (dquote @ '') != nil''), RxEnd]"

definition header_contains_pattern :: regexp where
  "header_contains_pattern =
     rx_seq [rx_text (''has(header('' @ dquote), rx_name 1, rx_text (dquote @ ''), ''), rx_string 2,
       rx_text '')'', RxEnd]"

definition param_contains_pattern :: regexp where
  "param_contains_pattern =
     rx_seq [rx_text (''param('' @ dquote), rx_name 1, rx_text (dquote @ '') != nil && has(param('' @ dquote),
       rx_name 2, rx_text (dquote @ ''), ''), rx_string 3, rx_text '')'', RxEnd]"

definition param_compare_pattern :: regexp where
  "param_compare_pattern =
     rx_seq [rx_text (''param('' @ dquote), rx_name 1, rx_text (dquote @ '') != nil && param('' @ dquote),
       rx_name 2, rx_text (dquote @ '') ''),
       RxGroup 3 (rx_alts [rx_text ''>'', rx_text ''>='', rx_text ''<'', rx_text ''<='']),
       rx_text '' '', rx_numeral 4, RxEnd]"

definition equals_pattern :: regexp where
  "equals_pattern =
     rx_seq [RxGroup 1 (rx_alts [rx_text ''param'', rx_text ''header'']), rx_text (''('' @ dquote), rx_name 2,
       rx_text (dquote @ '') == ''), RxGroup 3 (rx_plus (RxClass not_line_end)), RxEnd]"

definition compare_mode :: "string \<Rightarrow> string" where
  "compare_mode op = (if op = ''>'' then ''gt'' else if op = ''>='' then ''gte''
     else if op = ''<'' then ''lt'' else ''lte'')"

text \<open>The text of a string literal; \<open>JSON.parse\<close> may throw, and this is not caught.\<close>

definition string_literal :: "string \<Rightarrow> js_error + string" where
  "string_literal s = (case json_parse s of Inl e \<Rightarrow> Inl e | Inr v \<Rightarrow> Inr (js_to_string v))"

definition map_literal ::
  "(string \<Rightarrow> RequestCondition) \<Rightarrow> js_error + string \<Rightarrow> js_error + RequestCondition option"
where
  "map_literal f r = (case r of Inl e \<Rightarrow> Inl e | Inr s \<Rightarrow> Inr (Some (f s)))"

definition parse_equals :: "string \<Rightarrow> RequestCondition option" where
  "parse_equals expr =
     (case rx_anchored equals_pattern expr of
        None \<Rightarrow> None
      | Some m \<Rightarrow>
          let parsedValue = parseExprLiteral (capture m 3)
          in if parsedValue = JNull then None
             else Some (ParamHeaderCondition (if capture m 1 = ''param'' then SrcParam else SrcHeader)
               (capture m 2) ''eq'' (js_to_string parsedValue)))"

definition same_path :: "(nat \<Rightarrow> string option) \<Rightarrow> (nat \<Rightarrow> string option) option" where
  "same_path m = (if capture m 1 = capture m 2 then Some m else None)"

definition tryParseRequestCondition :: "string \<Rightarrow> js_error + RequestCondition option" where
  "tryParseRequestCondition expr =
     (case tryParseTimeCondition expr of
        Some tc \<Rightarrow> Inr (Some tc)
      | None \<Rightarrow>
     (case rx_anchored header_exists_pattern expr of
        Some m \<Rightarrow> Inr (Some (ParamHeaderCondition SrcHeader (capture m 1) ''exists'' []))
      | None \<Rightarrow>
     (case rx_anchored param_exists_pattern expr of
        Some m \<Rightarrow> Inr (Some (ParamHeaderCondition SrcParam (capture m 1) ''exists'' []))
      | None \<Rightarrow>
     (case rx_anchored header_contains_pattern expr of
        Some m \<Rightarrow> map_literal (ParamHeaderCondition SrcHeader (capture m 1) ''contains'')
                    (string_literal (capture m 2))
      | None \<Rightarrow>
     (case Option.bind (rx_anchored param_contains_pattern expr) same_path of
        Some m \<Rightarrow> map_literal (ParamHeaderCondition SrcParam (capture m 1) ''contains'')
                    (string_literal (capture m 3))
      | None \<Rightarrow>
     (case Option.bind (rx_anchored param_compare_pattern expr) same_path of
        Some m \<Rightarrow>
          Inr (Some (ParamHeaderCondition SrcParam (capture m 1) (compare_mode (capture m 3)) (capture m 4)))
      | None \<Rightarrow> Inr (parse_equals expr)))))))"

text \<open>\<open>(.+)\<close> is read with the flag \<open>s\<close> here: any character.\<close>

definition factor_pattern :: regexp where
  "factor_pattern =
     rx_seq [rx_text ''('', RxGroup 1 (rx_plus (RxClass (\<lambda>_. True))), rx_text '' ? '', rx_numeral 2,
       rx_text '' : 1)'', RxEnd]"

fun parse_conditions :: "string list \<Rightarrow> js_error + RequestCondition list option" where
  "parse_conditions [] = Inr (Some [])"
| "parse_conditions (ap # aps) =
     (case tryParseRequestCondition (trim ap) of
        Inl e \<Rightarrow> Inl e
      | Inr None \<Rightarrow> Inr None
      | Inr (Some cond) \<Rightarrow>
          (case parse_conditions aps of
             Inl e \<Rightarrow> Inl e
           | Inr r \<Rightarrow> Inr (map_option (\<lambda>cs. cond # cs) r)))"

definition tryParseRuleGroupFactor :: "string \<Rightarrow> js_error + RequestRuleGroup option" where
  "tryParseRuleGroupFactor part =
     (case rx_anchored factor_pattern part of
        None \<Rightarrow> Inr None
      | Some m \<Rightarrow>
          (case parse_conditions (splitTopLevelAnd (capture m 1)) of
             Inl e \<Rightarrow> Inl e
           | Inr None \<Rightarrow> Inr None
           | Inr (Some conditions) \<Rightarrow>
               if conditions = [] then Inr None
               else Inr (Some \<lparr>rg_conditions = conditions, rg_multiplier = capture m 2\<rparr>)))"

fun parse_factors :: "string list \<Rightarrow> js_error + RequestRuleGroup list option" where
  "parse_factors [] = Inr (Some [])"
| "parse_factors (part # parts) =
     (case tryParseRuleGroupFactor part of
        Inl e \<Rightarrow> Inl e
      | Inr None \<Rightarrow> Inr None
      | Inr (Some rg) \<Rightarrow>
          (case parse_factors parts of
             Inl e \<Rightarrow> Inl e
           | Inr r \<Rightarrow> Inr (map_option (\<lambda>gs. rg # gs) r)))"

definition tryParseRequestRuleExpr :: "string \<Rightarrow> js_error + RequestRuleGroup list option" where
  "tryParseRequestRuleExpr expr =
     (let trimmed = trim expr
      in if trimmed = [] then Inr (Some []) else parse_factors (splitTopLevelMultiply trimmed))"

section \<open>Combining and splitting\<close>

fun parens_close :: "int \<Rightarrow> string \<Rightarrow> bool" where
  "parens_close depth [] \<longleftrightarrow> depth = 0"
| "parens_close depth (c # cs) \<longleftrightarrow>
     (let depth' = paren_depth depth c in \<not> (depth' = 0 \<and> cs \<noteq> []) \<and> parens_close depth' cs)"

definition hasFullOuterParens :: "string \<Rightarrow> bool" where
  "hasFullOuterParens expr \<longleftrightarrow> prefix ''('' expr \<and> suffix '')'' expr \<and> parens_close 0 expr"

lemma trim_butlast_shorter: "s \<noteq> [] \<Longrightarrow> length (trim (butlast (tl s))) < length s"
  using length_trim [of "butlast (tl s)"] by (cases s) (auto simp: le_less_trans)

function unwrap_parens :: "string \<Rightarrow> string" where
  "unwrap_parens current =
     (if hasFullOuterParens current then unwrap_parens (trim (butlast (tl current))) else current)"
  by pat_completeness auto
termination
  by (relation "measure length") (auto simp: hasFullOuterParens_def intro!: trim_butlast_shorter)

declare unwrap_parens.simps [simp del]

definition unwrapOuterParens :: "string \<Rightarrow> string" where
  "unwrapOuterParens expr = unwrap_parens (trim expr)"

text \<open>Whether a part is a rule; a throw of the parser goes on to the caller.\<close>

fun split_parts :: "string list \<Rightarrow> js_error + string list \<times> string list" where
  "split_parts [] = Inr ([], [])"
| "split_parts (part # parts) =
     (case tryParseRequestRuleExpr part of
        Inl e \<Rightarrow> Inl e
      | Inr parsed \<Rightarrow>
          (case split_parts parts of
             Inl e \<Rightarrow> Inl e
           | Inr (ruleParts, baseParts) \<Rightarrow>
               Inr (case parsed of
                  Some (g # gs) \<Rightarrow> (part # ruleParts, baseParts)
                | _ \<Rightarrow> (ruleParts, part # baseParts))))"

definition splitBillingExprAndRequestRules :: "string \<Rightarrow> js_error + string \<times> string" where
  "splitBillingExprAndRequestRules expr =
     (let trimmed = trim expr
      in if trimmed = [] then Inr ([], [])
         else let parts = splitTopLevelMultiply trimmed
         in if length parts \<le> 1 then Inr (trimmed, [])
         else case split_parts parts of
             Inl e \<Rightarrow> Inl e
           | Inr (ruleParts, baseParts) \<Rightarrow>
               Inr (if ruleParts = [] \<or> length baseParts \<noteq> 1 then (trimmed, [])
                    else (unwrapOuterParens (hd baseParts), join '' * '' ruleParts)))"

definition combineBillingExpr :: "string \<Rightarrow> string \<Rightarrow> string" where
  "combineBillingExpr baseExpr requestRuleExpr =
     (let base = trim baseExpr; rules = trim requestRuleExpr
      in if base = [] then [] else if rules = [] then base
         else ''('' @ base @ '') * '' @ rules)"

section \<open>Building rules\<close>

record MatchOption =
  mo_value :: string
  mo_labelKey :: string

definition getRequestRuleMatchOptions :: "string \<Rightarrow> MatchOption list" where
  "getRequestRuleMatchOptions source =
     (let base = [\<lparr>mo_value = ''eq'', mo_labelKey = ''Equals''\<rparr>,
                  \<lparr>mo_value = ''contains'', mo_labelKey = ''Contains''\<rparr>,
                  \<lparr>mo_value = ''exists'', mo_labelKey = ''Exists''\<rparr>]
      in if source = ''time''
         then [\<lparr>mo_value = ''eq'', mo_labelKey = ''Equals''\<rparr>,
               \<lparr>mo_value = ''gte'', mo_labelKey = ''Greater than or equal''\<rparr>,
               \<lparr>mo_value = ''lt'', mo_labelKey = ''Less than''\<rparr>,
               \<lparr>mo_value = ''range'', mo_labelKey = ''Overnight range''\<rparr>]
         else if source = ''header'' then base
         else base @ [\<lparr>mo_value = ''gt'', mo_labelKey = ''Greater than''\<rparr>,
               \<lparr>mo_value = ''gte'', mo_labelKey = ''Greater than or equal''\<rparr>,
               \<lparr>mo_value = ''lt'', mo_labelKey = ''Less than''\<rparr>,
               \<lparr>mo_value = ''lte'', mo_labelKey = ''Less than or equal''\<rparr>])"

definition createEmptyCondition :: RequestCondition where
  "createEmptyCondition = ParamHeaderCondition SrcParam [] ''eq'' []"

definition createEmptyTimeCondition :: RequestCondition where
  "createEmptyTimeCondition = TimeCondition ''hour'' ''Asia/Shanghai'' ''gte'' [] [] []"

definition createEmptyRuleGroup :: RequestRuleGroup where
  "createEmptyRuleGroup = \<lparr>rg_conditions = [createEmptyCondition], rg_multiplier = []\<rparr>"

definition createEmptyTimeRuleGroup :: RequestRuleGroup where
  "createEmptyTimeRuleGroup = \<lparr>rg_conditions = [createEmptyTimeCondition], rg_multiplier = []\<rparr>"

text \<open>A condition that may lack fields, and the condition that is made of it.\<close>

record PartialCondition =
  pc_source :: "string option"
  pc_timeFunc :: "string option"
  pc_timezone :: "string option"
  pc_path :: "string option"
  pc_mode :: "string option"
  pc_value :: "string option"
  pc_rangeStart :: "string option"
  pc_rangeEnd :: "string option"

definition isTimeFunc :: "string option \<Rightarrow> bool" where
  "isTimeFunc v \<longleftrightarrow> (case v of Some f \<Rightarrow> f \<in> set TIME_FUNCS | None \<Rightarrow> False)"

definition chosen_mode :: "string \<Rightarrow> string option \<Rightarrow> string \<Rightarrow> string" where
  "chosen_mode source mode fallback =
     (case mode of
        Some m \<Rightarrow> if m \<in> mo_value ` set (getRequestRuleMatchOptions source) then m else fallback
      | None \<Rightarrow> fallback)"

definition normalizeCondition :: "PartialCondition option \<Rightarrow> RequestCondition" where
  "normalizeCondition cond =
     (let field = (\<lambda>f. Option.bind cond f); text = (\<lambda>v. case v of Some s \<Rightarrow> s | None \<Rightarrow> [])
      in if field pc_source = Some ''time''
         then TimeCondition (if isTimeFunc (field pc_timeFunc) then the (field pc_timeFunc) else ''hour'')
                (or_opt (field pc_timezone) ''Asia/Shanghai'')
                (chosen_mode ''time'' (field pc_mode) ''gte'')
                (text (field pc_value)) (text (field pc_rangeStart)) (text (field pc_rangeEnd))
         else let header = (field pc_source = Some ''header'')
         in ParamHeaderCondition (if header then SrcHeader else SrcParam)
              (or_opt (field pc_path) [])
              (chosen_mode (if header then ''header'' else ''param'') (field pc_mode) ''eq'')
              (text (field pc_value)))"

fun as_partial :: "RequestCondition \<Rightarrow> PartialCondition" where
  "as_partial (TimeCondition f z m v a b) =
     \<lparr>pc_source = Some ''time'', pc_timeFunc = Some f, pc_timezone = Some z, pc_path = None,
      pc_mode = Some m, pc_value = Some v, pc_rangeStart = Some a, pc_rangeEnd = Some b\<rparr>"
| "as_partial (ParamHeaderCondition src p m v) =
     \<lparr>pc_source = Some (if src = SrcHeader then ''header'' else ''param''), pc_timeFunc = None,
      pc_timezone = None, pc_path = Some p, pc_mode = Some m, pc_value = Some v,
      pc_rangeStart = None, pc_rangeEnd = None\<rparr>"

definition buildExprLiteral :: "string \<Rightarrow> string \<Rightarrow> string" where
  "buildExprLiteral mode v =
     (let text = trim v
      in if mode = ''contains'' then quote text
         else if text = ''true'' \<or> text = ''false'' then text
         else if is_numeric_literal text then text
         else quote text)"

definition build_time :: "RequestCondition \<Rightarrow> string" where
  "build_time normalized =
     (let fn = rc_timeFunc normalized @ ''('' @ quote (rc_timezone normalized) @ '')''; mode = rc_time_mode normalized
      in if mode = ''range''
         then let s = trim (rc_rangeStart normalized); e = trim (rc_rangeEnd normalized)
              in if \<not> is_numeric_literal s \<or> \<not> is_numeric_literal e then []
                 else fn @ '' >= '' @ s @ '' || '' @ fn @ '' < '' @ e
         else let v = trim (rc_time_value normalized)
              in if \<not> is_numeric_literal v then []
                 else fn @ '' '' @ (if mode = ''gte'' then ''>='' else if mode = ''lt'' then ''<'' else ''=='')
                        @ '' '' @ v)"

definition buildTimeConditionExpr :: "RequestCondition \<Rightarrow> string" where
  "buildTimeConditionExpr cond = build_time (normalizeCondition (Some (as_partial cond)))"

definition compare_op :: "string \<Rightarrow> string" where
  "compare_op mode = (if mode = ''gt'' then ''>'' else if mode = ''gte'' then ''>=''
     else if mode = ''lt'' then ''<'' else ''<='')"

definition build_param_header :: "RequestCondition \<Rightarrow> string" where
  "build_param_header normalized =
     (let path = trim (rc_path normalized); mode = rc_mode normalized;
          header = (rc_source normalized = SrcHeader);
          sourceExpr = (if header then ''header'' else ''param'') @ ''('' @ quote path @ '')'';
          literal = buildExprLiteral mode (rc_value normalized)
      in if path = [] then []
         else if mode = ''exists''
         then if header then sourceExpr @ '' != '' @ dquote @ dquote else sourceExpr @ '' != nil''
         else if mode = ''contains''
         then if header then ''has('' @ sourceExpr @ '', '' @ literal @ '')''
              else sourceExpr @ '' != nil && has('' @ sourceExpr @ '', '' @ literal @ '')''
         else if mode \<in> {''gt'', ''gte'', ''lt'', ''lte''}
         then let numText = trim (rc_value normalized)
              in if \<not> is_numeric_literal numText then []
                 else sourceExpr @ '' != nil && '' @ sourceExpr @ '' '' @ compare_op mode @ '' '' @ numText
         else sourceExpr @ '' == '' @ literal)"

definition buildRequestConditionExpr :: "RequestCondition \<Rightarrow> string" where
  "buildRequestConditionExpr cond =
     (case cond of
        TimeCondition _ _ _ _ _ _ \<Rightarrow> buildTimeConditionExpr cond
      | ParamHeaderCondition _ _ _ _ \<Rightarrow> build_param_header (normalizeCondition (Some (as_partial cond))))"

definition buildRuleGroupFactor :: "RequestRuleGroup \<Rightarrow> string" where
  "buildRuleGroupFactor g =
     (let multiplier = trim (rg_multiplier g);
          condExprs = filter (\<lambda>e. e \<noteq> []) (map buildRequestConditionExpr (rg_conditions g))
      in if \<not> is_numeric_literal multiplier then []
         else if condExprs = [] then []
         else let combined = (if length condExprs = 1 then hd condExprs
                else join '' && '' (map (\<lambda>e. if contains e '' || '' then ''('' @ e @ '')'' else e) condExprs))
         in ''('' @ combined @ '' ? '' @ multiplier @ '' : 1)'')"

definition buildRequestRuleExpr :: "RequestRuleGroup list \<Rightarrow> string" where
  "buildRequestRuleExpr groups = join '' * '' (filter (\<lambda>f. f \<noteq> []) (map buildRuleGroupFactor groups))"

end
