(* ===== verification/Pr_Tiers.thy ===== *)
theory Pr_Tiers
  imports Pr_Rules
begin

text \<open>
  Tiered prices: the registry of billing variables and the tier parser of
  \<open>features/pricing/lib/billing-expr.ts\<close>, first half, and the visual tier editor of
  \<open>features/pricing/lib/tier-expr.ts\<close>, which writes a billing expression and reads it back.
  The local cost preview runs the expression as JavaScript and is not modelled.
\<close>

section \<open>Billing variables\<close>

record BillingVar =
  bv_key :: string
  bv_field :: "string option"
  bv_tierField :: "string option"
  bv_label :: string
  bv_shortLabel :: string
  bv_side :: string
  bv_isBase :: bool
  bv_isConditionOnly :: bool
  bv_group :: "string option"

definition billing_var :: "string \<Rightarrow> string \<Rightarrow> string \<Rightarrow> string \<Rightarrow> string \<Rightarrow> string \<Rightarrow> string option \<Rightarrow> BillingVar" where
  "billing_var key field tierField label shortLabel side grp =
     \<lparr>bv_key = key, bv_field = Some field, bv_tierField = Some tierField, bv_label = label,
      bv_shortLabel = shortLabel, bv_side = side, bv_isBase = (grp = None), bv_isConditionOnly = False,
      bv_group = grp\<rparr>"

definition BILLING_VARS :: "BillingVar list" where
  "BILLING_VARS =
     [billing_var ''p'' ''inputPrice'' ''input_unit_cost'' ''Input price'' ''Input'' ''input'' None,
      billing_var ''c'' ''outputPrice'' ''output_unit_cost'' ''Completion price'' ''Output'' ''output'' None,
      \<lparr>bv_key = ''len'', bv_field = None, bv_tierField = None, bv_label = ''Input length'',
       bv_shortLabel = ''Length'', bv_side = ''condition'', bv_isBase = False, bv_isConditionOnly = True,
       bv_group = None\<rparr>,
      billing_var ''cr'' ''cacheReadPrice'' ''cache_read_unit_cost'' ''Cache read price'' ''Cache Read'' ''input'' (Some ''cache''),
      billing_var ''cc'' ''cacheCreatePrice'' ''cache_create_unit_cost'' ''Cache create price'' ''Cache Write'' ''input'' (Some ''cache''),
      billing_var ''cc1h'' ''cacheCreate1hPrice'' ''cache_create_1h_unit_cost'' ''Cache create (1h) price'' ''Cache Write (1h)'' ''input'' (Some ''cache''),
      billing_var ''img'' ''imagePrice'' ''image_unit_cost'' ''Image input price'' ''Image In'' ''input'' (Some ''media''),
      billing_var ''img_o'' ''imageOutputPrice'' ''image_output_unit_cost'' ''Image output price'' ''Image Out'' ''output'' (Some ''media''),
      billing_var ''ai'' ''audioInputPrice'' ''audio_input_unit_cost'' ''Audio input price'' ''Audio In'' ''input'' (Some ''media''),
      billing_var ''ao'' ''audioOutputPrice'' ''audio_output_unit_cost'' ''Audio output price'' ''Audio Out'' ''output'' (Some ''media'')]"

definition BILLING_PRICING_VARS :: "BillingVar list" where
  "BILLING_PRICING_VARS = filter (\<lambda>v. \<not> bv_isConditionOnly v) BILLING_VARS"

definition BILLING_CONDITION_VARS :: "string list" where
  "BILLING_CONDITION_VARS = map bv_key (filter (\<lambda>v. bv_isBase v \<or> bv_isConditionOnly v) BILLING_VARS)"

definition BILLING_VAR_KEY_TO_FIELD :: "(string \<times> string) list" where
  "BILLING_VAR_KEY_TO_FIELD = map (\<lambda>v. (bv_key v, the (bv_field v))) BILLING_PRICING_VARS"

definition BILLING_EXTRA_VARS :: "BillingVar list" where
  "BILLING_EXTRA_VARS = filter (\<lambda>v. \<not> bv_isBase v \<and> \<not> bv_isConditionOnly v) BILLING_VARS"

text \<open>The pairs of expression variable and field of a tier.\<close>

definition BILLING_CACHE_VAR_MAP :: "(string \<times> string) list" where
  "BILLING_CACHE_VAR_MAP = map (\<lambda>v. (bv_key v, the (bv_tierField v))) BILLING_EXTRA_VARS"

definition BILLING_VAR_REGEX :: regexp where
  "BILLING_VAR_REGEX = rx_seq
     [RxWordBoundary, RxGroup 1 (rx_alts (map (rx_text \<circ> bv_key) BILLING_PRICING_VARS)),
      rx_spaces, rx_text ''*'', rx_spaces, rx_numeral 2]"

section \<open>Data of the tiers\<close>

datatype ConditionValue = ValNum jsnum | ValStr string

record TierCondition =
  tc_var :: string
  tc_op :: string
  tc_value :: ConditionValue

text \<open>A tier in which every field may be absent, as the editor and the parser pass it on.\<close>

record PartialTier =
  pt_label :: "string option"
  pt_conditions :: "TierCondition list option"
  pt_input_unit_cost :: "jsnum option"
  pt_output_unit_cost :: "jsnum option"
  pt_cache_mode :: "string option"
  pt_cache_read_unit_cost :: "jsnum option"
  pt_cache_create_unit_cost :: "jsnum option"
  pt_cache_create_1h_unit_cost :: "jsnum option"
  pt_image_unit_cost :: "jsnum option"
  pt_image_output_unit_cost :: "jsnum option"
  pt_audio_input_unit_cost :: "jsnum option"
  pt_audio_output_unit_cost :: "jsnum option"

record VisualTier =
  vt_label :: string
  vt_conditions :: "TierCondition list"
  vt_input_unit_cost :: jsnum
  vt_output_unit_cost :: jsnum
  vt_cache_mode :: string
  vt_cache_read_unit_cost :: "jsnum option"
  vt_cache_create_unit_cost :: "jsnum option"
  vt_cache_create_1h_unit_cost :: "jsnum option"
  vt_image_unit_cost :: "jsnum option"
  vt_image_output_unit_cost :: "jsnum option"
  vt_audio_input_unit_cost :: "jsnum option"
  vt_audio_output_unit_cost :: "jsnum option"

record VisualConfig =
  vc_tiers :: "VisualTier list"

section \<open>Normal form of a tier\<close>

definition CACHE_MODE_TIMED :: string where
  "CACHE_MODE_TIMED = ''timed''"

definition CACHE_MODE_GENERIC :: string where
  "CACHE_MODE_GENERIC = ''generic''"

text \<open>\<open>Number(x)\<close> and \<open>Number(x) || 0\<close> of a field that may be absent.\<close>

definition opt_number :: "jsnum option \<Rightarrow> jsnum" where
  "opt_number x = (case x of None \<Rightarrow> NaN | Some n \<Rightarrow> n)"

definition or_zero :: "jsnum option \<Rightarrow> jsnum" where
  "or_zero x = (if truthy_num (opt_number x) then opt_number x else Fin 0)"

definition getTierCacheMode :: "PartialTier option \<Rightarrow> string" where
  "getTierCacheMode tier =
     (if Option.bind tier pt_cache_mode = Some CACHE_MODE_TIMED then CACHE_MODE_TIMED
      else if Option.bind tier pt_cache_mode = Some CACHE_MODE_GENERIC then CACHE_MODE_GENERIC
      else if js_less (Fin 0) (opt_number (Option.bind tier pt_cache_create_1h_unit_cost)) then CACHE_MODE_TIMED
      else CACHE_MODE_GENERIC)"

text \<open>The spread of the tier goes over the fields written before it.\<close>

definition normalizeVisualTier :: "PartialTier \<Rightarrow> VisualTier" where
  "normalizeVisualTier tier =
     \<lparr>vt_label = (case pt_label tier of Some l \<Rightarrow> l | None \<Rightarrow> []),
      vt_conditions = (case pt_conditions tier of Some cs \<Rightarrow> cs | None \<Rightarrow> []),
      vt_input_unit_cost = (case pt_input_unit_cost tier of Some n \<Rightarrow> n | None \<Rightarrow> or_zero None),
      vt_output_unit_cost = (case pt_output_unit_cost tier of Some n \<Rightarrow> n | None \<Rightarrow> or_zero None),
      vt_cache_mode = (case pt_cache_mode tier of Some m \<Rightarrow> m | None \<Rightarrow> getTierCacheMode (Some tier)),
      vt_cache_read_unit_cost = Some (or_zero (pt_cache_read_unit_cost tier)),
      vt_cache_create_unit_cost = Some (or_zero (pt_cache_create_unit_cost tier)),
      vt_cache_create_1h_unit_cost = Some (or_zero (pt_cache_create_1h_unit_cost tier)),
      vt_image_unit_cost = Some (or_zero (pt_image_unit_cost tier)),
      vt_image_output_unit_cost = Some (or_zero (pt_image_output_unit_cost tier)),
      vt_audio_input_unit_cost = Some (or_zero (pt_audio_input_unit_cost tier)),
      vt_audio_output_unit_cost = Some (or_zero (pt_audio_output_unit_cost tier))\<rparr>"

definition no_tier :: PartialTier where
  "no_tier =
     \<lparr>pt_label = None, pt_conditions = None, pt_input_unit_cost = None, pt_output_unit_cost = None,
      pt_cache_mode = None, pt_cache_read_unit_cost = None, pt_cache_create_unit_cost = None,
      pt_cache_create_1h_unit_cost = None, pt_image_unit_cost = None, pt_image_output_unit_cost = None,
      pt_audio_input_unit_cost = None, pt_audio_output_unit_cost = None\<rparr>"

definition partial_of :: "VisualTier \<Rightarrow> PartialTier" where
  "partial_of t =
     \<lparr>pt_label = Some (vt_label t), pt_conditions = Some (vt_conditions t),
      pt_input_unit_cost = Some (vt_input_unit_cost t), pt_output_unit_cost = Some (vt_output_unit_cost t),
      pt_cache_mode = Some (vt_cache_mode t), pt_cache_read_unit_cost = vt_cache_read_unit_cost t,
      pt_cache_create_unit_cost = vt_cache_create_unit_cost t,
      pt_cache_create_1h_unit_cost = vt_cache_create_1h_unit_cost t,
      pt_image_unit_cost = vt_image_unit_cost t, pt_image_output_unit_cost = vt_image_output_unit_cost t,
      pt_audio_input_unit_cost = vt_audio_input_unit_cost t,
      pt_audio_output_unit_cost = vt_audio_output_unit_cost t\<rparr>"

definition createDefaultVisualConfig :: VisualConfig where
  "createDefaultVisualConfig =
     \<lparr>vc_tiers = [normalizeVisualTier (no_tier \<lparr>pt_conditions := Some [], pt_input_unit_cost := Some (Fin 0),
        pt_output_unit_cost := Some (Fin 0), pt_label := Some ''base'', pt_cache_mode := Some CACHE_MODE_GENERIC\<rparr>)]\<rparr>"

definition normalizeVisualConfig :: "VisualConfig option \<Rightarrow> VisualConfig" where
  "normalizeVisualConfig config =
     (case config of
        None \<Rightarrow> createDefaultVisualConfig
      | Some cfg \<Rightarrow>
          if vc_tiers cfg = [] then createDefaultVisualConfig
          else cfg\<lparr>vc_tiers := map (normalizeVisualTier \<circ> partial_of) (vc_tiers cfg)\<rparr>)"

section \<open>Writing the expression\<close>

text \<open>The text of a template literal.\<close>

definition value_text :: "ConditionValue \<Rightarrow> string" where
  "value_text v = (case v of ValNum n \<Rightarrow> number_to_string n | ValStr s \<Rightarrow> s)"

definition buildConditionStr :: "TierCondition list \<Rightarrow> string" where
  "buildConditionStr conditions =
     join '' && '' (map (\<lambda>c. tc_var c @ '' '' @ tc_op c @ '' '' @ value_text (tc_value c))
       (filter (\<lambda>c. tc_var c \<noteq> [] \<and> tc_op c \<noteq> [] \<and> tc_value c \<noteq> ValStr []) conditions))"

text \<open>\<open>tier[field]\<close> for the fields of \<^const>\<open>BILLING_CACHE_VAR_MAP\<close>.\<close>

definition tier_field :: "VisualTier \<Rightarrow> string \<Rightarrow> jsnum option" where
  "tier_field t f =
     (if f = ''cache_read_unit_cost'' then vt_cache_read_unit_cost t
      else if f = ''cache_create_unit_cost'' then vt_cache_create_unit_cost t
      else if f = ''cache_create_1h_unit_cost'' then vt_cache_create_1h_unit_cost t
      else if f = ''image_unit_cost'' then vt_image_unit_cost t
      else if f = ''image_output_unit_cost'' then vt_image_output_unit_cost t
      else if f = ''audio_input_unit_cost'' then vt_audio_input_unit_cost t
      else if f = ''audio_output_unit_cost'' then vt_audio_output_unit_cost t
      else None)"

definition cost_part :: "string \<Rightarrow> jsnum \<Rightarrow> string" where
  "cost_part var v = var @ '' * '' @ number_to_string v"

definition buildTierBodyExpr :: "VisualTier \<Rightarrow> string" where
  "buildTierBodyExpr tier =
     (let ic = or_zero (Some (vt_input_unit_cost tier));
          oc = or_zero (Some (vt_output_unit_cost tier));
          parts = [cost_part ''p'' ic, cost_part ''c'' oc] @
            concat (map (\<lambda>(exprVar, field).
              let v = or_zero (tier_field tier field)
              in if v \<noteq> Fin 0 then [cost_part exprVar v] else []) BILLING_CACHE_VAR_MAP)
      in join '' + '' parts)"

definition tier_call :: "string \<Rightarrow> VisualTier \<Rightarrow> string" where
  "tier_call label tier = ''tier('' @ dquote @ label @ dquote @ '', '' @ buildTierBodyExpr tier @ '')''"

fun tier_parts :: "nat \<Rightarrow> VisualTier list \<Rightarrow> string list" where
  "tier_parts i [] = []"
| "tier_parts i (tier # tiers) =
     (let label = or_str (vt_label tier) (''tier_'' @ string_of_nat (i + 1));
          body = tier_call label tier;
          cond = buildConditionStr (vt_conditions tier)
      in (if tiers \<noteq> [] \<and> cond \<noteq> [] then cond @ '' ? '' @ body else body) # tier_parts (i + 1) tiers)"

definition generateExprFromVisualConfig :: "VisualConfig option \<Rightarrow> string" where
  "generateExprFromVisualConfig config =
     (case config of
        None \<Rightarrow> ''p * 0 + c * 0''
      | Some cfg \<Rightarrow>
         (case vc_tiers cfg of
            [] \<Rightarrow> ''p * 0 + c * 0''
          | [tier] \<Rightarrow>
              (let label = or_str (vt_label tier) ''default'';
                   body = tier_call label tier;
                   cond = buildConditionStr (vt_conditions tier)
               in if cond \<noteq> [] then cond @ '' ? '' @ body @ '' : p * 0 + c * 0'' else body)
          | tiers \<Rightarrow> join '' : '' (tier_parts 0 tiers)))"

section \<open>Reading the expression\<close>

definition version_pattern :: regexp where
  "version_pattern = rx_seq [rx_text ''v'', RxGroup 1 rx_digits, rx_text '':'', RxGroup 2 (RxStar (RxClass (\<lambda>_. True))), RxEnd]"

definition stripExprVersion :: "string \<Rightarrow> jsnum \<times> string" where
  "stripExprVersion exprStr =
     (if exprStr = [] then (Fin 1, [])
      else case rx_anchored version_pattern exprStr of
        Some m \<Rightarrow> (string_to_number (capture m 1), capture m 2)
      | None \<Rightarrow> (Fin 1, exprStr))"

text \<open>\<open>(?:p|c|len)\s*(?:<|<=|>|>=)\s*[\d.eE+]+\<close>, as text to look for and with its groups\<close>

definition condition_char :: "char \<Rightarrow> bool" where
  "condition_char c \<longleftrightarrow> is_digit c \<or> c \<in> set ''.eE+''"

definition condition_var :: regexp where
  "condition_var = rx_alts [rx_text ''p'', rx_text ''c'', rx_text ''len'']"

definition condition_op :: regexp where
  "condition_op = rx_alts [rx_text ''<'', rx_text ''<='', rx_text ''>'', rx_text ''>='']"

definition condition_items :: "regexp list" where
  "condition_items = [condition_var, rx_spaces, condition_op, rx_spaces, rx_plus (RxClass condition_char)]"

definition condGroup :: regexp where
  "condGroup = RxGroup 1 (rx_seq
     (condition_items @ [RxStar (rx_seq ([rx_spaces, rx_text ''&&'', rx_spaces] @ condition_items))]))"

definition condition_pattern :: regexp where
  "condition_pattern = rx_seq
     [RxGroup 1 condition_var, rx_spaces, RxGroup 2 condition_op, rx_spaces,
      RxGroup 3 (rx_plus (RxClass condition_char)), RxEnd]"

text \<open>\<open>split\<close> with a pattern that does not match the empty text.\<close>

function rx_split :: "regexp \<Rightarrow> char option \<Rightarrow> string \<Rightarrow> string \<Rightarrow> string list" where
  "rx_split r prev part [] = [part]"
| "rx_split r prev part (c # cs) =
     (case rx_match r (prev, c # cs, no_captures) Some of
        Some (prev', rest, _) \<Rightarrow>
          if length rest \<le> length cs then part # rx_split r prev' [] rest
          else rx_split r (Some c) (part @ [c]) cs
      | None \<Rightarrow> rx_split r (Some c) (part @ [c]) cs)"
  by pat_completeness auto
termination
  by (relation "measure (\<lambda>(r, prev, part, s). length s)") auto

definition and_pattern :: regexp where
  "and_pattern = rx_seq [rx_spaces, rx_text ''&&'', rx_spaces]"

definition parse_tier_condition :: "string \<Rightarrow> TierCondition option" where
  "parse_tier_condition cp =
     map_option (\<lambda>cm. \<lparr>tc_var = capture cm 1, tc_op = capture cm 2, tc_value = ValNum (string_to_number (capture cm 3))\<rparr>)
       (rx_anchored condition_pattern (trim cp))"

definition parse_tier_conditions :: "string \<Rightarrow> TierCondition list" where
  "parse_tier_conditions condStr =
     (if condStr = [] then [] else somes (map parse_tier_condition (rx_split and_pattern None [] condStr)))"

section \<open>The tiers that are shown\<close>

record ParsedTier =
  pa_label :: string
  pa_conditions :: "TierCondition list"
  pa_prices :: "(string \<times> jsnum) list"

text \<open>The first coefficient of a variable counts.\<close>

definition parseTierBody :: "string \<Rightarrow> (string \<times> jsnum) list" where
  "parseTierBody bodyStr =
     (let coeffs = map (\<lambda>m. (capture m 1, string_to_number (capture m 2))) (rx_all BILLING_VAR_REGEX None bodyStr)
      in map (\<lambda>(varName, field). (field, or_zero (map_of coeffs varName))) BILLING_VAR_KEY_TO_FIELD)"

definition shown_tier_pattern :: regexp where
  "shown_tier_pattern = rx_seq
     [rx_opt (rx_seq [condGroup, rx_spaces, rx_text ''?'', rx_spaces]), rx_text (''tier('' @ dquote),
      RxGroup 2 (RxStar (RxClass not_quote)), rx_text (dquote @ '',''), rx_spaces,
      RxGroup 3 (rx_plus (RxClass (\<lambda>c. c \<noteq> CHR '')''))), rx_text '')'']"

definition parseTiersFromExpr :: "string \<Rightarrow> ParsedTier list" where
  "parseTiersFromExpr exprStr =
     (if exprStr = [] then []
      else map (\<lambda>m. \<lparr>pa_label = capture m 2,
          pa_conditions = parse_tier_conditions (case m 1 of Some s \<Rightarrow> s | None \<Rightarrow> []),
          pa_prices = parseTierBody (capture m 3)\<rparr>)
        (rx_all shown_tier_pattern None (snd (stripExprVersion exprStr))))"

section \<open>The tiers that are edited\<close>

definition opt_cost_pattern :: "nat \<Rightarrow> string \<Rightarrow> regexp" where
  "opt_cost_pattern n v = rx_opt (rx_seq
     [rx_spaces, rx_text ''+'', rx_spaces, rx_text v, rx_spaces, rx_text ''*'', rx_spaces, rx_numeral n])"

text \<open>The pattern of a body, its groups counted from \<open>n\<close>.\<close>

fun opt_costs :: "nat \<Rightarrow> string list \<Rightarrow> regexp list" where
  "opt_costs n [] = []"
| "opt_costs n (v # vs) = opt_cost_pattern n v # opt_costs (n + 1) vs"

definition bodyPat :: "nat \<Rightarrow> regexp list" where
  "bodyPat n =
     [rx_text ''p'', rx_spaces, rx_text ''*'', rx_spaces, rx_numeral n, rx_spaces, rx_text ''+'', rx_spaces,
      rx_text ''c'', rx_spaces, rx_text ''*'', rx_spaces, rx_numeral (n + 1)]
     @ opt_costs (n + 2) (map fst BILLING_CACHE_VAR_MAP)"

definition tier_call_pattern :: "nat \<Rightarrow> regexp list" where
  "tier_call_pattern n =
     [rx_text (''tier('' @ dquote), RxGroup n (RxStar (RxClass not_quote)), rx_text (dquote @ '',''), rx_spaces]
     @ bodyPat (n + 1) @ [rx_text '')'']"

definition singleRe :: regexp where
  "singleRe = rx_seq (tier_call_pattern 1 @ [RxEnd])"

definition tierRe :: regexp where
  "tierRe = rx_seq (rx_opt (rx_seq [condGroup, rx_spaces, rx_text ''?'', rx_spaces]) # tier_call_pattern 2)"

text \<open>\<open>tier[field] = n\<close> for the fields of \<^const>\<open>BILLING_CACHE_VAR_MAP\<close>.\<close>

definition put_tier_field :: "string \<Rightarrow> jsnum \<Rightarrow> PartialTier \<Rightarrow> PartialTier" where
  "put_tier_field f n t =
     (if f = ''cache_read_unit_cost'' then t\<lparr>pt_cache_read_unit_cost := Some n\<rparr>
      else if f = ''cache_create_unit_cost'' then t\<lparr>pt_cache_create_unit_cost := Some n\<rparr>
      else if f = ''cache_create_1h_unit_cost'' then t\<lparr>pt_cache_create_1h_unit_cost := Some n\<rparr>
      else if f = ''image_unit_cost'' then t\<lparr>pt_image_unit_cost := Some n\<rparr>
      else if f = ''image_output_unit_cost'' then t\<lparr>pt_image_output_unit_cost := Some n\<rparr>
      else if f = ''audio_input_unit_cost'' then t\<lparr>pt_audio_input_unit_cost := Some n\<rparr>
      else if f = ''audio_output_unit_cost'' then t\<lparr>pt_audio_output_unit_cost := Some n\<rparr>
      else t)"

fun put_costs :: "nat \<Rightarrow> (string \<times> string) list \<Rightarrow> (nat \<Rightarrow> string option) \<Rightarrow> PartialTier \<Rightarrow> PartialTier" where
  "put_costs n [] m t = t"
| "put_costs n ((exprVar, field) # cvs) m t =
     put_costs (n + 1) cvs m (case m n of None \<Rightarrow> t | Some s \<Rightarrow> put_tier_field field (string_to_number s) t)"

text \<open>The tier of a match whose label is group \<open>n\<close>.\<close>

definition matched_tier :: "nat \<Rightarrow> TierCondition list \<Rightarrow> (nat \<Rightarrow> string option) \<Rightarrow> VisualTier" where
  "matched_tier n conditions m =
     normalizeVisualTier (put_costs (n + 3) BILLING_CACHE_VAR_MAP m
       (no_tier\<lparr>pt_conditions := Some conditions, pt_input_unit_cost := Some (string_to_number (capture m (n + 1))),
          pt_output_unit_cost := Some (string_to_number (capture m (n + 2))), pt_label := Some (capture m n)\<rparr>))"

definition no_blanks :: "string \<Rightarrow> string" where
  "no_blanks s = filter (\<lambda>c. \<not> is_ws c) s"

definition tryParseVisualConfig :: "string option \<Rightarrow> VisualConfig option" where
  "tryParseVisualConfig exprStr =
     (if \<not> truthy_str exprStr then None
      else let body = (case rx_anchored version_pattern (the exprStr) of
                 Some m \<Rightarrow> capture m 2 | None \<Rightarrow> the exprStr)
      in case rx_anchored singleRe body of
           Some simple \<Rightarrow> Some (normalizeVisualConfig (Some \<lparr>vc_tiers = [matched_tier 1 [] simple]\<rparr>))
         | None \<Rightarrow>
             (let tiers = map (\<lambda>m. matched_tier 2 (parse_tier_conditions (case m 1 of Some s \<Rightarrow> s | None \<Rightarrow> [])) m)
                    (rx_all tierRe None body)
              in if tiers = [] then None
                 else let cfg = normalizeVisualConfig (Some \<lparr>vc_tiers = tiers\<rparr>);
                          regenerated = generateExprFromVisualConfig (Some cfg)
                      in if no_blanks regenerated \<noteq> no_blanks body then None else Some cfg))"

definition ESTIMATOR_VARS :: "(string \<times> string) list" where
  "ESTIMATOR_VARS =
     [(''cr'', ''cacheReadTokens''), (''cc'', ''cacheCreateTokens''), (''cc1h'', ''cacheCreate1hTokens''),
      (''img'', ''imageTokens''), (''img_o'', ''imageOutputTokens''), (''ai'', ''audioInputTokens''),
      (''ao'', ''audioOutputTokens'')]"

definition exprUsesExtraVars :: "string \<Rightarrow> bool" where
  "exprUsesExtraVars exprStr \<longleftrightarrow>
     exprStr \<noteq> [] \<and>
     rx_search (rx_seq [RxWordBoundary, RxGroup 1 (rx_alts (map (rx_text \<circ> fst) ESTIMATOR_VARS)), RxWordBoundary])
       None exprStr \<noteq> None"

end
