(* ===== verification/Pr_Rules_Ok.thy ===== *)
theory Pr_Rules_Ok
  imports Pr_Rules
begin

text \<open>
  The rules that an administrator edits are read back from the expression that is built of them,
  and the expression that combines a price with rules is split into the two again.
\<close>

section \<open>Normal rules\<close>

text \<open>
  Names are printable and hold no quote, backslash, parenthesis, ampersand or bar: the parser
  does not look inside strings when it counts parentheses and splits at connectives. The
  comparisons of a request parameter and its \<open>contains\<close> are left out, since the parser splits
  their text at the connective it contains.
\<close>

definition plain_char :: "char \<Rightarrow> bool" where
  "plain_char c \<longleftrightarrow> 32 \<le> code c \<and> c \<noteq> CHR 0x22 \<and> c \<noteq> CHR 0x5C \<and> c \<notin> set ''()&|''"

definition plain_name :: "string \<Rightarrow> bool" where
  "plain_name s \<longleftrightarrow> s \<noteq> [] \<and> list_all plain_char s"

definition plain_value :: "string \<Rightarrow> bool" where
  "plain_value s \<longleftrightarrow> trim s = s \<and> list_all (\<lambda>c. c \<notin> set ''()&|'') s"

fun normal_condition :: "RequestCondition \<Rightarrow> bool" where
  "normal_condition (TimeCondition f z m v a b) \<longleftrightarrow>
     f \<in> set TIME_FUNCS \<and> plain_name z
     \<and> (if m = ''range'' then v = [] \<and> is_numeric_literal a \<and> is_numeric_literal b
        else m \<in> {''eq'', ''gte'', ''lt''} \<and> is_numeric_literal v \<and> a = [] \<and> b = [])"
| "normal_condition (ParamHeaderCondition src p m v) \<longleftrightarrow>
     plain_name p \<and> trim p = p
     \<and> (m = ''exists'' \<and> v = [] \<or> m = ''eq'' \<and> plain_value v
        \<or> m = ''contains'' \<and> src = SrcHeader \<and> plain_value v)"

definition normal_group :: "RequestRuleGroup \<Rightarrow> bool" where
  "normal_group g \<longleftrightarrow> rg_conditions g \<noteq> [] \<and> list_all normal_condition (rg_conditions g)
     \<and> is_numeric_literal (rg_multiplier g)"

section \<open>Characters of the parts\<close>

lemma numeric_literal_chars:
  assumes "is_numeric_literal s"
  shows "list_all numeral_char s" "s \<noteq> []"
proof -
  obtain m where "rx_anchored NUMERIC_LITERAL_REGEX s = Some m"
    using assms by (auto simp: is_numeric_literal_def)
  then show "list_all numeral_char s"
    unfolding NUMERIC_LITERAL_REGEX_def
    by (rule whole_match_over) (simp add: rx_unfold numeral_char_def)
  have "\<not> is_numeric_literal []" by code_simp
  then show "s \<noteq> []" using assms by auto
qed

lemma numeral_char_plain:
  "numeral_char c \<Longrightarrow> \<not> is_ws c \<and> c \<notin> set ''()&|? '' \<and> c \<noteq> CHR 0x22 \<and> \<not> is_line_end c"
  by (auto simp: numeral_char_def is_ws_def is_digit_def is_line_end_def)

lemma trim_numeral: "is_numeric_literal s \<Longrightarrow> trim s = s"
  using numeric_literal_chars(1) by (intro trim_no_ws) (auto simp: list_all_iff dest: numeral_char_plain)

lemma quote_plain: "list_all plain_char s \<Longrightarrow> quote s = CHR 0x22 # s @ [CHR 0x22]"
proof -
  have "escape c = [c]" if "plain_char c" for c
    using that by (auto simp: plain_char_def escape_def char_of_quote dest: code_eqD)
  then show "list_all plain_char s \<Longrightarrow> ?thesis"
    by (induction s) (auto simp: quote_def)
qed

section \<open>Matching the parts\<close>

lemma match_name:
  assumes "plain_name z" "\<forall>prev' d xs caps'. d \<noteq> CHR 0x22 \<longrightarrow> k (prev', d # xs, caps') = None"
  shows "rx_match (rx_name n) (prev, z @ CHR 0x22 # rest, caps) k = k (Some (last z), CHR 0x22 # rest, caps(n \<mapsto> z))"
  unfolding rx_name_def
  by (rule group_plus_whole)
     (use assms in \<open>auto simp: plain_name_def plain_char_def not_quote_def list_all_iff\<close>)

lemma match_numeral:
  assumes "is_numeric_literal v" "rest = [] \<or> \<not> numeral_char (hd rest)"
    and "\<forall>prev' d xs caps'. numeral_char d \<longrightarrow> k (prev', d # xs, caps') = None"
  shows "rx_match (rx_numeral n) (prev, v @ rest, caps) k = k (Some (last v), rest, caps(n \<mapsto> v))"
  unfolding rx_numeral_def by (rule group_plus_whole) (use assms numeric_literal_chars in auto)

lemma match_numeral_before:
  assumes "is_numeric_literal v" "\<not> numeral_char c"
    and "\<forall>prev' d xs caps'. d \<noteq> c \<longrightarrow> k (prev', d # xs, caps') = None"
  shows "rx_match (rx_numeral n) (prev, v @ c # rest, caps) k = k (Some (last v), c # rest, caps(n \<mapsto> v))"
  by (rule match_numeral) (use assms in \<open>auto, metis\<close>)

lemma match_numeral_end:
  assumes "is_numeric_literal v" "\<forall>prev' d xs caps'. k (prev', d # xs, caps') = None"
  shows "rx_match (rx_numeral n) (prev, v, caps) k = k (Some (last v), [], caps(n \<mapsto> v))"
  using match_numeral [of v "[]" k n prev caps] assms by simp

lemma match_numeral_cut:
  assumes "is_numeric_literal v" "\<forall>prev' d xs caps'. d \<noteq> CHR '' '' \<longrightarrow> k (prev', d # xs, caps') = None"
  shows "rx_match (rx_numeral n) (prev, v, caps) k = k (Some (last v), [], caps(n \<mapsto> v))"
  using match_numeral [of v "[]" k n prev caps] assms numeral_char_plain by fastforce

lemma match_time_func:
  assumes "f \<in> set TIME_FUNCS"
  shows "rx_match rx_time_func (prev, f @ CHR ''('' # rest, caps) k = k (Some (last f), CHR ''('' # rest, caps(1 \<mapsto> f))"
  using assms by (auto simp: TIME_FUNCS_def rx_time_func_def rx after_text_def)

lemma no_time_func:
  "\<forall>f \<in> set TIME_FUNCS. \<not> prefix f s \<Longrightarrow> rx_match rx_time_func (prev, s, caps) k = None"
  by (simp add: TIME_FUNCS_def rx_time_func_def rx)

lemma match_ref [rx]:
  "rx_match (RxRef n) (prev, s, caps) k =
     (case caps n of
        None \<Rightarrow> k (prev, s, caps)
      | Some t \<Rightarrow> if prefix t s then k (after_text prev t, drop (length t) s, caps) else None)"
  by (simp add: rx_match.simps)

lemma numeral_char_simps [simp]:
  "\<not> numeral_char CHR '' ''" "\<not> numeral_char CHR '')''" "\<not> numeral_char CHR ''|''"
  by (simp_all add: numeral_char_def is_digit_def)

section \<open>Time conditions\<close>

definition time_call :: "string \<Rightarrow> string \<Rightarrow> string" where
  "time_call f z = f @ CHR ''('' # CHR 0x22 # z @ [CHR 0x22, CHR '')'']"

definition range_text :: "string \<Rightarrow> string \<Rightarrow> string \<Rightarrow> string \<Rightarrow> string" where
  "range_text f z a b = time_call f z @ '' >= '' @ a @ '' || '' @ time_call f z @ '' < '' @ b"

lemma match_range:
  assumes "f \<in> set TIME_FUNCS" "plain_name z" "is_numeric_literal a" "is_numeric_literal b"
    and "rest = [] \<or> \<not> numeral_char (hd rest)"
    and "\<forall>prev' d xs caps'. numeral_char d \<longrightarrow> k (prev', d # xs, caps') = None"
  shows "rx_match (rx_seq time_range_pattern) (prev, range_text f z a b @ rest, caps) k =
    k (Some (last b), rest, caps(1 \<mapsto> f, 2 \<mapsto> z, 3 \<mapsto> a, 4 \<mapsto> b))"
  using assms
  by (simp add: time_range_pattern_def range_text_def time_call_def dquote_def rx match_time_func match_name
      match_numeral match_numeral_before after_text_def)

lemmas part_rules = rx match_time_func match_name match_numeral_before match_numeral_end match_numeral_cut after_text_def

lemma time_call_not_paren: "f \<in> set TIME_FUNCS \<Longrightarrow> \<not> prefix ''('' (f @ rest)"
  by (auto simp: TIME_FUNCS_def)

lemma no_range_fails:
  assumes "f \<in> set TIME_FUNCS" "plain_name z" "is_numeric_literal v" "m \<in> {''=='', ''>='', ''<''}"
  shows "rx_match (rx_seq time_range_pattern) (prev, time_call f z @ '' '' @ m @ '' '' @ v, caps) k = None"
  using assms
  by (auto simp: time_range_pattern_def time_call_def dquote_def part_rules)

lemma parse_time_range:
  assumes "f \<in> set TIME_FUNCS" "plain_name z" "is_numeric_literal a" "is_numeric_literal b"
  shows "tryParseTimeCondition (range_text f z a b) = Some (TimeCondition f z ''range'' [] a b)"
    "tryParseTimeCondition (''('' @ range_text f z a b @ '')'') = Some (TimeCondition f z ''range'' [] a b)"
proof -
  let ?caps = "no_captures(1 \<mapsto> f, 2 \<mapsto> z, 3 \<mapsto> a, 4 \<mapsto> b)"
  have "rx_anchored (rx_seq (time_range_pattern @ [RxEnd])) (range_text f z a b) = Some ?caps"
    unfolding rx_anchored_def match_append
    by (subst match_range [OF assms, of "[]", simplified]) (simp_all add: rx)
  then show "tryParseTimeCondition (range_text f z a b) = Some (TimeCondition f z ''range'' [] a b)"
    by (simp add: tryParseTimeCondition_def time_range_def capture_def)
  have "rx_anchored (rx_seq (time_range_pattern @ [RxEnd])) (''('' @ range_text f z a b @ '')'') = None"
    by (simp add: rx_anchored_def time_range_pattern_def rx no_time_func TIME_FUNCS_def)
  moreover have "rx_anchored (rx_seq (rx_text ''('' # time_range_pattern @ [rx_text '')'', RxEnd]))
      (''('' @ range_text f z a b @ '')'') = Some ?caps"
    by (simp add: rx_anchored_def rx, subst match_range [OF assms, of "'')''"]) (auto simp: rx)
  ultimately show "tryParseTimeCondition (''('' @ range_text f z a b @ '')'') = Some (TimeCondition f z ''range'' [] a b)"
    by (simp add: tryParseTimeCondition_def time_range_def capture_def)
qed

lemma parse_time_compare:
  assumes "f \<in> set TIME_FUNCS" "plain_name z" "is_numeric_literal v" "m \<in> {''eq'', ''gte'', ''lt''}"
    and op: "op = (if m = ''gte'' then ''>='' else if m = ''lt'' then ''<'' else ''=='')"
  shows "tryParseTimeCondition (time_call f z @ '' '' @ op @ '' '' @ v) = Some (TimeCondition f z m v [] [])"
proof -
  let ?s = "time_call f z @ '' '' @ op @ '' '' @ v"
  have o: "op \<in> {''=='', ''>='', ''<''}" using op by auto
  have "rx_anchored (rx_seq (time_range_pattern @ [RxEnd])) ?s = None"
    using no_range_fails [OF assms(1-3) o] by (simp add: rx_anchored_def rx)
  moreover have "rx_anchored (rx_seq (rx_text ''('' # time_range_pattern @ [rx_text '')'', RxEnd])) ?s = None"
    using time_call_not_paren [OF assms(1)] by (simp add: rx_anchored_def rx time_call_def)
  moreover have "rx_anchored time_pattern ?s = Some (no_captures(1 \<mapsto> f, 2 \<mapsto> z, 3 \<mapsto> op, 4 \<mapsto> v))"
    using o assms(1-3) by (auto simp: rx_anchored_def time_pattern_def time_call_def dquote_def part_rules)
  ultimately show ?thesis
    using assms(4) op by (auto simp: tryParseTimeCondition_def capture_def)
qed

section \<open>String literals\<close>

definition string_body :: regexp where
  "string_body = RxAlt (RxClass (\<lambda>c. c \<noteq> CHR 0x22 \<and> c \<noteq> CHR 0x5C))
     (rx_seq [rx_char CHR 0x5C, RxClass not_line_end])"

lemma string_step:
  "c \<noteq> CHR 0x22 \<Longrightarrow> c \<noteq> CHR 0x5C \<Longrightarrow> rx_match (RxStar string_body) (prev, c # cs, caps) k =
     coalesce (rx_match (RxStar string_body) (Some c, cs, caps) k) (k (prev, c # cs, caps))"
  "not_line_end e \<Longrightarrow> rx_match (RxStar string_body) (prev, CHR 0x5C # e # cs, caps) k =
     coalesce (rx_match (RxStar string_body) (Some e, cs, caps) k) (k (prev, CHR 0x5C # e # cs, caps))"
  "rx_match (RxStar string_body) (prev, CHR 0x22 # cs, caps) k = k (prev, CHR 0x22 # cs, caps)"
  by (subst rx_match.simps(5), simp add: string_body_def rx_match.simps(4) rx coalesce_def split: option.split)+

lemma string_plain:
  assumes "list_all (\<lambda>c. c \<noteq> CHR 0x22 \<and> c \<noteq> CHR 0x5C) cs"
    and "\<And>p. rx_match (RxStar string_body) (p, rest, caps) k = Some x"
  shows "rx_match (RxStar string_body) (prev, cs @ rest, caps) k = Some x"
  using assms(1) by (induction cs arbitrary: prev) (simp_all add: assms(2) string_step)

lemma hex_char_plain: "n < 16 \<Longrightarrow> hex_char n \<noteq> CHR 0x22 \<and> hex_char n \<noteq> CHR 0x5C \<and> \<not> is_line_end (hex_char n)
    \<and> hex_char n \<notin> set ''()&|''"
  by (cases "n < 10") (auto simp: hex_char_def is_line_end_def char_of_eq_iff take_bit_eq_mod)

lemma escape_cases:
  obtains (plain) "escape c = [c]" "c \<noteq> CHR 0x22" "c \<noteq> CHR 0x5C" "\<not> is_line_end c"
  | (short) e where "escape c = [CHR 0x5C, e]" "\<not> is_line_end e" "e \<notin> set ''()&|''"
  | (long) i j where "escape c = [CHR 0x5C, CHR ''u'', CHR ''0'', CHR ''0'', hex_char i, hex_char j]"
      "i < 16" "j < 16"
proof -
  consider "code c \<in> {34, 92, 8, 9, 10, 12, 13}"
    | "code c \<notin> {34, 92, 8, 9, 10, 12, 13}" "code c < 32"
    | "code c \<notin> {34, 92, 8, 9, 10, 12, 13}" "\<not> code c < 32" by blast
  then show thesis
  proof cases
    case 1
    then show ?thesis using short by (auto simp: escape_def is_line_end_def)
  next
    case 2
    then have "code c div 16 < 16" "code c mod 16 < 16" by auto
    with 2 long [of "code c div 16" "code c mod 16"] show ?thesis by (simp add: escape_def)
  next
    case 3
    then have "c \<noteq> CHR 0x22" "c \<noteq> CHR 0x5C" by auto
    with 3 show ?thesis using plain by (auto simp: escape_def is_line_end_def)
  qed
qed

lemma string_escape:
  assumes "\<And>p. rx_match (RxStar string_body) (p, rest, caps) k = Some x"
  shows "rx_match (RxStar string_body) (prev, escape c @ rest, caps) k = Some x"
proof (cases c rule: escape_cases)
  case (long i j)
  then show ?thesis
    using string_plain [of "[CHR ''0'', CHR ''0'', hex_char i, hex_char j]" rest caps k x, OF _ assms]
      hex_char_plain [of i] hex_char_plain [of j]
    by (simp add: string_step not_line_end_def is_line_end_def)
qed (use assms in \<open>simp_all add: string_step not_line_end_def\<close>)

lemma match_string_chars:
  assumes "\<And>p. k (p, CHR 0x22 # rest, caps) = Some x"
  shows "rx_match (RxStar string_body) (prev, concat (map escape v) @ CHR 0x22 # rest, caps) k = Some x"
  by (induction v arbitrary: prev) (simp_all add: string_escape string_step(3) assms)

lemma match_string:
  assumes "\<And>p. k (p, rest, caps(n \<mapsto> quote v)) = Some x"
  shows "rx_match (rx_string n) (prev, quote v @ rest, caps) k = Some x"
  by (simp add: rx_string_def string_body_def [symmetric] match_group rx quote_def)
     (rule match_string_chars, use assms in \<open>simp add: rx quote_def\<close>)

section \<open>Header and parameter conditions\<close>

definition source_call :: "RuleSource \<Rightarrow> string \<Rightarrow> string" where
  "source_call src p = (if src = SrcHeader then ''header'' else ''param'') @ CHR ''('' # CHR 0x22 # p @ [CHR 0x22, CHR '')'']"

lemma not_a_time:
  assumes "\<forall>f \<in> set TIME_FUNCS. \<not> prefix f s" "\<not> prefix ''('' s"
  shows "tryParseTimeCondition s = None"
  using assms(2)
  by (simp add: no_time_func [OF assms(1)] tryParseTimeCondition_def time_range_pattern_def time_pattern_def rx_anchored_def rx)

lemma source_not_time: "tryParseTimeCondition (source_call src p @ rest) = None"
  by (rule not_a_time) (auto simp: source_call_def TIME_FUNCS_def)

lemmas source_rules = rx_anchored_def source_call_def dquote_def part_rules header_exists_pattern_def
  param_exists_pattern_def header_contains_pattern_def param_contains_pattern_def
  param_compare_pattern_def equals_pattern_def

lemma parse_exists:
  assumes "plain_name p"
  shows "tryParseRequestCondition (source_call src p @ (if src = SrcHeader then '' != '' @ dquote @ dquote else '' != nil''))
    = Inr (Some (ParamHeaderCondition src p ''exists'' []))"
proof (cases src)
  case SrcHeader
  have "rx_anchored header_exists_pattern (source_call SrcHeader p @ '' != '' @ dquote @ dquote)
      = Some (no_captures(1 \<mapsto> p))" using assms by (simp add: source_rules)
  with SrcHeader show ?thesis by (simp add: tryParseRequestCondition_def source_not_time capture_def)
next
  case SrcParam
  have "rx_anchored header_exists_pattern (source_call SrcParam p @ '' != nil'') = None"
    by (simp add: source_rules)
  moreover have "rx_anchored param_exists_pattern (source_call SrcParam p @ '' != nil'') = Some (no_captures(1 \<mapsto> p))"
    using assms by (simp add: source_rules)
  ultimately show ?thesis using SrcParam by (simp add: tryParseRequestCondition_def source_not_time capture_def)
qed

lemma string_literal_quote: "string_literal (quote v) = Inr v"
  using json_roundtrip [of "JStr v"] by (simp add: string_literal_def)

lemma parse_contains:
  assumes "plain_name p"
  shows "tryParseRequestCondition (''has('' @ source_call SrcHeader p @ '', '' @ quote v @ '')'')
    = Inr (Some (ParamHeaderCondition SrcHeader p ''contains'' v))"
proof -
  let ?s = "''has('' @ source_call SrcHeader p @ '', '' @ quote v @ '')''"
  have "tryParseTimeCondition ?s = None" by (rule not_a_time) (auto simp: TIME_FUNCS_def)
  moreover have "rx_anchored header_exists_pattern ?s = None" "rx_anchored param_exists_pattern ?s = None"
    by (simp_all add: source_rules)
  moreover have "rx_anchored header_contains_pattern ?s = Some (no_captures(1 \<mapsto> p, 2 \<mapsto> quote v))"
    using assms by (simp add: source_rules match_string)
  ultimately show ?thesis
    by (simp add: tryParseRequestCondition_def map_literal_def string_literal_quote capture_def)
qed

definition literal_text :: "string \<Rightarrow> string" where
  "literal_text v = (if v = ''true'' \<or> v = ''false'' \<or> is_numeric_literal v then v else quote v)"

lemma quote_not_numeral: "\<not> is_numeric_literal (quote v)"
proof
  assume "is_numeric_literal (quote v)"
  then have "list_all numeral_char (quote v)" by (rule numeric_literal_chars)
  then show False by (simp add: quote_def numeral_char_def is_digit_def)
qed

lemma quote_ends: "hd (quote v) = CHR 0x22" "last (quote v) = CHR 0x22" "quote v \<noteq> []"
  by (simp_all add: quote_def)

lemma trim_quote: "trim (quote v) = quote v"
  by (rule trim_fixed) (simp add: quote_ends is_ws_def)

lemma trim_literal: "trim (literal_text v) = literal_text v"
proof -
  have "trim ''true'' = ''true''" "trim ''false'' = ''false''" by code_simp+
  then show ?thesis by (auto simp: literal_text_def trim_quote trim_numeral)
qed

lemma parse_literal: "parseExprLiteral (literal_text v) = JStr v"
proof -
  have "json_parse (quote v) = Inr (JStr v)" using json_roundtrip [of "JStr v"] by simp
  moreover have "quote v \<noteq> ''true''" "quote v \<noteq> ''false''" by (simp_all add: quote_def)
  ultimately show ?thesis
    by (simp add: parseExprLiteral_def trim_literal) (simp add: literal_text_def quote_not_numeral)
qed

lemma escape_no_line_end: "c \<in> set (escape d) \<Longrightarrow> \<not> is_line_end c"
  by (cases d rule: escape_cases) (auto simp: is_line_end_def dest: hex_char_plain [unfolded is_line_end_def])

lemma literal_no_line_end: "list_all not_line_end (literal_text v)" "literal_text v \<noteq> []"
proof -
  have q: "list_all not_line_end (quote v)"
    by (auto simp: quote_def list_all_iff not_line_end_def is_line_end_def [of "CHR 0x22"] dest: escape_no_line_end)
  have n: "list_all not_line_end v" if "is_numeric_literal v"
    using numeric_literal_chars(1) [OF that] by (auto simp: list_all_iff not_line_end_def dest: numeral_char_plain)
  have "list_all not_line_end ''true''" "list_all not_line_end ''false''" by code_simp+
  then show "list_all not_line_end (literal_text v)" using q n by (auto simp: literal_text_def)
  show "literal_text v \<noteq> []"
    using numeric_literal_chars(2) [of v] quote_ends(3) by (auto simp: literal_text_def)
qed

lemma parse_equal:
  assumes "plain_name p"
  shows "tryParseRequestCondition (source_call src p @ '' == '' @ literal_text v)
    = Inr (Some (ParamHeaderCondition src p ''eq'' v))"
proof -
  let ?s = "source_call src p @ '' == '' @ literal_text v"
  have run: "rx_match (rx_plus (RxClass not_line_end)) (prev, literal_text v, caps) k
      = k (Some (last (literal_text v)), [], caps)"
    if "\<forall>prev' d xs. k (prev', d # xs, caps) = None"
    for prev caps and k :: "rx_state \<Rightarrow> (nat \<Rightarrow> string option) option"
    using plus_class_whole [of not_line_end "literal_text v" "[]" k caps prev] that literal_no_line_end by simp
  have "rx_anchored equals_pattern ?s =
      Some (no_captures(1 \<mapsto> (if src = SrcHeader then ''header'' else ''param''), 2 \<mapsto> p, 3 \<mapsto> literal_text v))"
    using assms by (cases src) (simp_all add: source_rules run)
  then have "parse_equals ?s = Some (ParamHeaderCondition src p ''eq'' v)"
    by (cases src) (simp_all add: parse_equals_def capture_def parse_literal)
  moreover have "rx_anchored header_exists_pattern ?s = None" "rx_anchored param_exists_pattern ?s = None"
    "rx_anchored header_contains_pattern ?s = None" "rx_anchored param_contains_pattern ?s = None"
    "rx_anchored param_compare_pattern ?s = None"
    using assms by (cases src; simp add: source_rules)+
  ultimately show ?thesis by (simp add: tryParseRequestCondition_def source_not_time)
qed

section \<open>The text of a condition\<close>

fun condition_text :: "RequestCondition \<Rightarrow> string" where
  "condition_text (TimeCondition f z m v a b) =
     (if m = ''range'' then range_text f z a b
      else time_call f z @ '' '' @ (if m = ''gte'' then ''>='' else if m = ''lt'' then ''<'' else ''=='') @ '' '' @ v)"
| "condition_text (ParamHeaderCondition src p m v) =
     (if m = ''exists'' then source_call src p @ (if src = SrcHeader then '' != '' @ dquote @ dquote else '' != nil'')
      else if m = ''contains'' then ''has('' @ source_call SrcHeader p @ '', '' @ quote v @ '')''
      else source_call src p @ '' == '' @ literal_text v)"

lemma quote_plain_text: "plain_name z \<Longrightarrow> quote z = CHR 0x22 # z @ [CHR 0x22]"
  by (simp add: plain_name_def quote_plain)

lemma modes:
  "chosen_mode ''time'' (Some m) d = (if m \<in> {''eq'', ''gte'', ''lt'', ''range''} then m else d)"
  "chosen_mode ''header'' (Some m) d = (if m \<in> {''eq'', ''contains'', ''exists''} then m else d)"
  "chosen_mode ''param'' (Some m) d = (if m \<in> {''eq'', ''contains'', ''exists'', ''gt'', ''gte'', ''lt'', ''lte''} then m else d)"
  by (simp_all add: chosen_mode_def getRequestRuleMatchOptions_def)

lemma build_condition:
  assumes "normal_condition c"
  shows "buildRequestConditionExpr c = condition_text c"
proof (cases c)
  case (TimeCondition f z m v a b)
  with assms show ?thesis
    by (auto simp: buildRequestConditionExpr_def buildTimeConditionExpr_def normalizeCondition_def modes
        isTimeFunc_def or_opt_def or_str_def plain_name_def build_time_def time_call_def range_text_def trim_numeral
        quote_plain split: if_splits)
next
  case (ParamHeaderCondition src p m v)
  with assms have p: "quote p = CHR 0x22 # p @ [CHR 0x22]" "p \<noteq> []" "trim p = p"
    by (auto simp: quote_plain_text plain_name_def)
  have "trim v = v" using assms ParamHeaderCondition by (auto simp: plain_value_def trim_def trim_start_def trim_end_def)
  with p assms ParamHeaderCondition show ?thesis
    by (cases src) (auto simp: buildRequestConditionExpr_def normalizeCondition_def modes or_opt_def or_str_def
        build_param_header_def source_call_def buildExprLiteral_def literal_text_def Let_def)
qed

lemma parse_condition:
  assumes "normal_condition c"
  shows "tryParseRequestCondition (condition_text c) = Inr (Some c)"
proof (cases c)
  case (TimeCondition f z m v a b)
  have "tryParseTimeCondition (condition_text c) = Some c"
  proof (cases "m = ''range''")
    case True
    then show ?thesis using assms TimeCondition by (simp add: parse_time_range)
  next
    case False
    then show ?thesis
      using assms TimeCondition parse_time_compare [of f z v m, OF _ _ _ _ refl] by simp
  qed
  then show ?thesis by (simp add: tryParseRequestCondition_def)
next
  case (ParamHeaderCondition src p m v)
  then consider "m = ''exists''" "v = []" | "m = ''eq''" | "m = ''contains''" "src = SrcHeader"
    using assms by auto
  then show ?thesis
  proof cases
    case 1
    then show ?thesis using parse_exists [of p src] assms ParamHeaderCondition by simp
  next
    case 2
    then show ?thesis using parse_equal [of p src v] assms ParamHeaderCondition by simp
  next
    case 3
    then show ?thesis using parse_contains [of p v] assms ParamHeaderCondition by simp
  qed
qed

end
