(* ===== verification/Pr_Rules_Split.thy ===== *)
theory Pr_Rules_Split
  imports Pr_Rules_Ok
begin

text \<open>
  How the connectives of a rule expression are found again: the splits of
  \<^verbatim>\<open>src/web/default/src/features/pricing/lib/billing-expr.ts\<close> at \<^verbatim>\<open>&&\<close> and at
  \<^verbatim>\<open>*\<close>, the factor of a group, the round trip of the rule editor, the separation of the
  rules from the billing expression, and the rules that are not read back.
\<close>

section \<open>Parentheses and separators\<close>

text \<open>The depth along a text that never closes more than it opened.\<close>

fun walk :: "int \<Rightarrow> string \<Rightarrow> int option" where
  "walk d [] = Some d"
| "walk d (c # cs) = (if paren_depth d c < 0 then None else walk (paren_depth d c) cs)"

definition balanced :: "string \<Rightarrow> bool" where
  "balanced s \<longleftrightarrow> walk 0 s = Some 0"

lemma walk_append: "walk d (s @ t) = Option.bind (walk d s) (\<lambda>e. walk e t)"
  by (induction s arbitrary: d) simp_all

lemma walk_shift: "walk d s = Some e \<Longrightarrow> 0 \<le> k \<Longrightarrow> walk (d + k) s = Some (e + k)"
proof (induction s arbitrary: d)
  case (Cons c s)
  have "paren_depth (d + k) c = paren_depth d c + k" by (simp add: paren_depth_def)
  with Cons show ?case by (auto split: if_splits)
qed simp

lemma walk_balanced: "balanced s \<Longrightarrow> 0 \<le> d \<Longrightarrow> walk d s = Some d"
  using walk_shift [of 0 s 0 d] by (simp add: balanced_def)

lemma balanced_Nil [simp]: "balanced []"
  by (simp add: balanced_def)

lemma balanced_append: "balanced s \<Longrightarrow> balanced t \<Longrightarrow> balanced (s @ t)"
  by (simp add: balanced_def walk_append)

lemma balanced_Cons [simp]: "c \<noteq> CHR ''('' \<Longrightarrow> c \<noteq> CHR '')'' \<Longrightarrow> balanced (c # s) \<longleftrightarrow> balanced s"
  by (simp add: balanced_def paren_depth_def)

lemma balanced_wrap: "balanced s \<Longrightarrow> balanced t \<Longrightarrow> balanced (CHR ''('' # s @ CHR '')'' # t)"
  by (simp add: balanced_def paren_depth_def walk_append walk_balanced [unfolded balanced_def])

lemma balanced_flat: "list_all (\<lambda>c. c \<noteq> CHR ''('' \<and> c \<noteq> CHR '')'') s \<Longrightarrow> balanced s"
  by (induction s) simp_all

text \<open>A part is unsplit when the loop runs through it without finding a separator.\<close>

fun unsplit :: "string \<Rightarrow> int \<Rightarrow> string \<Rightarrow> string \<Rightarrow> bool" where
  "unsplit sep d [] rest \<longleftrightarrow> True"
| "unsplit sep d (c # cs) rest \<longleftrightarrow>
     \<not> (paren_depth d c = 0 \<and> prefix sep (c # cs @ rest)) \<and> unsplit sep (paren_depth d c) cs rest"

lemma split_unsplit:
  assumes "unsplit sep d s rest" "walk d s = Some e"
  shows "split_top sep d part (s @ rest) = split_top sep e (part @ s) rest"
  using assms by (induction s arbitrary: d part) (auto split: if_splits)

lemma split_separator:
  assumes "sep = c # cs" "c \<noteq> CHR ''(''" "c \<noteq> CHR '')''"
  shows "split_top sep 0 part (sep @ rest) = trim part # split_top sep 0 [] rest"
  using assms by (simp add: paren_depth_def)

lemma split_parts_join:
  assumes "sep = c # cs" "c \<noteq> CHR ''(''" "c \<noteq> CHR '')''" "parts \<noteq> []"
    and "\<forall>p \<in> set parts. balanced p \<and> p \<noteq> [] \<and> trim p = p \<and> unsplit sep 0 p [] \<and> (\<forall>rest. unsplit sep 0 p (sep @ rest))"
  shows "split_top sep 0 [] (join sep parts) = parts"
  using assms(4,5)
proof (induction parts rule: list_nonempty_induct)
  case (single p)
  then show ?case using split_unsplit [of sep 0 p "[]" 0 "[]"] by (simp add: balanced_def)
next
  case (cons p ps)
  then have "split_top sep 0 [] (p @ sep @ join sep ps) = split_top sep 0 p (sep @ join sep ps)"
    using split_unsplit [of sep 0 p "sep @ join sep ps" 0 "[]"] by (simp add: balanced_def)
  then show ?case using cons split_separator [OF assms(1-3)] by (simp add: join_Cons)
qed

section \<open>Conditions are unsplit\<close>

lemma unsplit_and:
  "CHR ''&'' \<notin> set s \<Longrightarrow> rest = [] \<or> hd rest \<noteq> CHR ''&'' \<Longrightarrow> unsplit '' && '' d s rest"
proof (induction s arbitrary: d)
  case (Cons c s)
  then have "\<not> prefix '' && '' (c # s @ rest)" by (cases s; cases rest) auto
  with Cons show ?case by simp
qed simp

definition flat_char :: "char \<Rightarrow> bool" where
  "flat_char c \<longleftrightarrow> c \<notin> set ''()&|''"

lemma flat_chars:
  "plain_char c \<Longrightarrow> flat_char c"
  "numeral_char c \<Longrightarrow> flat_char c"
  "n < 16 \<Longrightarrow> flat_char (hex_char n)"
  using numeral_char_plain [of c] hex_char_plain [of n] by (simp_all add: plain_char_def flat_char_def)

lemma flat_escape: "flat_char c \<Longrightarrow> list_all flat_char (escape c)"
proof (cases c rule: escape_cases)
  case (short e)
  then show ?thesis by (simp add: flat_char_def)
next
  case (long i j)
  then show ?thesis using flat_chars(3) by (simp add: flat_char_def)
qed simp_all

lemma flat_text: "plain_name z \<Longrightarrow> list_all flat_char z"
  unfolding plain_name_def list_all_iff by (blast intro: flat_chars)

lemma flat_numeral: "is_numeric_literal v \<Longrightarrow> list_all flat_char v"
  using numeric_literal_chars(1) [of v] unfolding list_all_iff by (blast intro: flat_chars)

lemma flat_quote: "list_all flat_char v \<Longrightarrow> list_all flat_char (quote v)"
proof -
  assume "list_all flat_char v"
  then have "list_all flat_char (concat (map escape v))" by (induction v) (simp_all add: flat_escape)
  then show ?thesis by (simp add: quote_def flat_char_def)
qed

lemma flat_value: "plain_value v \<Longrightarrow> list_all flat_char (quote v)" "plain_value v \<Longrightarrow> list_all flat_char (literal_text v)"
proof -
  assume "plain_value v"
  then have v: "list_all flat_char v" by (auto simp: plain_value_def list_all_iff flat_char_def)
  then show "list_all flat_char (quote v)" by (rule flat_quote)
  then show "list_all flat_char (literal_text v)" using v by (simp add: literal_text_def flat_char_def)
qed

lemmas flat_parts = flat_text flat_numeral flat_value

lemma flat_balanced: "list_all flat_char s \<Longrightarrow> balanced s"
  by (rule balanced_flat) (auto simp: list_all_iff flat_char_def)

lemma flat_no_and: "list_all flat_char s \<Longrightarrow> CHR ''&'' \<notin> set s"
  by (auto simp: list_all_iff flat_char_def)

lemma flat_time_func: "f \<in> set TIME_FUNCS \<Longrightarrow> list_all flat_char f"
  by (auto simp: TIME_FUNCS_def flat_char_def)

text \<open>A piece of text that the splitting at connectives runs through.\<close>

definition piece :: "string \<Rightarrow> bool" where
  "piece s \<longleftrightarrow> balanced s \<and> CHR ''&'' \<notin> set s"

lemma piece_append: "piece s \<Longrightarrow> piece t \<Longrightarrow> piece (s @ t)"
  by (simp add: piece_def balanced_append)

lemma piece_flat: "list_all flat_char s \<Longrightarrow> piece s"
  by (simp add: piece_def flat_balanced flat_no_and)

lemma piece_wrap: "piece s \<Longrightarrow> piece (CHR ''('' # s @ '')'')"
  using balanced_wrap [of s "[]"] by (simp add: piece_def)

lemma piece_call: "list_all flat_char f \<Longrightarrow> plain_name z \<Longrightarrow> piece (f @ CHR ''('' # CHR 0x22 # z @ [CHR 0x22, CHR '')''])"
proof -
  assume a: "list_all flat_char f" "plain_name z"
  have "piece (CHR ''('' # (dquote @ z @ dquote) @ '')'')"
    using a flat_parts(1) [OF a(2)] by (intro piece_wrap piece_append piece_flat) (simp_all add: dquote_def flat_char_def)
  then show ?thesis using piece_append [OF piece_flat [OF a(1)]] by (simp add: dquote_def)
qed

lemma piece_time_call: "f \<in> set TIME_FUNCS \<Longrightarrow> plain_name z \<Longrightarrow> piece (time_call f z)"
  unfolding time_call_def by (rule piece_call [OF flat_time_func])

lemma piece_source_call: "plain_name p \<Longrightarrow> piece (source_call src p)"
  unfolding source_call_def by (rule piece_call) (auto simp: flat_char_def)

lemma piece_texts:
  "piece '' ''" "piece '' >= ''" "piece '' < ''" "piece '' || ''" "piece ''==''" "piece ''>=''" "piece ''<''"
  "piece '' != nil''" "piece '' != ''" "piece dquote" "piece '' == ''" "piece '', ''" "piece ''has''"
  by (simp_all add: piece_def dquote_def)

lemma condition_piece:
  assumes "normal_condition c"
  shows "piece (condition_text c)"
proof (cases c)
  case (TimeCondition f z m v a b)
  then have fz: "piece (time_call f z)" using assms by (simp add: piece_time_call)
  have n: "is_numeric_literal w \<Longrightarrow> piece w" for w by (rule piece_flat [OF flat_parts(2)])
  show ?thesis
  proof (cases "m = ''range''")
    case True
    then have "condition_text c = range_text f z a b" "piece a" "piece b" using assms TimeCondition n by simp_all
    then show ?thesis
      unfolding range_text_def by (simp only:) (intro piece_append fz piece_texts)
  next
    case False
    then have "condition_text c = time_call f z @ '' '' @ (if m = ''gte'' then ''>='' else if m = ''lt'' then ''<'' else ''=='') @ '' '' @ v"
      "piece v" using assms TimeCondition n by simp_all
    moreover have "piece (if m = ''gte'' then ''>='' else if m = ''lt'' then ''<'' else ''=='')"
      by (simp only: piece_texts if_cancel split: if_split) simp
    ultimately show ?thesis by (simp only:) (intro piece_append fz piece_texts)
  qed
next
  case (ParamHeaderCondition src p m v)
  then have p: "piece (source_call s p)" for s using assms by (simp add: piece_source_call)
  have "piece (CHR ''('' # (source_call SrcHeader p @ '', '' @ quote v) @ '')'')" if "plain_value v"
    using that by (intro piece_wrap piece_append p piece_texts piece_flat flat_parts(3))
  then have has: "piece (''has('' @ source_call SrcHeader p @ '', '' @ quote v @ '')'')" if "plain_value v"
    using piece_append [OF piece_texts(13)] that by simp
  consider "m = ''exists''" | "m = ''eq''" "plain_value v" | "m = ''contains''" "plain_value v" "src = SrcHeader"
    using assms ParamHeaderCondition by auto
  then show ?thesis
  proof cases
    case 1
    have "piece (if src = SrcHeader then '' != '' @ dquote @ dquote else '' != nil'')"
      by (simp add: piece_def dquote_def)
    then show ?thesis using piece_append [OF p] ParamHeaderCondition 1 by simp
  next
    case 2
    have "piece ('' == '' @ literal_text v)"
      using 2 by (intro piece_append piece_texts piece_flat flat_parts(4))
    then show ?thesis using piece_append [OF p] ParamHeaderCondition 2 by simp
  next
    case 3
    then show ?thesis using has ParamHeaderCondition by simp
  qed
qed

section \<open>The text of a group\<close>

definition edged :: "string \<Rightarrow> bool" where
  "edged s \<longleftrightarrow> s \<noteq> [] \<and> \<not> is_ws (hd s) \<and> \<not> is_ws (last s)"

lemma edged_trim: "edged s \<Longrightarrow> trim s = s"
  by (simp add: edged_def trim_fixed)

lemma edged_append: "edged s \<Longrightarrow> edged u \<Longrightarrow> edged (s @ t @ u)"
  by (simp add: edged_def)

lemma edged_call:
  "f \<in> set TIME_FUNCS \<Longrightarrow> edged (time_call f z)"
  "edged (source_call src p)"
  by (auto simp: edged_def time_call_def source_call_def TIME_FUNCS_def is_ws_def)

lemma edged_numeral: "is_numeric_literal v \<Longrightarrow> edged v"
  using numeric_literal_chars [of v] numeral_char_plain
  by (metis edged_def hd_in_set last_in_set list_all_iff)

lemma edged_literal: "edged (literal_text v)"
  by (auto simp: literal_text_def edged_def quote_def is_ws_def dest: edged_numeral [unfolded edged_def])

lemma condition_edged:
  assumes "normal_condition c"
  shows "edged (condition_text c)"
proof (cases c)
  case (TimeCondition f z m v a b)
  then have "edged (time_call f z)" "m \<noteq> ''range'' \<Longrightarrow> edged v" "m = ''range'' \<Longrightarrow> edged b"
    using assms by (simp_all add: edged_call edged_numeral split: if_splits)
  then show ?thesis unfolding TimeCondition by (simp add: range_text_def edged_def)
next
  case (ParamHeaderCondition src p m v)
  have "edged (source_call src p)" "edged (literal_text v)" by (rule edged_call edged_literal)+
  then show ?thesis unfolding ParamHeaderCondition by (simp add: edged_def dquote_def is_ws_def)
qed

definition wrap_text :: "string \<Rightarrow> string" where
  "wrap_text e = (if contains e '' || '' then ''('' @ e @ '')'' else e)"

lemma no_or: "CHR ''|'' \<notin> set e \<Longrightarrow> wrap_text e = e"
  using set_mono_sublist [of "'' || ''" e] by (auto simp: wrap_text_def contains_iff_sublist)

lemma wrap_range: "wrap_text (range_text f z a b) = ''('' @ range_text f z a b @ '')''"
proof -
  have "sublist '' || '' (range_text f z a b)"
    unfolding range_text_def by (metis append.assoc sublist_appendI)
  then show ?thesis by (simp add: wrap_text_def contains_iff_sublist)
qed

lemma no_bar:
  assumes "normal_condition c" "\<not> (\<exists>f z v a b. c = TimeCondition f z ''range'' v a b)"
  shows "CHR ''|'' \<notin> set (condition_text c)"
proof -
  have flat: "CHR ''|'' \<notin> set s" if "list_all flat_char s" for s
    using that by (auto simp: list_all_iff flat_char_def)
  show ?thesis
  proof (cases c)
    case (TimeCondition f z m v a b)
    with assms show ?thesis
      using flat [OF flat_time_func, of f] flat [OF flat_text, of z] flat [OF flat_numeral, of v]
      by (simp add: time_call_def)
  next
    case (ParamHeaderCondition src p m v)
    with assms show ?thesis
      using flat [OF flat_text, of p] flat [OF flat_value(1), of v] flat [OF flat_value(2), of v]
      by (auto simp: source_call_def dquote_def)
  qed
qed

lemma parse_wrapped:
  assumes "normal_condition c"
  shows "tryParseRequestCondition (wrap_text (condition_text c)) = Inr (Some c)"
proof (cases "\<exists>f z v a b. c = TimeCondition f z ''range'' v a b")
  case True
  then obtain f z a b where c: "c = TimeCondition f z ''range'' [] a b" using assms by auto
  then show ?thesis
    using assms parse_time_range(2) [of f z a b] by (simp add: wrap_range tryParseRequestCondition_def)
next
  case False
  then show ?thesis using parse_condition [OF assms] no_or [OF no_bar [OF assms False]] by simp
qed

lemma wrap_piece: "piece e \<Longrightarrow> piece (wrap_text e)"
  using piece_wrap by (simp add: wrap_text_def)

lemma wrap_edged: "edged e \<Longrightarrow> edged (wrap_text e)"
  by (simp add: wrap_text_def edged_def is_ws_def)

section \<open>A group as a factor\<close>

definition combined_text :: "RequestCondition list \<Rightarrow> string" where
  "combined_text cs =
     (if length cs = 1 then condition_text (hd cs)
      else join '' && '' (map (\<lambda>c. wrap_text (condition_text c)) cs))"

definition enclosed :: "string \<Rightarrow> string" where
  "enclosed s = ''('' @ s @ '')''"

definition group_inner :: "RequestRuleGroup \<Rightarrow> string" where
  "group_inner g = combined_text (rg_conditions g) @ '' ? '' @ rg_multiplier g @ '' : 1''"

lemma build_factor:
  assumes "normal_group g"
  shows "buildRuleGroupFactor g = enclosed (group_inner g)"
proof -
  let ?cs = "rg_conditions g"
  have n: "list_all normal_condition ?cs" "is_numeric_literal (rg_multiplier g)" "?cs \<noteq> []"
    using assms by (simp_all add: normal_group_def)
  have "map buildRequestConditionExpr ?cs = map condition_text ?cs"
    using n(1) by (auto simp: list_all_iff build_condition)
  moreover have "filter (\<lambda>e. e \<noteq> []) (map condition_text ?cs) = map condition_text ?cs"
    using n(1) condition_edged by (auto simp: list_all_iff edged_def filter_id_conv)
  ultimately have "filter (\<lambda>e. e \<noteq> []) (map buildRequestConditionExpr ?cs) = map condition_text ?cs" by (simp only:)
  then show ?thesis
    unfolding buildRuleGroupFactor_def Let_def
    using n(2,3) by (simp add: trim_numeral enclosed_def group_inner_def combined_text_def hd_map wrap_text_def comp_def)
qed

lemma and_unsplit:
  assumes "piece e" "edged e"
  shows "balanced e \<and> e \<noteq> [] \<and> trim e = e \<and> unsplit '' && '' 0 e [] \<and> (\<forall>rest. unsplit '' && '' 0 e ('' && '' @ rest))"
  using assms by (auto simp: piece_def edged_trim edged_def intro!: unsplit_and)

lemma parse_all:
  assumes "\<And>c. c \<in> set cs \<Longrightarrow> trim (f c) = f c \<and> tryParseRequestCondition (f c) = Inr (Some c)"
  shows "parse_conditions (map f cs) = Inr (Some cs)"
  using assms by (induction cs) simp_all

lemma split_and:
  assumes "\<forall>e \<in> set parts. piece e \<and> edged e" "parts \<noteq> []"
  shows "splitTopLevelAnd (join '' && '' parts) = parts"
proof -
  have "split_top '' && '' 0 [] (join '' && '' parts) = parts"
    by (rule split_parts_join [OF refl]) (use assms and_unsplit in auto)
  moreover have "filter (\<lambda>p. p \<noteq> []) parts = parts" using assms by (auto simp: filter_id_conv edged_def)
  ultimately show ?thesis by (simp add: splitTopLevelAnd_def)
qed

lemma join_balanced: "list_all balanced parts \<Longrightarrow> balanced sep \<Longrightarrow> balanced (join sep parts)"
  by (induction parts rule: induct_list012) (simp_all add: balanced_append)

lemma join_edged: "list_all edged parts \<Longrightarrow> parts \<noteq> [] \<Longrightarrow> edged (join sep parts)"
proof (induction parts rule: induct_list012)
  case (3 e e' parts)
  then show ?case using edged_append [of e "join sep (e' # parts)" sep] by simp
qed simp_all

definition and_part :: "RequestCondition list \<Rightarrow> RequestCondition \<Rightarrow> string" where
  "and_part cs c = (if length cs = 1 then condition_text c else wrap_text (condition_text c))"

lemma combined_parts: "cs \<noteq> [] \<Longrightarrow> combined_text cs = join '' && '' (map (and_part cs) cs)"
  unfolding combined_text_def and_part_def by (cases cs) (auto simp: fun_eq_iff cong: map_cong)

lemma and_part_ok:
  assumes "normal_condition c"
  shows "piece (and_part cs c) \<and> edged (and_part cs c) \<and> tryParseRequestCondition (and_part cs c) = Inr (Some c)"
  unfolding and_part_def
  using assms condition_piece condition_edged wrap_piece wrap_edged parse_condition parse_wrapped by simp

lemma combined_ok:
  assumes "list_all normal_condition cs" "cs \<noteq> []"
  shows "parse_conditions (splitTopLevelAnd (combined_text cs)) = Inr (Some cs)"
    "edged (combined_text cs)" "balanced (combined_text cs)"
proof -
  have c: "piece (and_part cs c) \<and> edged (and_part cs c) \<and> tryParseRequestCondition (and_part cs c) = Inr (Some c)"
    if "c \<in> set cs" for c
    using that assms(1) and_part_ok by (simp add: list_all_iff)
  then have "splitTopLevelAnd (combined_text cs) = map (and_part cs) cs"
    unfolding combined_parts [OF assms(2)] using assms(2) by (intro split_and) auto
  moreover have "parse_conditions (map (and_part cs) cs) = Inr (Some cs)"
    using c edged_trim by (intro parse_all) blast
  ultimately show "parse_conditions (splitTopLevelAnd (combined_text cs)) = Inr (Some cs)" by simp
  show "edged (combined_text cs)" "balanced (combined_text cs)"
    unfolding combined_parts [OF assms(2)] using assms(2) c
    by (auto intro!: join_edged join_balanced simp: list_all_iff piece_def)
qed

lemma factor_suffix:
  assumes "strict_suffix zs ('' ? '' @ v @ '' : 1)'')" "list_all numeral_char v"
  shows "\<not> prefix '' ? '' zs"
proof
  assume "prefix '' ? '' zs"
  then obtain ys where zs: "zs = '' ? '' @ ys" by (auto simp: prefix_def)
  obtain us where "CHR '' '' # CHR ''?'' # CHR '' '' # v @ '' : 1)'' = us @ zs" "us \<noteq> []"
    using assms(1) by (auto simp: strict_suffix_def suffix_def)
  then have "\<exists>us'. CHR '' '' # v @ '' : 1)'' = us' @ CHR ''?'' # CHR '' '' # ys"
    using zs by (cases us; cases "tl us") (auto simp: Cons_eq_append_conv)
  then have "CHR ''?'' \<in> set (CHR '' '' # v @ '' : 1)'')" by (metis in_set_conv_decomp)
  then show False using assms(2) numeral_char_plain by (auto simp: list_all_iff)
qed

lemma factor_match:
  assumes "is_numeric_literal v" "s \<noteq> []"
  shows "rx_anchored factor_pattern (enclosed (s @ '' ? '' @ v @ '' : 1'')) = Some (no_captures(1 \<mapsto> s, 2 \<mapsto> v))"
proof -
  obtain c cs where s: "s = c # cs" using assms(2) by (cases s) auto
  let ?after = "\<lambda>st. rx_match (rx_seq [rx_text '' ? '', rx_numeral 2, rx_text '' : 1)'', RxEnd]) st (\<lambda>(_, _, caps). Some caps)"
  let ?tail = "'' ? '' @ v @ '' : 1)''"
  have "rx_match (RxStar (RxClass (\<lambda>_. True))) (Some c, cs @ ?tail, no_captures)
      (\<lambda>(p, r, caps). ?after (p, r, caps(1 \<mapsto> take (length (s @ ?tail) - length r) (s @ ?tail))))
    = Some (no_captures(1 \<mapsto> s, 2 \<mapsto> v))"
  proof (rule star_any_last)
    show "(case (after_text (Some c) cs, ?tail, no_captures) of (p, r, caps) \<Rightarrow>
        ?after (p, r, caps(1 \<mapsto> take (length (s @ ?tail) - length r) (s @ ?tail))))
      = Some (no_captures(1 \<mapsto> s, 2 \<mapsto> v))"
      using assms(1) by (simp add: part_rules)
    show "(case (p', zs, no_captures) of (p, r, caps) \<Rightarrow>
        ?after (p, r, caps(1 \<mapsto> take (length (s @ ?tail) - length r) (s @ ?tail)))) = None"
      if "strict_suffix zs ?tail" for p' zs
      using factor_suffix [OF that numeric_literal_chars(1) [OF assms(1)]] by (simp add: rx)
  qed
  then show ?thesis by (simp add: rx_anchored_def factor_pattern_def enclosed_def rx rx_plus_def s after_text_def)
qed

lemma parse_factor:
  assumes "normal_group g"
  shows "tryParseRuleGroupFactor (enclosed (group_inner g)) = Inr (Some g)"
proof -
  have n: "list_all normal_condition (rg_conditions g)" "rg_conditions g \<noteq> []" "is_numeric_literal (rg_multiplier g)"
    using assms by (simp_all add: normal_group_def)
  then have "combined_text (rg_conditions g) \<noteq> []" using combined_ok(2) by (simp add: edged_def)
  from factor_match [OF n(3) this] show ?thesis
    unfolding tryParseRuleGroupFactor_def group_inner_def
    using n combined_ok(1) [OF n(1,2)] by (simp add: capture_def)
qed

section \<open>Products of factors\<close>

lemma unsplit_inside: "walk d s \<noteq> None \<Longrightarrow> 0 \<le> d \<Longrightarrow> unsplit sep (d + 1) s rest"
proof (induction s arbitrary: d)
  case (Cons c s)
  have "paren_depth (d + 1) c = paren_depth d c + 1" by (simp add: paren_depth_def)
  with Cons show ?case by (auto split: if_splits)
qed simp

lemma unsplit_append: "walk d s = Some e \<Longrightarrow> unsplit sep d (s @ t) rest \<longleftrightarrow> unsplit sep d s (t @ rest) \<and> unsplit sep e t rest"
  by (induction s arbitrary: d) (auto split: if_splits)

lemma enclosed_balanced: "balanced s \<Longrightarrow> balanced (enclosed s)"
  using balanced_wrap [of s "[]"] by (simp add: enclosed_def)

lemma enclosed_edged: "edged (enclosed s)"
  by (simp add: edged_def enclosed_def is_ws_def)

lemma enclosed_unsplit:
  assumes "balanced s"
  shows "unsplit '' * '' 0 (enclosed s) rest"
proof -
  have "walk 1 s = Some 1" using walk_balanced [OF assms, of 1] by simp
  moreover have "unsplit '' * '' 1 s ('')'' @ rest)" using unsplit_inside [of 0 s] assms by (simp add: balanced_def)
  ultimately have "unsplit '' * '' 1 (s @ '')'') rest" by (simp add: unsplit_append)
  then show ?thesis by (simp add: enclosed_def paren_depth_def)
qed

lemma split_enclosed:
  assumes "list_all balanced inners" "inners \<noteq> []"
  shows "splitTopLevelMultiply (join '' * '' (map enclosed inners)) = map enclosed inners"
proof -
  have "split_top '' * '' 0 [] (join '' * '' (map enclosed inners)) = map enclosed inners"
    by (rule split_parts_join [OF refl])
      (use assms enclosed_balanced enclosed_unsplit enclosed_edged edged_trim in \<open>auto simp: list_all_iff edged_def\<close>)
  moreover have "filter (\<lambda>p. p \<noteq> []) (map enclosed inners) = map enclosed inners"
    by (simp add: filter_id_conv enclosed_def)
  ultimately show ?thesis by (simp add: splitTopLevelMultiply_def)
qed

lemma inner_balanced: "normal_group g \<Longrightarrow> balanced (group_inner g)"
  using combined_ok(3) flat_balanced flat_numeral
  by (auto simp: normal_group_def group_inner_def intro!: balanced_append)

lemma build_rules:
  assumes "list_all normal_group gs"
  shows "buildRequestRuleExpr gs = join '' * '' (map (\<lambda>g. enclosed (group_inner g)) gs)"
proof -
  have "map buildRuleGroupFactor gs = map (\<lambda>g. enclosed (group_inner g)) gs"
    using assms build_factor by (auto simp: list_all_iff)
  then have "filter (\<lambda>f. f \<noteq> []) (map buildRuleGroupFactor gs) = map (\<lambda>g. enclosed (group_inner g)) gs"
    by (simp only:) (simp add: filter_id_conv enclosed_def)
  then show ?thesis by (simp only: buildRequestRuleExpr_def)
qed

lemma parse_all_factors:
  "list_all normal_group gs \<Longrightarrow> parse_factors (map (\<lambda>g. enclosed (group_inner g)) gs) = Inr (Some gs)"
  by (induction gs) (simp_all add: parse_factor)

lemma rules_text:
  assumes "list_all normal_group gs" "gs \<noteq> []"
  shows "edged (buildRequestRuleExpr gs)"
    "splitTopLevelMultiply (buildRequestRuleExpr gs) = map (\<lambda>g. enclosed (group_inner g)) gs"
proof -
  show "edged (buildRequestRuleExpr gs)"
    unfolding build_rules [OF assms(1)]
    by (rule join_edged) (use assms(2) enclosed_edged in \<open>auto simp: list_all_iff\<close>)
  show "splitTopLevelMultiply (buildRequestRuleExpr gs) = map (\<lambda>g. enclosed (group_inner g)) gs"
    using split_enclosed [of "map group_inner gs"] assms inner_balanced
    by (auto simp: build_rules list_all_iff comp_def)
qed

lemma rules_read_back:
  assumes "list_all normal_group gs"
  shows "tryParseRequestRuleExpr (buildRequestRuleExpr gs) = Inr (Some gs)"
proof (cases "gs = []")
  case True
  then show ?thesis by (simp add: build_rules tryParseRequestRuleExpr_def)
next
  case False
  note t = rules_text [OF assms False]
  show ?thesis
    using t edged_trim [OF t(1)] parse_all_factors [OF assms] by (simp add: tryParseRequestRuleExpr_def edged_def)
qed

text \<open>
  (C13) The rule editor reads back what it wrote: for groups in normal form, parsing the
  expression built of them gives the same groups, in the same order, with every condition.
\<close>

theorem request_rules_roundtrip:
  assumes "list_all normal_group gs"
  shows "tryParseRequestRuleExpr (buildRequestRuleExpr gs) = Inr (Some gs)"
  by (rule rules_read_back [OF assms])

text \<open>Two groups, with every kind of condition that has a normal form.\<close>

definition sample_groups :: "RequestRuleGroup list" where
  "sample_groups =
     [\<lparr>rg_conditions = [TimeCondition ''hour'' ''Asia/Shanghai'' ''range'' [] ''21'' ''6'',
          ParamHeaderCondition SrcHeader ''anthropic-beta'' ''contains'' ''fast-mode''],
        rg_multiplier = ''0.5''\<rparr>,
      \<lparr>rg_conditions = [ParamHeaderCondition SrcParam ''service_tier'' ''eq'' ''priority''], rg_multiplier = ''2''\<rparr>,
      \<lparr>rg_conditions = [TimeCondition ''weekday'' ''UTC'' ''gte'' ''5'' [] [],
          ParamHeaderCondition SrcParam ''stream'' ''exists'' []], rg_multiplier = ''1.25''\<rparr>]"

lemma sample_normal: "list_all normal_group sample_groups"
  by code_simp

theorem request_rules_roundtrip_witness:
  "list_all normal_group sample_groups \<and>
   tryParseRequestRuleExpr (buildRequestRuleExpr sample_groups) = Inr (Some sample_groups)"
  using request_rules_roundtrip [OF sample_normal] sample_normal by simp

section \<open>The base expression beside the rules\<close>

lemma factor_none:
  assumes "\<not> suffix '' : 1'' base"
  shows "rx_anchored factor_pattern (enclosed base) = None"
proof (rule ccontr)
  let ?front = "[rx_text ''('', RxGroup 1 (rx_plus (RxClass (\<lambda>_. True))), rx_text '' ? '', rx_numeral 2]"
  assume "rx_anchored factor_pattern (enclosed base) \<noteq> None"
  then obtain m where "rx_match (rx_seq ?front) (None, enclosed base, no_captures)
      (\<lambda>st'. rx_match (rx_seq [rx_text '' : 1)'', RxEnd]) st' (\<lambda>(_, _, caps). Some caps)) = Some m"
    unfolding rx_anchored_def factor_pattern_def by (auto simp: match_seq)
  moreover have "rx_over (\<lambda>_. True) (rx_seq ?front)" by (simp add: rx_unfold rx_numeral_def)
  ultimately have "\<exists>s1 s2 p' caps'. enclosed base = s1 @ s2 \<and> list_all (\<lambda>_. True) s1
      \<and> rx_match (rx_seq [rx_text '' : 1)'', RxEnd]) (p', s2, caps') (\<lambda>(_, _, caps). Some caps) = Some m"
    by (rule match_consumes [of _ "(None, enclosed base, no_captures)", unfolded fst_conv snd_conv])
  then obtain s1 s2 p' caps' where s: "enclosed base = s1 @ s2"
      "rx_match (rx_seq [rx_text '' : 1)'', RxEnd]) (p', s2, caps') (\<lambda>(_, _, caps). Some caps) = Some m"
    by blast
  then have "s2 = '' : 1)''" by (auto simp: rx prefix_def split: if_splits)
  with s(1) have "suffix ('' : 1'' @ '')'') ((CHR ''('' # base) @ '')'')" by (auto simp: enclosed_def suffix_def)
  then have "suffix '' : 1'' (CHR ''('' # base)" by (simp only: suffix_same_cases snoc_suffix_snoc)
  then show False using assms by (auto simp: suffix_Cons)
qed

lemma base_is_no_rule:
  assumes "balanced base" "\<not> suffix '' : 1'' base"
  shows "tryParseRequestRuleExpr (enclosed base) = Inr None"
proof -
  have "splitTopLevelMultiply (enclosed base) = [enclosed base]" using split_enclosed [of "[base]"] assms(1) by simp
  then show ?thesis
    using edged_trim [OF enclosed_edged, of base] factor_none [OF assms(2)]
    by (simp add: tryParseRequestRuleExpr_def tryParseRuleGroupFactor_def enclosed_def)
qed

lemma split_rule_parts:
  assumes "list_all normal_group gs"
  shows "split_parts (map (\<lambda>g. enclosed (group_inner g)) gs) = Inr (map (\<lambda>g. enclosed (group_inner g)) gs, [])"
  using assms
proof (induction gs)
  case (Cons g gs)
  have "tryParseRequestRuleExpr (enclosed (group_inner g)) = Inr (Some [g])"
    using rules_read_back [of "[g]"] Cons by (simp add: build_rules)
  with Cons show ?case by simp
qed simp

lemma parens_inside: "walk d s = Some e \<Longrightarrow> 0 \<le> d \<Longrightarrow> t \<noteq> [] \<Longrightarrow> parens_close (d + 1) (s @ t) = parens_close (e + 1) t"
proof (induction s arbitrary: d)
  case (Cons c s)
  have "paren_depth (d + 1) c = paren_depth d c + 1" by (simp add: paren_depth_def)
  with Cons show ?case by (auto simp: Let_def split: if_splits)
qed simp

lemma unwrap_enclosed:
  assumes "balanced base"
  shows "unwrapOuterParens (enclosed base) = unwrapOuterParens base"
proof -
  have "hasFullOuterParens (enclosed base)"
    using parens_inside [of 0 base 0 "'')''"] assms
    by (auto simp: hasFullOuterParens_def enclosed_def suffix_def balanced_def paren_depth_def Let_def)
  then have "unwrap_parens (enclosed base) = unwrap_parens (trim base)"
    by (subst unwrap_parens.simps) (simp add: enclosed_def)
  then show ?thesis using edged_trim [OF enclosed_edged] by (simp add: unwrapOuterParens_def)
qed

lemma split_combined:
  assumes "list_all normal_group gs" "gs \<noteq> []"
    and "base \<noteq> []" "trim base = base" "balanced base" "\<not> suffix '' : 1'' base"
  shows "splitBillingExprAndRequestRules (combineBillingExpr base (buildRequestRuleExpr gs)) =
    Inr (unwrapOuterParens base, buildRequestRuleExpr gs)"
proof -
  let ?parts = "map (\<lambda>g. enclosed (group_inner g)) gs" and ?rules = "buildRequestRuleExpr gs"
  note t = rules_text [OF assms(1,2)]
  have r: "?rules = join '' * '' ?parts" by (rule build_rules [OF assms(1)])
  have "combineBillingExpr base ?rules = enclosed base @ '' * '' @ ?rules"
    using edged_trim [OF t(1)] t(1) assms(3,4) by (simp add: combineBillingExpr_def edged_def enclosed_def)
  then have whole: "combineBillingExpr base ?rules = join '' * '' (enclosed base # ?parts)"
    using assms(2) by (simp add: r join_Cons)
  have parts: "splitTopLevelMultiply (combineBillingExpr base ?rules) = enclosed base # ?parts"
    using split_enclosed [of "base # map group_inner gs"] assms(1,5) inner_balanced
    by (auto simp: whole list_all_iff comp_def)
  have "edged (combineBillingExpr base ?rules)"
    unfolding whole by (rule join_edged) (use enclosed_edged in \<open>auto simp: list_all_iff\<close>)
  then show ?thesis
    using parts edged_trim assms(2) split_rule_parts [OF assms(1)] base_is_no_rule [OF assms(5,6)]
      unwrap_enclosed [OF assms(5)]
    by (simp add: splitBillingExprAndRequestRules_def edged_def r)
qed


definition sample_base :: string where
  "sample_base = ''tier('' @ dquote @ ''base'' @ dquote @ '', p * 3 + c * 15)''"


section \<open>Rules that are not read back\<close>

text \<open>
  A body condition that compares or searches is written with a guard, \<^verbatim>\<open>param(..) != nil && ..\<close>,
  and the guard is split off again before the condition is parsed. So the group is not recognised,
  and the rule of a combined expression stays in its billing part.
\<close>

definition guarded_group :: RequestRuleGroup where
  "guarded_group = \<lparr>rg_conditions = [ParamHeaderCondition SrcParam ''max_tokens'' ''gt'' ''1000''], rg_multiplier = ''2''\<rparr>"

lemma guarded_group_text:
  "buildRequestRuleExpr [guarded_group] =
     ''(param('' @ dquote @ ''max_tokens'' @ dquote @ '') != nil && param('' @ dquote @ ''max_tokens'' @ dquote @ '') > 1000 ? 2 : 1)''"
  by code_simp

lemma guarded_group_unread: "tryParseRequestRuleExpr (buildRequestRuleExpr [guarded_group]) = Inr None"
  by code_simp

lemma guarded_rule_stays_in_base:
  "splitBillingExprAndRequestRules (combineBillingExpr sample_base (buildRequestRuleExpr [guarded_group])) =
     Inr (combineBillingExpr sample_base (buildRequestRuleExpr [guarded_group]), [])"
  by code_simp

text \<open>
  Parentheses are counted inside string literals too: a value with one of them hides the separator
  between two groups.
\<close>

lemma parenthesis_in_value_unread:
  "tryParseRequestRuleExpr (buildRequestRuleExpr
     [\<lparr>rg_conditions = [ParamHeaderCondition SrcHeader ''user-agent'' ''contains'' ''(beta''], rg_multiplier = ''2''\<rparr>,
      \<lparr>rg_conditions = [ParamHeaderCondition SrcHeader ''x-tier'' ''exists'' []], rg_multiplier = ''3''\<rparr>]) = Inr None"
  by code_simp

text \<open>A string literal with an escape that JSON does not know makes the parser throw.\<close>

lemma invalid_escape_throws:
  "isl (tryParseRequestRuleExpr (''(has(header('' @ dquote @ ''a'' @ dquote @ ''), '' @ dquote @ [CHR 0x5C] @ ''x'' @ dquote @ '') ? 2 : 1)''))"
  by code_simp

end
