(* ===== verification/Pr_Tiers_Ok.thy ===== *)
theory Pr_Tiers_Ok
  imports Pr_Tiers Pr_Rules_Split Js_Rounding
begin

text \<open>
  How the patterns of \<open>features/pricing/lib/tier-expr.ts\<close> read the text the editor writes: numbers,
  the coefficients of a body, the call of a tier, and the conditions in front of it.
\<close>

section \<open>Numbers as text\<close>

lemma digit_numeral: "is_digit c \<Longrightarrow> numeral_char c"
  by (simp add: numeral_char_def)

lemma format_numeral:
  assumes "\<forall>c \<in> set ds. is_digit c"
  shows "list_all numeral_char (format_digits ds n)"
proof -
  have d: "list_all numeral_char (zeros k)" "list_all numeral_char (string_of_nat m)"
    "list_all numeral_char (take i ds)" "list_all numeral_char (drop i ds)" "list_all numeral_char ds" for k m i
    using assms zeros_digits string_of_nat_digits
    by (auto simp: list_all_iff intro!: digit_numeral dest: in_set_takeD in_set_dropD)
  have p: "list_all numeral_char ''0.''" "list_all numeral_char ''.''" "list_all numeral_char ''e+''" "list_all numeral_char ''e-''"
    by (simp_all add: numeral_char_def is_digit_def)
  show ?thesis
    unfolding format_digits_def Let_def exponent_part_def
    using p d by simp
qed

lemma positive_numeral:
  assumes "is_double x" "0 < x"
  shows "list_all numeral_char (positive_to_string x)"
proof -
  obtain s e where "shortest 1500 1 x (dec_exp x) = Some (s, e)" using shortest_ok [OF assms] by blast
  then show ?thesis
    unfolding positive_to_string_def by (simp add: Let_def format_numeral string_of_nat_digits)
qed

lemma number_chars:
  assumes "is_double x"
  shows "list_all numeral_char (number_to_string (Fin x))" "number_to_string (Fin x) \<noteq> []"
proof -
  have "numeral_char CHR ''0''" "numeral_char CHR ''-''" by (simp_all add: numeral_char_def is_digit_def)
  then show "list_all numeral_char (number_to_string (Fin x))"
    using positive_numeral [OF assms] positive_numeral [OF is_double_neg [OF assms]] by simp
  show "number_to_string (Fin x) \<noteq> []"
    using number_text [OF assms] by (metis list.distinct(1))
qed

lemma numeral_no_radix:
  assumes "list_all numeral_char s"
  shows "radix_literal s = None"
proof (cases "length s < 3")
  case False
  then have "numeral_char (s ! 1)" using assms by (simp add: list_all_length)
  then have "lower_char (s ! 1) \<notin> {CHR ''x'', CHR ''o'', CHR ''b''}"
    by (auto simp: numeral_char_def is_digit_def lower_char_def is_upper_def char_of_eq_iff take_bit_eq_mod)
  then show ?thesis by (simp add: radix_literal_def Let_def)
qed (simp add: radix_literal_def)

lemma read_positive:
  assumes "is_double x" "0 < x"
  shows "\<exists>v. unsigned_decimal (positive_to_string x) = Some v \<and> to_double v = Fin x"
proof -
  have "stops []" by (simp add: stops_def)
  from positive_to_string_reads [OF assms this] obtain ip fp e where
    r: "read_decimal (positive_to_string x) = (ip, fp, e, [])" "decimal_ok ip fp"
      "to_double (decimal_value ip (frac fp) e) = Fin x" by auto
  then show ?thesis by (simp add: unsigned_decimal_def decimal_ok_def frac_def)
qed

lemma numeral_not_infinity: "list_all numeral_char s \<Longrightarrow> s \<noteq> ''Infinity''"
  by (auto simp: numeral_char_def is_digit_def)

text \<open>A number reads back from its text.\<close>

lemma number_reads_back:
  assumes "is_double x"
  shows "string_to_number (number_to_string (Fin x)) = Fin x"
proof -
  note c = number_chars [OF assms]
  have t: "trim (number_to_string (Fin x)) = number_to_string (Fin x)"
    using c(1) numeral_char_plain by (intro trim_no_ws) (auto simp: list_all_iff)
  consider (zero) "x = 0" | (pos) "0 < x" | (neg) "x < 0" by linarith
  then show ?thesis
  proof cases
    case zero
    have "string_to_number ''0'' = Fin 0" by code_simp
    then show ?thesis using zero by simp
  next
    case pos
    then have "hd (positive_to_string x) \<noteq> CHR ''-''" "hd (positive_to_string x) \<noteq> CHR ''+''"
      "positive_to_string x \<noteq> []"
      using positive_hd [OF assms] by (auto simp: is_digit_def)
    then show ?thesis
      using t pos read_positive [OF assms pos] numeral_no_radix [OF c(1)] numeral_not_infinity [OF c(1)]
      by (auto simp: string_to_number_def Let_def)
  next
    case neg
    then have n: "is_double (- x)" "0 < - x" using is_double_neg [OF assms] by simp_all
    from read_positive [OF this] obtain v where
      v: "unsigned_decimal (positive_to_string (- x)) = Some v" "to_double (- v) = Fin x"
      using to_double_neg by fastforce
    then show ?thesis
      using t neg numeral_no_radix [OF c(1)] numeral_not_infinity [OF positive_numeral [OF n]]
      by (simp add: string_to_number_def Let_def)
  qed
qed

section \<open>Numbers from one on\<close>

lemma to_double_below_one:
  assumes "0 < v" "v < 1 / 4" "to_double v = Fin x"
  shows "x < 1"
proof -
  define q where "q = ulp_exp v"
  define w :: rat where "w = of_int (round_half_even (v / 2 powi q)) * 2 powi q"
  have x: "x = w" using assms(1,3)
    unfolding to_double_def Let_def by (auto simp: q_def [symmetric] w_def [symmetric] split: if_splits)
  have p: "(0 :: rat) < 2 powi q" by simp
  have "w - v = (of_int (round_half_even (v / 2 powi q)) - v / 2 powi q) * 2 powi q"
    using p unfolding w_def by (simp add: left_diff_distrib)
  also have "\<dots> \<le> 1 / 2 * 2 powi q"
    by (rule mult_right_mono) (use round_half_even_error [of "v / 2 powi q"] p in linarith)+
  finally have err: "w \<le> v + 2 powi q / 2" by simp
  have "ilog2 v < 0"
  proof (rule ccontr)
    assume "\<not> ilog2 v < 0"
    then have "(1 :: rat) \<le> 2 powi ilog2 v" by (intro one_le_power_int) auto
    then show False using ilog2_le [OF assms(1)] assms(2) by simp
  qed
  then have "q \<le> - 1" by (simp add: q_def ulp_exp_def)
  then have "(2 :: rat) powi q \<le> 2 powi (- 1)" by (intro power_int_increasing) simp_all
  then show ?thesis using err assms(2) x by simp
qed

lemma nat_of_digits_bound: "\<forall>c \<in> set ds. is_digit c \<Longrightarrow> nat_of_digits ds < 10 ^ length ds"
proof (induction ds rule: rev_induct)
  case (snoc c ds)
  have "is_digit c" using snoc.prems by simp
  then have "code c - 48 \<le> 9" unfolding is_digit_def by linarith
  moreover have "nat_of_digits ds + 1 \<le> 10 ^ length ds" using snoc by simp
  ultimately show ?case by simp
qed simp

text \<open>The number is printed with a negative exponent only below one.\<close>

lemma condition_digit: "is_digit c \<Longrightarrow> condition_char c"
  by (simp add: condition_char_def)

lemma format_condition:
  assumes "\<forall>c \<in> set ds. is_digit c" "- 6 < n"
  shows "list_all condition_char (format_digits ds n)"
proof -
  have d: "list_all condition_char (zeros k)" "list_all condition_char (string_of_nat m)"
    "list_all condition_char (take i ds)" "list_all condition_char (drop i ds)" "list_all condition_char ds" for k m i
    using assms zeros_digits string_of_nat_digits
    by (auto simp: list_all_iff intro!: condition_digit dest: in_set_takeD in_set_dropD)
  have p: "list_all condition_char ''0.''" "list_all condition_char ''.''" "list_all condition_char ''e+''"
    by (simp_all add: condition_char_def is_digit_def)
  show ?thesis
    unfolding format_digits_def Let_def exponent_part_def using p d assms(2) by simp
qed

lemma number_condition:
  assumes "is_double x" "x = 0 \<or> 1 \<le> x"
  shows "list_all condition_char (number_to_string (Fin x))"
proof (cases "x = 0")
  case True
  then show ?thesis by (simp add: condition_char_def is_digit_def)
next
  case False
  then have x: "0 < x" "1 \<le> x" using assms(2) by auto
  obtain s e where se: "shortest 1500 1 x (dec_exp x) = Some (s, e)" "0 < s"
    "to_double (of_int s * 10 powi e) = Fin x" using shortest_ok [OF assms(1) x(1)] by blast
  let ?ds = "string_of_nat (nat s)"
  have "- 6 < int (length ?ds) + e"
  proof (rule ccontr)
    assume n: "\<not> - 6 < int (length ?ds) + e"
    have "nat s < 10 ^ length ?ds"
      using nat_of_digits_bound [OF string_of_nat_digits, of "nat s"] by simp
    then have "s < 10 ^ length ?ds" using se(2) by (simp add: nat_less_iff)
    then have "(of_int s :: rat) \<le> 10 ^ length ?ds"
      by (metis less_imp_le of_int_le_iff of_int_numeral of_int_power)
    then have "of_int s * (10 :: rat) powi e \<le> 10 ^ length ?ds * 10 powi e" by (intro mult_right_mono) simp_all
    also have "\<dots> = 10 powi (int (length ?ds) + e)" by (simp add: power_int_add)
    also have "\<dots> \<le> 10 powi (- 1)" using n by (intro power_int_increasing) simp_all
    also have "\<dots> < 1 / 4" by simp
    finally have "of_int s * (10 :: rat) powi e < 1 / 4" .
    moreover have "(0 :: rat) < of_int s * 10 powi e" using se(2) by simp
    ultimately show False using to_double_below_one [OF _ _ se(3)] x(2) by simp
  qed
  then show ?thesis
    using x(1) se(1) string_of_nat_digits
    by (simp add: positive_to_string_def Let_def format_condition)
qed

declare number_to_string.simps [simp del]

section \<open>Blanks in front of a token\<close>

definition no_blank_first :: "(rx_state \<Rightarrow> 'r option) \<Rightarrow> bool" where
  "no_blank_first k \<longleftrightarrow> (\<forall>prev d xs caps. is_ws d \<longrightarrow> k (prev, d # xs, caps) = None)"

lemma spaces_none:
  "\<not> is_ws c \<Longrightarrow> rx_match rx_spaces (prev, c # rest, caps) k = k (prev, c # rest, caps)"
  "rx_match rx_spaces (prev, [], caps) k = k (prev, [], caps)"
  by (simp_all add: rx_spaces_def star_class_step)

lemma spaces_one:
  assumes "\<not> is_ws c" "no_blank_first k"
  shows "rx_match rx_spaces (prev, CHR '' '' # c # rest, caps) k = k (Some CHR '' '', c # rest, caps)"
proof -
  have "k (prev, CHR '' '' # c # rest, caps) = None" using assms(2) by (simp add: no_blank_first_def is_ws_def)
  then show ?thesis using assms(1) by (auto simp: rx_spaces_def star_class_step is_ws_def split: option.split)
qed

lemma no_blank_text: "v \<noteq> [] \<Longrightarrow> \<not> is_ws (hd v) \<Longrightarrow> no_blank_first (\<lambda>st. rx_match (rx_text v) st k)"
  by (cases v) (auto simp: no_blank_first_def rx)

lemma no_blank_class: "(\<And>c. P c \<Longrightarrow> \<not> is_ws c) \<Longrightarrow> no_blank_first (\<lambda>st. rx_match (rx_plus (RxClass P)) st k)"
  by (auto simp: no_blank_first_def rx_plus_def rx)

lemma no_blank_group:
  "(\<And>k :: rx_state \<Rightarrow> 'r option. no_blank_first (\<lambda>st. rx_match r st k)) \<Longrightarrow>
   no_blank_first (\<lambda>st. rx_match (RxGroup n r) st (k :: rx_state \<Rightarrow> 'r option))"
  unfolding no_blank_first_def match_group by blast

lemma no_blank_numeral: "no_blank_first (\<lambda>st. rx_match (rx_numeral n) st k)"
  unfolding rx_numeral_def by (intro no_blank_group no_blank_class) (simp add: numeral_char_plain)

lemmas no_blank = no_blank_text no_blank_numeral

lemma no_blank_char: "\<not> is_ws c" if "c \<in> set ''+*?&<>=pclt():''"
  using that by (auto simp: is_ws_def)

lemma numeral_longest:
  assumes "is_double x" "rest = [] \<or> \<not> numeral_char (hd rest)"
    and "k (Some (last (number_to_string (Fin x))), rest, caps(n \<mapsto> number_to_string (Fin x))) = Some y"
  shows "rx_match (rx_numeral n) (prev, number_to_string (Fin x) @ rest, caps) k = Some y"
  unfolding rx_numeral_def by (rule group_plus_longest) (use assms number_chars in auto)

text \<open>A coefficient: the name of a variable, a star and a number.\<close>

definition cost_items :: "nat \<Rightarrow> string \<Rightarrow> regexp list" where
  "cost_items n v = [rx_text v, rx_spaces, rx_text ''*'', rx_spaces, rx_numeral n]"

lemma number_hd:
  assumes "is_double x"
  obtains c r where "number_to_string (Fin x) = c # r" "\<not> is_ws c"
proof -
  obtain c r where "number_to_string (Fin x) = c # r" using number_chars(2) [OF assms] by (cases "number_to_string (Fin x)") auto
  moreover from this have "numeral_char c" using number_chars(1) [OF assms] by simp
  ultimately show thesis using that numeral_char_plain by blast
qed

lemma match_cost:
  assumes "is_double x" "rest = [] \<or> \<not> numeral_char (hd rest)"
    and "k (Some (last (number_to_string (Fin x))), rest, caps(n \<mapsto> number_to_string (Fin x))) = Some y"
  shows "rx_match (rx_seq (cost_items n v)) (prev, cost_part v (Fin x) @ rest, caps) k = Some y"
proof -
  obtain c r where n: "number_to_string (Fin x) = c # r" "\<not> is_ws c" using number_hd [OF assms(1)] .
  let ?p = "after_text prev v"
  have "rx_match (rx_numeral n) (Some CHR '' '', number_to_string (Fin x) @ rest, caps) k = Some y"
    by (rule numeral_longest) (use assms in auto)
  then have "rx_match rx_spaces (Some CHR ''*'', CHR '' '' # number_to_string (Fin x) @ rest, caps)
      (\<lambda>st. rx_match (rx_numeral n) st k) = Some y"
    by (simp add: n spaces_one [OF n(2) no_blank_numeral])
  then have "rx_match rx_spaces (?p, CHR '' '' # CHR ''*'' # CHR '' '' # number_to_string (Fin x) @ rest, caps)
      (\<lambda>st. rx_match (rx_text ''*'') st (\<lambda>st. rx_match rx_spaces st (\<lambda>st. rx_match (rx_numeral n) st k))) = Some y"
    by (subst spaces_one) (simp_all add: no_blank_text no_blank_char rx after_text_def)
  then show ?thesis by (simp add: cost_items_def cost_part_def rx)
qed

text \<open>Another variable does not match in place of a later one.\<close>

definition skips :: "string \<Rightarrow> string \<Rightarrow> bool" where
  "skips v v' \<longleftrightarrow> v \<noteq> [] \<and> \<not> prefix v' v \<and>
     (prefix v v' \<longrightarrow> drop (length v) v' \<noteq> [] \<and> \<not> is_ws (drop (length v) v' ! 0) \<and> drop (length v) v' ! 0 \<noteq> CHR ''*'')"

lemma other_cost_fails:
  assumes "skips v v'"
  shows "rx_match (rx_seq (cost_items n v)) (prev, v' @ rest, caps) k = None"
proof (cases "prefix v v'")
  case True
  then obtain u where u: "v' = v @ u" by (auto simp: prefix_def)
  with assms True obtain c cs where "u = c # cs" "\<not> is_ws c" "c \<noteq> CHR ''*''" by (cases u) (auto simp: skips_def)
  then show ?thesis by (simp add: u cost_items_def rx spaces_none)
next
  case False
  then have "\<not> prefix v (v' @ rest)" using assms by (auto simp: skips_def prefix_append)
  then show ?thesis by (simp add: cost_items_def rx)
qed

section \<open>The optional coefficients of a body\<close>

fun opt_text :: "(string \<times> jsnum) list \<Rightarrow> string" where
  "opt_text [] = []"
| "opt_text ((v, n) # vns) = (if n \<noteq> Fin 0 then '' + '' @ cost_part v n else []) @ opt_text vns"

fun opt_caps :: "nat \<Rightarrow> (string \<times> jsnum) list \<Rightarrow> (nat \<Rightarrow> string option) \<Rightarrow> nat \<Rightarrow> string option" where
  "opt_caps n [] caps = caps"
| "opt_caps n ((v, x) # vns) caps =
     opt_caps (n + 1) vns (if x \<noteq> Fin 0 then caps(n \<mapsto> number_to_string x) else caps)"

definition opt_seq :: "nat \<Rightarrow> string \<Rightarrow> regexp" where
  "opt_seq n v = rx_seq ([rx_spaces, rx_text ''+'', rx_spaces] @ cost_items n v)"

lemma opt_pattern: "opt_cost_pattern n v = rx_opt (opt_seq n v)"
  by (simp add: opt_cost_pattern_def opt_seq_def cost_items_def)

lemma match_opt_front:
  assumes "v' \<noteq> []" "\<not> is_ws (hd v')" "v \<noteq> []" "\<not> is_ws (hd v)"
  shows "rx_match (opt_seq n v) (prev, '' + '' @ v' @ rest, caps) k =
    rx_match (rx_seq (cost_items n v)) (Some CHR '' '', v' @ rest, caps) k"
proof -
  obtain c cs where v': "v' = c # cs" "\<not> is_ws c" using assms(1,2) by (cases v') auto
  have b: "no_blank_first (\<lambda>st. rx_match (rx_seq (cost_items n v)) st k)"
    using no_blank_text [OF assms(3,4)] by (simp add: cost_items_def match_seq)
  have "rx_match rx_spaces (prev, CHR '' '' # CHR ''+'' # CHR '' '' # v' @ rest, caps)
      (\<lambda>st. rx_match (rx_text ''+'') st (\<lambda>st. rx_match rx_spaces st (\<lambda>st. rx_match (rx_seq (cost_items n v)) st k))) =
    rx_match (rx_seq (cost_items n v)) (Some CHR '' '', v' @ rest, caps) k"
    by (subst spaces_one)
      (simp_all add: no_blank_text no_blank_char rx after_text_def v' spaces_one [OF v'(2) b])
  then show ?thesis by (simp add: opt_seq_def match_append match_seq)
qed

definition cost_vars :: "string list \<Rightarrow> bool" where
  "cost_vars vs \<longleftrightarrow> sorted_wrt skips vs \<and> list_all (\<lambda>v. v \<noteq> [] \<and> \<not> is_ws (hd v)) vs"

lemma cost_vars_Cons: "cost_vars (v # vs) \<Longrightarrow> cost_vars vs \<and> v \<noteq> [] \<and> \<not> is_ws (hd v) \<and> (\<forall>v' \<in> set vs. skips v v')"
  by (auto simp: cost_vars_def)

text \<open>What is left of a body starts with a later variable or is the closing parenthesis.\<close>

lemma opt_text_cases:
  obtains "opt_text vns = []" | v rest where "opt_text vns = '' + '' @ v @ rest" "v \<in> fst ` set vns"
proof -
  have "opt_text vns = [] \<or> (\<exists>v rest. opt_text vns = '' + '' @ v @ rest \<and> v \<in> fst ` set vns)"
    by (induction vns rule: opt_text.induct) (auto simp: cost_part_def)
  then show thesis using that by blast
qed

lemma opt_fails:
  assumes "v \<noteq> []" "\<not> is_ws (hd v)" "\<forall>v' \<in> fst ` set vns. skips v v' \<and> v' \<noteq> [] \<and> \<not> is_ws (hd v')"
  shows "rx_match (opt_seq n v) (prev, opt_text vns @ CHR '')'' # rest, caps) k = None"
proof (cases vns rule: opt_text_cases)
  case 1
  then show ?thesis by (simp add: opt_seq_def match_append match_seq spaces_none no_blank_char rx)
next
  case (2 v' rest')
  with assms have v': "v' \<noteq> []" "\<not> is_ws (hd v')" "skips v v'" by blast+
  show ?thesis
    using match_opt_front [OF v'(1,2) assms(1,2), of n prev "rest' @ CHR '')'' # rest" caps k]
      other_cost_fails [OF v'(3)] 2(1) by simp
qed

lemma opt_text_hd: "opt_text vns @ CHR '')'' # rest = [] \<or> \<not> numeral_char (hd (opt_text vns @ CHR '')'' # rest))"
  by (cases vns rule: opt_text_cases) (auto simp: numeral_char_def is_digit_def)

lemma match_opts:
  assumes "cost_vars (map fst vns)" "list_all (\<lambda>(v, n). \<exists>x. n = Fin x \<and> is_double x) vns"
    and "\<And>p'. k (p', CHR '')'' # rest, opt_caps n vns caps) = Some y"
  shows "rx_match (rx_seq (opt_costs n (map fst vns))) (prev, opt_text vns @ CHR '')'' # rest, caps) k = Some y"
  using assms
proof (induction vns arbitrary: n prev caps)
  case (Cons vn vns)
  obtain v x where vn: "vn = (v, Fin x)" "is_double x" using Cons.prems(2) by (cases vn) auto
  have v: "cost_vars (map fst vns)" "v \<noteq> []" "\<not> is_ws (hd v)" "\<forall>v' \<in> fst ` set vns. skips v v' \<and> v' \<noteq> [] \<and> \<not> is_ws (hd v')"
    using cost_vars_Cons [of v "map fst vns"] Cons.prems(1) vn(1) by (auto simp: cost_vars_def list_all_iff)
  let ?c = "if x \<noteq> 0 then caps(n \<mapsto> number_to_string (Fin x)) else caps"
  have IH: "rx_match (rx_seq (opt_costs (n + 1) (map fst vns))) (p, opt_text vns @ CHR '')'' # rest, ?c) k = Some y" for p
    using Cons.IH [OF v(1), of "n + 1" ?c p] Cons.prems(2,3) vn by simp
  show ?case
  proof (cases "x = 0")
    case True
    then show ?thesis using IH vn by (simp add: match_seq opt_pattern match_opt opt_fails [OF v(2-4)])
  next
    case False
    have "rx_match (opt_seq n v)
        (prev, '' + '' @ cost_part v (Fin x) @ opt_text vns @ CHR '')'' # rest, caps)
        (\<lambda>st. rx_match (rx_seq (opt_costs (n + 1) (map fst vns))) st k) = Some y"
      using match_opt_front [OF v(2,3,2,3), of n prev "'' * '' @ number_to_string (Fin x) @ opt_text vns @ CHR '')'' # rest" caps
          "\<lambda>st. rx_match (rx_seq (opt_costs (n + 1) (map fst vns))) st k"]
        match_cost [OF vn(2) opt_text_hd, of "\<lambda>st. rx_match (rx_seq (opt_costs (n + 1) (map fst vns))) st k" vns rest caps n y v]
        IH False by (simp add: cost_part_def)
    then show ?thesis using vn False by (simp add: match_seq opt_pattern match_opt coalesce_def)
  qed
qed (simp add: rx)

section \<open>The call of a tier\<close>

definition normal_cost :: "jsnum \<Rightarrow> bool" where
  "normal_cost n \<longleftrightarrow> (case n of Fin x \<Rightarrow> is_double x | _ \<Rightarrow> False)"

lemma normal_costE: "normal_cost n \<Longrightarrow> \<exists>x. n = Fin x \<and> is_double x"
  by (cases n) (auto simp: normal_cost_def)

lemma or_zero_normal: "normal_cost n \<Longrightarrow> or_zero (Some n) = n"
  by (cases n) (auto simp: normal_cost_def or_zero_def opt_number_def truthy_num_def)

definition tier_costs :: "VisualTier \<Rightarrow> (string \<times> jsnum) list" where
  "tier_costs t = map (\<lambda>(v, f). (v, or_zero (tier_field t f))) BILLING_CACHE_VAR_MAP"

lemma join_concat: "join sep (a # ps) = a @ concat (map ((@) sep) ps)"
  by (induction ps arbitrary: a) (simp_all add: join_Cons)

lemma body_text:
  "buildTierBodyExpr t = cost_part ''p'' (or_zero (Some (vt_input_unit_cost t))) @
     '' + '' @ cost_part ''c'' (or_zero (Some (vt_output_unit_cost t))) @ opt_text (tier_costs t)"
proof -
  have "concat (map ((@) '' + '') (concat (map (\<lambda>(exprVar, field).
      let v = or_zero (tier_field t field) in if v \<noteq> Fin 0 then [cost_part exprVar v] else []) cvs))) =
    opt_text (map (\<lambda>(v, f). (v, or_zero (tier_field t f))) cvs)" for cvs
    by (induction cvs) (auto simp: Let_def)
  then show ?thesis by (simp add: buildTierBodyExpr_def tier_costs_def join_concat Let_def)
qed

lemma body_pattern:
  "rx_match (rx_seq (bodyPat m)) st k =
     rx_match (rx_seq (cost_items m ''p'')) st (\<lambda>st. rx_match (opt_seq (m + 1) ''c'') st
       (\<lambda>st. rx_match (rx_seq (opt_costs (m + 2) (map fst BILLING_CACHE_VAR_MAP))) st k))"
  by (simp add: bodyPat_def opt_seq_def cost_items_def match_append match_seq)

lemma cache_vars: "cost_vars (map fst BILLING_CACHE_VAR_MAP)"
  by code_simp

definition normal_costs :: "VisualTier \<Rightarrow> bool" where
  "normal_costs t \<longleftrightarrow> normal_cost (vt_input_unit_cost t) \<and> normal_cost (vt_output_unit_cost t)
     \<and> list_all (\<lambda>(v, f). case tier_field t f of Some n \<Rightarrow> normal_cost n | None \<Rightarrow> False) BILLING_CACHE_VAR_MAP"

lemma normal_costs_iff:
  "normal_costs t \<longleftrightarrow> normal_cost (vt_input_unit_cost t) \<and> normal_cost (vt_output_unit_cost t)
     \<and> list_all (\<lambda>(v, f). \<exists>n. tier_field t f = Some n \<and> normal_cost n) BILLING_CACHE_VAR_MAP"
proof -
  have "(case x of Some n \<Rightarrow> normal_cost n | None \<Rightarrow> False) \<longleftrightarrow> (\<exists>n. x = Some n \<and> normal_cost n)" for x
    by (cases x) simp_all
  then show ?thesis by (simp only: normal_costs_def)
qed

text \<open>The groups that a body fills, counted from \<open>m\<close>.\<close>

definition body_caps :: "nat \<Rightarrow> VisualTier \<Rightarrow> (nat \<Rightarrow> string option) \<Rightarrow> nat \<Rightarrow> string option" where
  "body_caps m t caps =
     opt_caps (m + 2) (tier_costs t)
       (caps(m \<mapsto> number_to_string (vt_input_unit_cost t), m + 1 \<mapsto> number_to_string (vt_output_unit_cost t)))"

lemma tier_costs_vars: "map fst (tier_costs t) = map fst BILLING_CACHE_VAR_MAP"
  by (simp add: tier_costs_def comp_def case_prod_unfold)

lemma tier_costs_normal: "normal_costs t \<Longrightarrow> list_all (\<lambda>(v, n). \<exists>x. n = Fin x \<and> is_double x) (tier_costs t)"
  using or_zero_normal normal_costE
  by (fastforce simp: normal_costs_iff tier_costs_def list_all_iff)

lemma match_body:
  assumes "normal_costs t" "\<And>p'. k (p', CHR '')'' # rest, body_caps m t caps) = Some y"
  shows "rx_match (rx_seq (bodyPat m)) (prev, buildTierBodyExpr t @ CHR '')'' # rest, caps) k = Some y"
proof -
  obtain a b where ab: "vt_input_unit_cost t = Fin a" "is_double a" "vt_output_unit_cost t = Fin b" "is_double b"
    "or_zero (Some (Fin a)) = Fin a" "or_zero (Some (Fin b)) = Fin b"
    using assms(1) normal_costE or_zero_normal unfolding normal_costs_iff by metis
  let ?opts = "\<lambda>st. rx_match (rx_seq (opt_costs (m + 2) (map fst BILLING_CACHE_VAR_MAP))) st k"
  let ?tail = "opt_text (tier_costs t) @ CHR '')'' # rest"
  let ?caps1 = "caps(m \<mapsto> number_to_string (Fin a))"
  have 1: "?opts (p, ?tail, ?caps1(m + 1 \<mapsto> number_to_string (Fin b))) = Some y" for p
    using match_opts [of "tier_costs t" k rest "m + 2" _ y p] cache_vars tier_costs_normal [OF assms(1)] assms(2) ab
    by (simp add: tier_costs_vars body_caps_def)
  have "rx_match (rx_seq (cost_items (m + 1) ''c'')) (p, cost_part ''c'' (Fin b) @ ?tail, ?caps1) ?opts = Some y" for p
    by (rule match_cost [OF ab(4) opt_text_hd]) (rule 1)
  then have 2: "rx_match (opt_seq (m + 1) ''c'') (p, '' + '' @ cost_part ''c'' (Fin b) @ ?tail, ?caps1) ?opts = Some y" for p
    using match_opt_front [of "''c''" "''c''" "m + 1" p "'' * '' @ number_to_string (Fin b) @ ?tail" ?caps1 ?opts]
    by (simp add: cost_part_def no_blank_char)
  have "rx_match (rx_seq (cost_items m ''p'')) (prev, cost_part ''p'' (Fin a) @ '' + '' @ cost_part ''c'' (Fin b) @ ?tail, caps)
      (\<lambda>st. rx_match (opt_seq (m + 1) ''c'') st ?opts) = Some y"
    by (rule match_cost [OF ab(2)]) (use 2 in \<open>simp_all add: numeral_char_def is_digit_def\<close>)
  then show ?thesis using ab by (simp add: body_pattern body_text)
qed

lemma group_star_whole:
  assumes "list_all P ds" "rest = [] \<or> \<not> P (hd rest)"
    and "\<And>prev' d xs caps'. P d \<Longrightarrow> k (prev', d # xs, caps') = None"
  shows "rx_match (RxGroup n (RxStar (RxClass P))) (prev, ds @ rest, caps) k = k (after_text prev ds, rest, caps(n \<mapsto> ds))"
  unfolding match_group by (subst star_class_whole) (use assms in auto)

definition normal_label :: "string \<Rightarrow> bool" where
  "normal_label l \<longleftrightarrow> l \<noteq> [] \<and> CHR 0x22 \<notin> set l"

lemma match_call:
  assumes "normal_costs t" "normal_label l"
    and "k (Some CHR '')'', rest, body_caps (n + 1) t (caps(n \<mapsto> l))) = Some y"
  shows "rx_match (rx_seq (tier_call_pattern n)) (prev, tier_call l t @ rest, caps) k = Some y"
proof -
  let ?k2 = "\<lambda>st. rx_match (rx_seq (bodyPat (n + 1))) st (\<lambda>st. rx_match (rx_text '')'') st k)"
  have b: "?k2 (p, buildTierBodyExpr t @ CHR '')'' # rest, caps(n \<mapsto> l)) = Some y" for p
    by (rule match_body [OF assms(1)]) (use assms(3) in \<open>simp add: rx after_text_def\<close>)
  have hd: "\<exists>c cs. buildTierBodyExpr t = c # cs \<and> \<not> is_ws c"
    by (simp add: body_text cost_part_def no_blank_char)
  have nb: "no_blank_first ?k2"
    unfolding body_pattern cost_items_def match_seq by (rule no_blank_text) (simp_all add: no_blank_char)
  let ?k1 = "\<lambda>st. rx_match (rx_text (dquote @ '','')) st (\<lambda>st. rx_match rx_spaces st ?k2)"
  have "rx_match (RxGroup n (RxStar (RxClass not_quote))) (Some CHR 0x22, l @ dquote @ '', '' @ buildTierBodyExpr t @ CHR '')'' # rest, caps) ?k1
      = ?k1 (after_text (Some CHR 0x22) l, dquote @ '', '' @ buildTierBodyExpr t @ CHR '')'' # rest, caps(n \<mapsto> l))"
    by (rule group_star_whole)
      (use assms(2) in \<open>auto simp: normal_label_def not_quote_def list_all_iff dquote_def rx\<close>)
  also have "\<dots> = Some y"
    using b hd by (auto simp: rx dquote_def after_text_def spaces_one [OF _ nb [simplified]])
  finally show ?thesis
    by (simp add: tier_call_pattern_def tier_call_def rx dquote_def after_text_def)
qed

section \<open>The conditions of a tier\<close>

definition normal_tier_condition :: "TierCondition \<Rightarrow> bool" where
  "normal_tier_condition c \<longleftrightarrow> tc_var c \<in> {''p'', ''c'', ''len''} \<and> tc_op c \<in> {''<'', ''<='', ''>'', ''>=''}
     \<and> (case tc_value c of
          ValNum (Fin x) \<Rightarrow> is_double x \<and> (x = 0 \<or> 1 \<le> x)
        | _ \<Rightarrow> False)"

definition tier_condition_text :: "TierCondition \<Rightarrow> string" where
  "tier_condition_text c = tc_var c @ '' '' @ tc_op c @ '' '' @ value_text (tc_value c)"

lemma condition_char_plain: "condition_char c \<Longrightarrow> \<not> is_ws c \<and> c \<noteq> CHR ''&''"
  by (auto simp: condition_char_def is_ws_def is_digit_def)

lemma normal_conditionE:
  assumes "normal_tier_condition c"
  obtains x where "tc_value c = ValNum (Fin x)" "is_double x" "list_all condition_char (number_to_string (Fin x))"
  using assms number_condition by (auto simp: normal_tier_condition_def split: ConditionValue.splits jsnum.splits)

lemma conditions_text:
  assumes "list_all normal_tier_condition cs"
  shows "buildConditionStr cs = join '' && '' (map tier_condition_text cs)"
proof -
  have "filter (\<lambda>c. tc_var c \<noteq> [] \<and> tc_op c \<noteq> [] \<and> tc_value c \<noteq> ValStr []) cs = cs"
    using assms by (auto simp: filter_id_conv list_all_iff normal_tier_condition_def)
  then show ?thesis by (simp add: buildConditionStr_def tier_condition_text_def [abs_def])
qed

lemma match_items:
  assumes "normal_tier_condition c" "rest = [] \<or> \<not> condition_char (hd rest)"
    and "\<And>p'. k (p', rest, caps) = Some y"
  shows "rx_match (rx_seq condition_items) (prev, tier_condition_text c @ rest, caps) k = Some y"
proof -
  obtain x where x: "tc_value c = ValNum (Fin x)" "is_double x" "list_all condition_char (number_to_string (Fin x))"
    using normal_conditionE [OF assms(1)] .
  let ?w = "number_to_string (Fin x)"
  let ?num = "\<lambda>st. rx_match (rx_plus (RxClass condition_char)) st k"
  have num: "?num (p, ?w @ rest, caps) = Some y" for p
    by (rule plus_class_longest) (use x number_chars(2) assms in auto)
  have nb: "no_blank_first ?num" by (rule no_blank_class) (simp add: condition_char_plain)
  have eq: "?num (p, CHR ''='' # xs, caps') = None" for p xs caps'
    by (simp add: rx_plus_def rx condition_char_def is_digit_def)
  obtain d ds where w: "?w = d # ds" "\<not> is_ws d"
    using number_hd [OF x(2)] .
  have op: "rx_match condition_op (p, tc_op c @ CHR '' '' # ?w @ rest, caps) (\<lambda>st. rx_match rx_spaces st ?num) = Some y" for p
    using assms(1) num eq w
    by (auto simp: normal_tier_condition_def condition_op_def rx after_text_def coalesce_def
        spaces_one [OF w(2) nb] spaces_none no_blank_char)
  have nb2: "no_blank_first (\<lambda>st. rx_match condition_op st (\<lambda>st. rx_match rx_spaces st ?num))"
    by (auto simp: no_blank_first_def condition_op_def rx is_ws_def)
  have "\<exists>o' os. tc_op c = o' # os \<and> \<not> is_ws o'"
    using assms(1) by (auto simp: normal_tier_condition_def no_blank_char)
  then obtain o' os where o': "tc_op c = o' # os" "\<not> is_ws o'" by blast
  have "rx_match rx_spaces (p, CHR '' '' # tc_op c @ CHR '' '' # ?w @ rest, caps)
      (\<lambda>st. rx_match condition_op st (\<lambda>st. rx_match rx_spaces st ?num)) = Some y" for p
    using op spaces_one [OF o'(2) nb2] o'(1) by simp
  then show ?thesis
    using assms(1) x(1)
    by (auto simp: normal_tier_condition_def tier_condition_text_def value_text_def condition_items_def
        condition_var_def rx after_text_def coalesce_def)
qed

end
