(* ===== verification/Pr_Tiers_Read.thy ===== *)
theory Pr_Tiers_Read
  imports Pr_Tiers_Ok
begin

text \<open>
  The visual tier editor of \<open>features/pricing/lib/tier-expr.ts\<close> reads back what it wrote, and the
  tiers shown to customers, \<open>parseTiersFromExpr\<close> of \<open>billing-expr.ts\<close>, are those that were edited.
\<close>

section \<open>Conditions in front of a call\<close>

definition conditions_of :: "TierCondition list \<Rightarrow> string" where
  "conditions_of cs = join '' && '' (map tier_condition_text cs)"

definition and_items :: regexp where
  "and_items = rx_seq ([rx_spaces, rx_text ''&&'', rx_spaces] @ condition_items)"

lemma condition_text_hd:
  assumes "normal_tier_condition c"
  shows "\<exists>d ds. tier_condition_text c = d # ds \<and> d \<in> set ''pcl'' \<and> \<not> is_ws d"
  using assms by (auto simp: normal_tier_condition_def tier_condition_text_def is_ws_def)

lemma items_fail: "d \<notin> set ''pcl'' \<Longrightarrow> rx_match (rx_seq condition_items) (prev, d # xs, caps) k = None"
  by (auto simp: condition_items_def condition_var_def rx)

lemma no_blank_items: "no_blank_first (\<lambda>st. rx_match (rx_seq condition_items) st k)"
proof -
  have "d \<notin> set ''pcl''" if "is_ws d" for d using that by (auto simp: is_ws_def)
  then show ?thesis unfolding no_blank_first_def using items_fail by metis
qed

lemma match_and_items:
  assumes "normal_tier_condition c"
  shows "rx_match and_items (prev, '' && '' @ tier_condition_text c @ rest, caps) k =
    rx_match (rx_seq condition_items) (Some CHR '' '', tier_condition_text c @ rest, caps) k"
proof -
  obtain d ds where d: "tier_condition_text c = d # ds" "\<not> is_ws d" using condition_text_hd [OF assms] by blast
  have "rx_match rx_spaces (prev, CHR '' '' # CHR ''&'' # CHR ''&'' # CHR '' '' # d # ds @ rest, caps)
      (\<lambda>st. rx_match (rx_text ''&&'') st (\<lambda>st. rx_match rx_spaces st (\<lambda>st. rx_match (rx_seq condition_items) st k))) =
    rx_match (rx_seq condition_items) (Some CHR '' '', d # ds @ rest, caps) k"
    by (subst spaces_one)
      (simp_all add: no_blank_text no_blank_char rx after_text_def spaces_one [OF d(2) no_blank_items])
  then show ?thesis by (simp add: and_items_def match_append match_seq d)
qed

lemma and_items_stop: "rx_match and_items (prev, '' ? '' @ rest, caps) k = None"
proof -
  have "rx_match rx_spaces (prev, CHR '' '' # CHR ''?'' # CHR '' '' # rest, caps)
      (\<lambda>st. rx_match (rx_text ''&&'') st K) = None" for K
    by (subst spaces_one) (simp_all add: no_blank_text no_blank_char rx)
  then show ?thesis by (simp add: and_items_def match_append match_seq)
qed

lemma star_step:
  "rx_match (RxStar a) st k = coalesce
     (rx_match a st (\<lambda>st'. if length (fst (snd st')) < length (fst (snd st)) then rx_match (RxStar a) st' k else None)) (k st)"
  by (subst rx_match.simps) (simp add: coalesce_def)

definition more_conditions :: "TierCondition list \<Rightarrow> string" where
  "more_conditions cs = concat (map (\<lambda>c. '' && '' @ tier_condition_text c) cs)"

lemma conditions_of_Cons: "conditions_of (c # cs) = tier_condition_text c @ more_conditions cs"
  by (simp add: conditions_of_def more_conditions_def join_concat comp_def)

lemma more_conditions_hd: "\<not> condition_char (hd (more_conditions cs @ '' ? '' @ rest))"
  by (cases cs) (auto simp: more_conditions_def condition_char_def is_digit_def)

lemma match_more:
  assumes "list_all normal_tier_condition cs" "\<And>p'. k (p', '' ? '' @ rest, caps) = Some y"
  shows "rx_match (RxStar and_items) (prev, more_conditions cs @ '' ? '' @ rest, caps) k = Some y"
  using assms(1)
proof (induction cs arbitrary: prev)
  case Nil
  then show ?case
    by (subst star_step) (simp add: more_conditions_def and_items_stop [simplified] assms(2) [simplified])
next
  case (Cons c cs)
  let ?s = "more_conditions (c # cs) @ '' ? '' @ rest" and ?t = "more_conditions cs @ '' ? '' @ rest"
  let ?k = "\<lambda>st'. if length (fst (snd st')) < length ?s then rx_match (RxStar and_items) st' k else None"
  have s: "?s = '' && '' @ tier_condition_text c @ ?t" by (simp add: more_conditions_def)
  have "length ?t < length ?s" by (simp add: more_conditions_def)
  then have "?k (p', ?t, caps) = Some y" for p' using Cons by simp
  then have "rx_match (rx_seq condition_items) (Some CHR '' '', tier_condition_text c @ ?t, caps) ?k = Some y"
    using Cons.prems more_conditions_hd by (intro match_items) simp_all
  then have "rx_match and_items (prev, ?s, caps) ?k = Some y"
    unfolding s using Cons.prems by (subst match_and_items) simp_all
  then show ?case by (subst star_step) (simp add: coalesce_def)
qed

definition tier_front :: regexp where
  "tier_front = rx_opt (rx_seq [condGroup, rx_spaces, rx_text ''?'', rx_spaces])"

lemma cond_group: "condGroup = RxGroup 1 (rx_seq (condition_items @ [RxStar and_items]))"
  by (simp add: condGroup_def and_items_def)

lemma match_conditions:
  assumes "list_all normal_tier_condition cs" "cs \<noteq> []"
    and "\<And>p'. K (p', '' ? '' @ rest, caps(1 \<mapsto> conditions_of cs)) = Some y"
  shows "rx_match condGroup (prev, conditions_of cs @ '' ? '' @ rest, caps) K = Some y"
proof -
  obtain c cs' where cs: "cs = c # cs'" using assms(2) by (cases cs) auto
  let ?s = "conditions_of cs @ '' ? '' @ rest"
  let ?k = "\<lambda>(p, s', c'). K (p, s', c'(1 \<mapsto> take (length ?s - length s') ?s))"
  have "?k (p', '' ? '' @ rest, caps) = Some y" for p' using assms(3) by simp
  then have "rx_match (RxStar and_items) (p, more_conditions cs' @ '' ? '' @ rest, caps) ?k = Some y" for p
    using assms(1) cs by (intro match_more) simp_all
  then have "rx_match (rx_seq condition_items) (prev, tier_condition_text c @ more_conditions cs' @ '' ? '' @ rest, caps)
      (\<lambda>st. rx_match (RxStar and_items) st ?k) = Some y"
    using assms(1) cs more_conditions_hd by (intro match_items) simp_all
  then show ?thesis by (simp add: cond_group match_group match_append match_seq cs conditions_of_Cons)
qed

lemma spaces_longest:
  assumes "k (Some CHR '' '', c # rest, caps) = Some y" "\<not> is_ws c"
  shows "rx_match rx_spaces (prev, CHR '' '' # c # rest, caps) k = Some y"
  using star_class_longest [of is_ws "'' ''" "c # rest" k prev caps y] assms
  by (simp add: rx_spaces_def after_text_def is_ws_def)

lemma match_front:
  assumes "list_all normal_tier_condition cs" "cs \<noteq> []" "\<not> is_ws c"
    and "k (Some CHR '' '', c # rest, caps(1 \<mapsto> conditions_of cs)) = Some y"
  shows "rx_match tier_front (prev, conditions_of cs @ '' ? '' @ c # rest, caps) k = Some y"
proof -
  let ?K = "\<lambda>st. rx_match rx_spaces st (\<lambda>st. rx_match (rx_text ''?'') st (\<lambda>st. rx_match rx_spaces st k))"
  have "?K (p', '' ? '' @ c # rest, caps(1 \<mapsto> conditions_of cs)) = Some y" for p'
  proof -
    have "rx_match rx_spaces (Some CHR ''?'', CHR '' '' # c # rest, caps(1 \<mapsto> conditions_of cs)) k = Some y"
      by (rule spaces_longest) (use assms(3,4) in simp_all)
    then have "rx_match rx_spaces (p', CHR '' '' # CHR ''?'' # CHR '' '' # c # rest, caps(1 \<mapsto> conditions_of cs))
        (\<lambda>st. rx_match (rx_text ''?'') st (\<lambda>st. rx_match rx_spaces st k)) = Some y"
      by (intro spaces_longest) (simp_all add: rx after_text_def no_blank_char)
    then show ?thesis by simp
  qed
  then have "rx_match condGroup (prev, conditions_of cs @ '' ? '' @ c # rest, caps) ?K = Some y"
    by (rule match_conditions [OF assms(1,2)])
  then show ?thesis by (simp add: tier_front_def match_opt match_seq coalesce_def)
qed

lemma front_skip: "d \<notin> set ''pcl'' \<Longrightarrow> rx_match tier_front (prev, d # xs, caps) k = k (prev, d # xs, caps)"
  by (simp add: tier_front_def match_opt match_seq cond_group match_group match_append items_fail [simplified])

section \<open>One tier\<close>

definition tier_part :: "string \<Rightarrow> VisualTier \<Rightarrow> string" where
  "tier_part l t = (if vt_conditions t = [] then [] else conditions_of (vt_conditions t) @ '' ? '') @ tier_call l t"

definition front_caps :: "VisualTier \<Rightarrow> nat \<Rightarrow> string option" where
  "front_caps t = (if vt_conditions t = [] then no_captures else no_captures(1 \<mapsto> conditions_of (vt_conditions t)))"

lemma tier_call_hd: "\<exists>xs. tier_call l t = CHR ''t'' # xs"
  by (simp add: tier_call_def)

lemma tier_part_not_Nil [simp]: "tier_part l t \<noteq> []"
  by (simp add: tier_part_def tier_call_def)

lemma match_part:
  assumes "list_all normal_tier_condition (vt_conditions t)"
    and "\<And>p. rx_match (rx_seq rs) (p, tier_call l t @ rest, front_caps t) k = Some y"
  shows "rx_match (rx_seq (tier_front # rs)) (prev, tier_part l t @ rest, no_captures) k = Some y"
proof -
  obtain xs where xs: "tier_call l t = CHR ''t'' # xs" using tier_call_hd by blast
  have ws: "\<not> is_ws CHR ''t''" by (simp add: is_ws_def)
  show ?thesis
  proof (cases "vt_conditions t = []")
    case True
    then show ?thesis
      using assms(2) [of prev] by (simp add: match_seq tier_part_def front_caps_def xs front_skip)
  next
    case False
    then have "rx_match (rx_seq rs) (Some CHR '' '', CHR ''t'' # xs @ rest, no_captures(1 \<mapsto> conditions_of (vt_conditions t))) k = Some y"
      using assms(2) [of "Some CHR '' ''"] by (simp add: front_caps_def xs)
    then have "rx_match tier_front (prev, conditions_of (vt_conditions t) @ '' ? '' @ CHR ''t'' # xs @ rest, no_captures)
        (\<lambda>st. rx_match (rx_seq rs) st k) = Some y"
      using assms(1) False ws by (intro match_front) simp_all
    then show ?thesis using False by (simp add: match_seq tier_part_def xs)
  qed
qed

section \<open>All tiers of an expression\<close>

text \<open>A pattern that finds each item and runs over the separators finds all items of a joined text.\<close>

lemma all_items:
  assumes search: "\<And>x rest prev. x \<in> set xs \<Longrightarrow> start prev \<Longrightarrow> follows rest \<Longrightarrow>
      \<exists>p. rx_search R prev (item x @ rest) = Some (p, rest, caps x)"
    and sep: "\<And>p s. rx_search R p (sep @ s) = rx_search R sp s" "start sp" "\<And>s. follows (sep @ s)"
    and item: "\<And>x. item x \<noteq> []"
    and tail: "\<And>p. rx_all R p tail = []" "follows tail"
    and "start prev" "xs \<noteq> []"
  shows "rx_all R prev (join sep (map item xs) @ tail) = map caps xs"
  using assms(9,8,1)
proof (induction xs arbitrary: prev rule: list_nonempty_induct)
  case (single x)
  obtain p where "rx_search R prev (item x @ tail) = Some (p, tail, caps x)"
    using single.prems tail(2) by fastforce
  then show ?case using tail(1) item by (subst rx_all.simps) simp
next
  case (cons x xs)
  let ?s = "join sep (map item xs) @ tail"
  have s: "join sep (map item (x # xs)) @ tail = item x @ sep @ ?s" using cons.hyps by (simp add: join_Cons)
  obtain p where p: "rx_search R prev (item x @ sep @ ?s) = Some (p, sep @ ?s, caps x)"
    using cons.prems sep(3) by fastforce
  obtain y ys where ys: "xs = y # ys" using cons.hyps by (cases xs) auto
  obtain r where r: "?s = item y @ r" "follows r" using ys sep(3) tail(2) by (cases ys) auto
  obtain p' where p': "rx_search R sp ?s = Some (p', r, caps y)"
    using cons.prems(2) [of y sp r] sep(2) r ys by auto
  then have "rx_all R p (sep @ ?s) = rx_all R sp ?s"
    using sep(1) item r(1) by (subst (1 2) rx_all.simps) simp
  moreover have "rx_all R sp ?s = map caps xs" using cons.IH [OF sep(2)] cons.prems(2) by simp
  ultimately show ?case unfolding s using p item by (subst rx_all.simps) simp
qed

text \<open>
  Both tier patterns of the source are the front followed by a pattern of the call, which is only
  looked at where a call starts. What they find in a sequence of tiers follows from these laws.
\<close>

locale tier_reader =
  fixes call_pattern :: "regexp list"
    and call_ok :: "string \<Rightarrow> VisualTier \<Rightarrow> bool"
    and call_caps :: "string \<Rightarrow> VisualTier \<Rightarrow> (nat \<Rightarrow> string option) \<Rightarrow> nat \<Rightarrow> string option"
  assumes call_match: "call_ok l t \<Longrightarrow>
      rx_match (rx_seq call_pattern) (p, tier_call l t @ rest, caps) Some = Some (Some CHR '')'', rest, call_caps l t caps)"
    and call_start: "d \<noteq> CHR ''t'' \<Longrightarrow> rx_match (rx_seq call_pattern) (p, d # xs, caps) (Some :: rx_state \<Rightarrow> _) = None"
    and call_empty: "rx_match (rx_seq call_pattern) (p, [], caps) (Some :: rx_state \<Rightarrow> _) = None"
begin

lemma search_part:
  assumes "call_ok l t" "list_all normal_tier_condition (vt_conditions t)"
  shows "rx_search (rx_seq (tier_front # call_pattern)) prev (tier_part l t @ rest) =
    Some (Some CHR '')'', rest, call_caps l t (front_caps t))"
  using match_part [OF assms(2) call_match [OF assms(1)]] by (subst rx_search.simps) simp

lemma search_other:
  assumes "d \<notin> set ''pclt''"
  shows "rx_search (rx_seq (tier_front # call_pattern)) prev (d # xs) = rx_search (rx_seq (tier_front # call_pattern)) (Some d) xs"
  using assms by (subst rx_search.simps) (simp add: match_seq front_skip call_start)

lemma search_separator:
  "rx_search (rx_seq (tier_front # call_pattern)) prev ('' : '' @ s) = rx_search (rx_seq (tier_front # call_pattern)) (Some CHR '' '') s"
  by (simp add: search_other)

lemma search_cost:
  assumes "d \<in> {CHR ''p'', CHR ''c''}"
  shows "rx_search (rx_seq (tier_front # call_pattern)) prev (d # '' * 0'' @ xs) =
    rx_search (rx_seq (tier_front # call_pattern)) (Some CHR ''0'') xs"
proof -
  have "rx_match (rx_seq condition_items) (p, d # '' * 0'' @ xs, caps) k = None" for p caps and k :: "rx_state \<Rightarrow> rx_state option"
    using assms by (auto simp: condition_items_def condition_var_def condition_op_def rx rx_spaces_def star_class_step is_ws_def after_text_def)
  then have "rx_match tier_front (p, d # '' * 0'' @ xs, caps) k = k (p, d # '' * 0'' @ xs, caps)"
    for p caps and k :: "rx_state \<Rightarrow> rx_state option"
    by (simp add: tier_front_def match_opt match_seq cond_group match_group match_append)
  then have "rx_search (rx_seq (tier_front # call_pattern)) prev (d # '' * 0'' @ xs) =
      rx_search (rx_seq (tier_front # call_pattern)) (Some d) ('' * 0'' @ xs)"
    using assms by (subst rx_search.simps) (auto simp: match_seq call_start)
  then show ?thesis by (simp add: search_other)
qed

lemma search_empty: "rx_search (rx_seq (tier_front # call_pattern)) prev [] = None"
  by (subst rx_search.simps)
    (simp add: match_seq tier_front_def match_opt cond_group match_group match_append condition_items_def condition_var_def rx call_empty)

lemma no_tier_left:
  "rx_all (rx_seq (tier_front # call_pattern)) prev [] = []"
  "rx_all (rx_seq (tier_front # call_pattern)) prev '' : p * 0 + c * 0'' = []"
proof -
  have "rx_search (rx_seq (tier_front # call_pattern)) prev ('' : '' @ CHR ''p'' # '' * 0'' @ '' + '' @ CHR ''c'' # '' * 0'' @ []) = None"
    by (simp only: search_separator) (simp add: search_cost [simplified] search_other search_empty)
  then show "rx_all (rx_seq (tier_front # call_pattern)) prev '' : p * 0 + c * 0'' = []"
    by (subst rx_all.simps) simp
  show "rx_all (rx_seq (tier_front # call_pattern)) prev [] = []"
    by (subst rx_all.simps) (simp add: search_empty)
qed

lemma all_parts:
  assumes "lts \<noteq> []" "\<forall>(l, t) \<in> set lts. call_ok l t \<and> list_all normal_tier_condition (vt_conditions t)"
    and "\<forall>p. rx_all (rx_seq (tier_front # call_pattern)) p tail = []"
  shows "rx_all (rx_seq (tier_front # call_pattern)) prev (join '' : '' (map (\<lambda>(l, t). tier_part l t) lts) @ tail) =
    map (\<lambda>(l, t). call_caps l t (front_caps t)) lts"
  by (rule all_items [where start = "\<lambda>_. True" and follows = "\<lambda>_. True" and sp = "Some CHR '' ''"])
    (use assms search_part search_separator in auto)

end

interpretation edited: tier_reader "tier_call_pattern 2" "\<lambda>l t. normal_label l \<and> normal_costs t"
  "\<lambda>l t caps. body_caps 3 t (caps(2 \<mapsto> l))"
proof unfold_locales
  show "rx_match (rx_seq (tier_call_pattern 2)) (p, tier_call l t @ rest, caps) Some =
      Some (Some CHR '')'', rest, body_caps 3 t (caps(2 \<mapsto> l)))" if "normal_label l \<and> normal_costs t" for l t p rest caps
    by (rule match_call) (use that in simp_all)
qed (simp_all add: tier_call_pattern_def match_seq match_text)

definition shown_call :: "regexp list" where
  "shown_call = [rx_text (''tier('' @ dquote), RxGroup 2 (RxStar (RxClass not_quote)), rx_text (dquote @ '',''), rx_spaces,
     RxGroup 3 (rx_plus (RxClass (\<lambda>c. c \<noteq> CHR '')''))), rx_text '')'']"

lemma opt_text_flat: "list_all (\<lambda>(v, n). list_all flat_char v \<and> normal_cost n) vns \<Longrightarrow> list_all flat_char (opt_text vns)"
proof (induction vns rule: opt_text.induct)
  case (2 v n vns)
  then obtain x where "n = Fin x" "is_double x" using normal_costE by auto
  then have "list_all flat_char (number_to_string n)"
    using number_chars(1) by (auto simp: list_all_iff intro: flat_chars)
  moreover have "list_all flat_char '' + ''" "list_all flat_char '' * ''" by (simp_all add: flat_char_def)
  ultimately show ?case using 2 by (simp add: cost_part_def)
qed simp

lemma body_flat:
  assumes "normal_costs t"
  shows "list_all flat_char (buildTierBodyExpr t)"
proof -
  have n: "list_all flat_char (number_to_string n)" if "normal_cost n" for n
    using normal_costE [OF that] number_chars(1) by (auto simp: list_all_iff intro: flat_chars)
  have v: "list_all (list_all flat_char) (map fst BILLING_CACHE_VAR_MAP)" by code_simp
  have "list_all (\<lambda>(v, n). list_all flat_char v \<and> normal_cost n) (tier_costs t)"
    using assms v or_zero_normal by (fastforce simp: tier_costs_def normal_costs_iff list_all_iff)
  moreover have "list_all flat_char '' + ''" "list_all flat_char '' * ''" "list_all flat_char ''pc''" by (simp_all add: flat_char_def)
  ultimately show ?thesis
    using assms n opt_text_flat [of "tier_costs t"] by (simp add: body_text cost_part_def normal_costs_iff or_zero_normal)
qed

lemma shown_match:
  assumes "normal_label l \<and> normal_costs t"
  shows "rx_match (rx_seq shown_call) (p, tier_call l t @ rest, caps) Some =
    Some (Some CHR '')'', rest, caps(2 \<mapsto> l, 3 \<mapsto> buildTierBodyExpr t))"
proof -
  let ?b = "buildTierBodyExpr t" and ?P = "\<lambda>c. c \<noteq> CHR '')''"
  let ?k3 = "\<lambda>st. rx_match (rx_text '')'') st Some"
  let ?k2 = "\<lambda>st. rx_match (RxGroup 3 (rx_plus (RxClass ?P))) st ?k3"
  obtain c cs where b: "?b = c # cs" "\<not> is_ws c" by (simp add: body_text cost_part_def no_blank_char)
  have "list_all ?P ?b" using body_flat assms by (auto simp: list_all_iff flat_char_def)
  then have "?k2 (Some CHR '' '', ?b @ CHR '')'' # rest, caps(2 \<mapsto> l)) = Some (Some CHR '')'', rest, caps(2 \<mapsto> l, 3 \<mapsto> ?b))"
    by (intro group_plus_longest) (use b in \<open>auto simp: rx after_text_def\<close>)
  then have 1: "rx_match rx_spaces (Some CHR '','', CHR '' '' # ?b @ CHR '')'' # rest, caps(2 \<mapsto> l)) ?k2 =
      Some (Some CHR '')'', rest, caps(2 \<mapsto> l, 3 \<mapsto> ?b))"
    using b(2) unfolding b(1) append_Cons by (rule spaces_longest)
  let ?k1 = "\<lambda>st. rx_match (rx_text (dquote @ '','')) st (\<lambda>st. rx_match rx_spaces st ?k2)"
  have "rx_match (RxGroup 2 (RxStar (RxClass not_quote))) (Some CHR 0x22, l @ dquote @ '', '' @ ?b @ CHR '')'' # rest, caps) ?k1
      = ?k1 (after_text (Some CHR 0x22) l, dquote @ '', '' @ ?b @ CHR '')'' # rest, caps(2 \<mapsto> l))"
    by (rule group_star_whole)
      (use assms in \<open>auto simp: normal_label_def not_quote_def list_all_iff dquote_def rx\<close>)
  also have "\<dots> = Some (Some CHR '')'', rest, caps(2 \<mapsto> l, 3 \<mapsto> ?b))"
    using 1 by (simp add: match_text dquote_def after_text_def)
  finally show ?thesis
    by (simp add: shown_call_def tier_call_def match_seq match_text dquote_def after_text_def)
qed

interpretation shown: tier_reader shown_call "\<lambda>l t. normal_label l \<and> normal_costs t"
  "\<lambda>l t caps. caps(2 \<mapsto> l, 3 \<mapsto> buildTierBodyExpr t)"
proof unfold_locales
  show "rx_match (rx_seq shown_call) (p, tier_call l t @ rest, caps) Some =
      Some (Some CHR '')'', rest, caps(2 \<mapsto> l, 3 \<mapsto> buildTierBodyExpr t))"
    if "normal_label l \<and> normal_costs t" for l t p rest caps
    using that by (rule shown_match)
qed (simp_all add: shown_call_def match_seq match_text)

lemma tier_patterns:
  "tierRe = rx_seq (tier_front # tier_call_pattern 2)"
  "shown_tier_pattern = rx_seq (tier_front # shown_call)"
  by (simp_all add: tierRe_def shown_tier_pattern_def tier_front_def shown_call_def)

section \<open>The conditions are read back\<close>

lemma split_word:
  assumes "list_all (\<lambda>c. \<not> is_ws c \<and> c \<noteq> CHR ''&'') w"
  shows "rx_split and_pattern prev part (w @ rest) = rx_split and_pattern (after_text prev w) (part @ w) rest"
  using assms
proof (induction w arbitrary: prev part)
  case (Cons c w)
  have "rx_match and_pattern (prev, c # xs, no_captures) k = None" for xs and k :: "rx_state \<Rightarrow> rx_state option"
    using Cons.prems by (auto simp: and_pattern_def match_seq spaces_none match_text)
  then have "rx_split and_pattern prev part (c # w @ rest) = rx_split and_pattern (Some c) (part @ [c]) (w @ rest)"
    by simp
  with Cons show ?case by (simp add: after_text_def)
qed (simp add: after_text_def)

lemma split_blank:
  assumes "\<not> is_ws c" "c \<noteq> CHR ''&''"
  shows "rx_split and_pattern prev part (CHR '' '' # c # rest) = rx_split and_pattern (Some CHR '' '') (part @ '' '') (c # rest)"
proof -
  have "rx_match rx_spaces (prev, CHR '' '' # c # rest, no_captures)
      (\<lambda>st. rx_match (rx_text ''&&'') st (\<lambda>st. rx_match rx_spaces st (Some :: rx_state \<Rightarrow> _))) = None"
    using assms by (subst spaces_one) (simp_all add: no_blank_text no_blank_char match_text)
  then show ?thesis by (simp add: and_pattern_def match_seq)
qed

lemma split_and_sign:
  assumes "\<not> is_ws c"
  shows "rx_split and_pattern prev part ('' && '' @ c # rest) = part # rx_split and_pattern (Some CHR '' '') [] (c # rest)"
proof -
  have "rx_match rx_spaces (Some CHR ''&'', CHR '' '' # c # rest, no_captures) (Some :: rx_state \<Rightarrow> _) =
      Some (Some CHR '' '', c # rest, no_captures)"
    by (rule spaces_longest [OF refl assms])
  then have "rx_match rx_spaces (prev, CHR '' '' # CHR ''&'' # CHR ''&'' # CHR '' '' # c # rest, no_captures)
      (\<lambda>st. rx_match (rx_text ''&&'') st (\<lambda>st. rx_match rx_spaces st (Some :: rx_state \<Rightarrow> _))) =
      Some (Some CHR '' '', c # rest, no_captures)"
    by (intro spaces_longest) (simp_all add: match_text after_text_def no_blank_char)
  then show ?thesis by (simp add: and_pattern_def match_seq)
qed

declare rx_split.simps(2) [simp del]

lemma split_condition:
  assumes "normal_tier_condition c"
  shows "\<exists>p. rx_split and_pattern prev [] (tier_condition_text c @ rest) = rx_split and_pattern p (tier_condition_text c) rest"
proof -
  obtain x where x: "tc_value c = ValNum (Fin x)" "is_double x" "list_all condition_char (number_to_string (Fin x))"
    using normal_conditionE [OF assms] .
  let ?W = "list_all (\<lambda>c. \<not> is_ws c \<and> c \<noteq> CHR ''&'')" and ?w = "number_to_string (Fin x)"
  have v: "?W (tc_var c)" "?W (tc_op c)" "tc_op c \<noteq> []"
    using assms by (auto simp: normal_tier_condition_def is_ws_def)
  have w: "?W ?w" "?w \<noteq> []"
    using x(3) number_chars(2) [OF x(2)] condition_char_plain by (simp_all add: list_all_iff)
  have blank: "rx_split and_pattern p part (CHR '' '' # s @ s') = rx_split and_pattern (Some CHR '' '') (part @ '' '') (s @ s')"
    if "?W s" "s \<noteq> []" for p part s s'
    using that split_blank by (cases s) simp_all
  have "rx_split and_pattern prev [] (tc_var c @ CHR '' '' # tc_op c @ CHR '' '' # ?w @ rest) =
      rx_split and_pattern (after_text prev (tc_var c)) (tc_var c) (CHR '' '' # tc_op c @ CHR '' '' # ?w @ rest)"
    by (subst split_word [OF v(1)]) (simp only: append_Nil)
  also have "\<dots> = rx_split and_pattern (after_text (Some CHR '' '') (tc_op c)) ((tc_var c @ '' '') @ tc_op c) (CHR '' '' # ?w @ rest)"
    by (simp only: blank [OF v(2,3)] split_word [OF v(2)])
  also have "\<dots> = rx_split and_pattern (after_text (Some CHR '' '') ?w) ((((tc_var c @ '' '') @ tc_op c) @ '' '') @ ?w) rest"
    by (simp only: blank [OF w] split_word [OF w(1)])
  finally have "rx_split and_pattern prev [] (tc_var c @ CHR '' '' # tc_op c @ CHR '' '' # ?w @ rest) =
      rx_split and_pattern (after_text (Some CHR '' '') ?w) (tc_var c @ '' '' @ tc_op c @ '' '' @ ?w) rest" by simp
  then show ?thesis by (auto simp: tier_condition_text_def value_text_def x(1))
qed

lemma split_conditions:
  assumes "list_all normal_tier_condition cs" "cs \<noteq> []"
  shows "rx_split and_pattern prev [] (conditions_of cs) = map tier_condition_text cs"
  using assms(2,1)
proof (induction cs arbitrary: prev rule: list_nonempty_induct)
  case (single c)
  then show ?case using split_condition [of c prev "[]"] by (auto simp: conditions_of_def)
next
  case (cons c cs)
  obtain c' cs' where cs: "cs = c' # cs'" using cons.hyps by (cases cs) auto
  have "normal_tier_condition c'" using cons.prems cs by simp
  then obtain d ds where d: "conditions_of cs = d # ds" "\<not> is_ws d"
    using condition_text_hd [of c'] by (auto simp: cs conditions_of_Cons)
  have "conditions_of (c # cs) = tier_condition_text c @ '' && '' @ conditions_of cs"
    using cons.hyps by (simp add: conditions_of_def join_Cons)
  then show ?case
    using split_condition [of c prev "'' && '' @ conditions_of cs"] split_and_sign [OF d(2)] cons by (auto simp: d(1))
qed

lemma match_var:
  assumes "v \<in> {''p'', ''c'', ''len''}" "\<And>p caps. K (p, CHR '' '' # u, caps) = Some (f caps)"
  shows "rx_match (RxGroup 1 condition_var) (prev, v @ CHR '' '' # u, caps) K = Some (f (caps(1 \<mapsto> v)))"
  using assms by (auto simp: condition_var_def match_group match_alts match_text after_text_def coalesce_def)

lemma parse_condition_text:
  assumes "normal_tier_condition c"
  shows "parse_tier_condition (tier_condition_text c) = Some c"
proof -
  obtain x where x: "tc_value c = ValNum (Fin x)" "is_double x" "list_all condition_char (number_to_string (Fin x))"
    using normal_conditionE [OF assms] .
  let ?w = "number_to_string (Fin x)"
  let ?fin = "\<lambda>st. rx_match (rx_seq [RxEnd]) st (\<lambda>(_, _, caps). Some caps)"
  let ?num = "\<lambda>st. rx_match (RxGroup 3 (rx_plus (RxClass condition_char))) st ?fin"
  have num: "?num (p, ?w, caps) = Some (caps(3 \<mapsto> ?w))" for p caps
    using group_plus_longest [of condition_char ?w "[]" ?fin caps 3 "caps(3 \<mapsto> ?w)" p] x number_chars(2) by (simp add: rx)
  obtain d ds where w: "?w = d # ds" "\<not> is_ws d" using number_hd [OF x(2)] .
  have blank: "rx_match rx_spaces (p, CHR '' '' # ?w, caps) ?num = Some (caps(3 \<mapsto> ?w))" for p caps
    using num w(2) unfolding w(1) by (intro spaces_longest) simp_all
  have eq: "rx_match rx_spaces (p, CHR ''='' # xs, caps') ?num = None" for p xs caps'
    by (simp add: spaces_none no_blank_char rx_plus_def rx condition_char_def is_digit_def)
  have op: "rx_match (RxGroup 2 condition_op) (p, tc_op c @ CHR '' '' # ?w, caps) (\<lambda>st. rx_match rx_spaces st ?num) =
      Some (caps(2 \<mapsto> tc_op c, 3 \<mapsto> ?w))" for p caps
    using assms unfolding normal_tier_condition_def
    by (elim conjE insertE emptyE)
      (simp_all add: condition_op_def match_group match_alts match_text after_text_def coalesce_def blank eq)
  have "\<exists>o' os. tc_op c = o' # os \<and> \<not> is_ws o'"
    using assms by (auto simp: normal_tier_condition_def no_blank_char)
  then obtain o' os where o': "tc_op c = o' # os" "\<not> is_ws o'" by blast
  let ?K = "\<lambda>st. rx_match rx_spaces st (\<lambda>st. rx_match (RxGroup 2 condition_op) st (\<lambda>st. rx_match rx_spaces st ?num))"
  have sp: "?K (p, CHR '' '' # tc_op c @ CHR '' '' # ?w, caps) = Some (caps(2 \<mapsto> tc_op c, 3 \<mapsto> ?w))" for p caps
    using op o' by (simp add: spaces_longest)
  have "rx_match (RxGroup 1 condition_var) (None, tc_var c @ CHR '' '' # tc_op c @ CHR '' '' # ?w, no_captures) ?K =
      Some (no_captures(1 \<mapsto> tc_var c, 2 \<mapsto> tc_op c, 3 \<mapsto> ?w))"
    by (rule match_var [where f = "\<lambda>caps. caps(2 \<mapsto> tc_op c, 3 \<mapsto> ?w)"]) (use assms sp in \<open>simp_all add: normal_tier_condition_def\<close>)
  then have "rx_anchored condition_pattern (tier_condition_text c) = Some (no_captures(1 \<mapsto> tc_var c, 2 \<mapsto> tc_op c, 3 \<mapsto> ?w))"
    by (simp add: rx_anchored_def condition_pattern_def match_seq tier_condition_text_def value_text_def x(1))
  moreover have "trim (tier_condition_text c) = tier_condition_text c"
  proof (rule trim_fixed)
    have "\<not> is_ws (last ?w)" "?w \<noteq> []"
      using x(3) number_chars(2) [OF x(2)] condition_char_plain by (auto simp: list_all_iff)
    then show "tier_condition_text c = [] \<or> \<not> is_ws (hd (tier_condition_text c)) \<and> \<not> is_ws (last (tier_condition_text c))"
      using condition_text_hd [OF assms] by (auto simp: tier_condition_text_def value_text_def x(1))
  qed
  ultimately show ?thesis
    using number_reads_back [OF x(2)] x(1) by (simp add: parse_tier_condition_def capture_def)
qed

lemma parse_conditions_of:
  assumes "list_all normal_tier_condition cs"
  shows "parse_tier_conditions (if cs = [] then [] else conditions_of cs) = cs"
proof (cases "cs = []")
  case False
  then have "conditions_of cs \<noteq> []" using assms condition_text_hd by (cases cs) (fastforce simp: conditions_of_Cons)+
  moreover have "somes (map parse_tier_condition (map tier_condition_text cs)) = cs"
    using assms by (induction cs) (simp_all add: parse_condition_text)
  ultimately show ?thesis using False split_conditions [OF assms False] by (simp add: parse_tier_conditions_def)
qed (simp add: parse_tier_conditions_def)

section \<open>A tier is read back\<close>

definition normal_tier :: "VisualTier \<Rightarrow> bool" where
  "normal_tier t \<longleftrightarrow> normal_label (vt_label t) \<and> normal_costs t \<and> list_all normal_tier_condition (vt_conditions t)
     \<and> vt_cache_mode t = (if js_less (Fin 0) (or_zero (vt_cache_create_1h_unit_cost t))
          then CACHE_MODE_TIMED else CACHE_MODE_GENERIC)"

lemma cache_map:
  "BILLING_CACHE_VAR_MAP =
     [(''cr'', ''cache_read_unit_cost''), (''cc'', ''cache_create_unit_cost''), (''cc1h'', ''cache_create_1h_unit_cost''),
      (''img'', ''image_unit_cost''), (''img_o'', ''image_output_unit_cost''), (''ai'', ''audio_input_unit_cost''),
      (''ao'', ''audio_output_unit_cost'')]"
  by code_simp

text \<open>The seven optional costs of a tier by name.\<close>

definition given :: "jsnum \<Rightarrow> jsnum option" where
  "given v = (if v \<noteq> Fin 0 then Some v else None)"

lemma normal_tier_fields:
  assumes "normal_costs t"
  obtains a b c d e f g where
    "vt_cache_read_unit_cost t = Some a" "vt_cache_create_unit_cost t = Some b" "vt_cache_create_1h_unit_cost t = Some c"
    "vt_image_unit_cost t = Some d" "vt_image_output_unit_cost t = Some e" "vt_audio_input_unit_cost t = Some f"
    "vt_audio_output_unit_cost t = Some g"
    "list_all normal_cost [a, b, c, d, e, f, g]"
  using assms by (auto simp: normal_costs_iff cache_map tier_field_def)

lemma normal_cost_reads_back: "normal_cost n \<Longrightarrow> string_to_number (number_to_string n) = n"
  using normal_costE number_reads_back by metis

fun opt_put :: "(string \<times> jsnum) list \<Rightarrow> PartialTier \<Rightarrow> PartialTier" where
  "opt_put [] t = t"
| "opt_put ((f, n) # fns) t = opt_put fns (if n \<noteq> Fin 0 then put_tier_field f n t else t)"

lemma opt_caps_other: "m < n \<Longrightarrow> opt_caps n vns caps m = caps m"
  by (induction n vns caps rule: opt_caps.induct) auto

lemma put_costs_given:
  assumes "list_all (\<lambda>(v, f). normal_cost (c f)) cvs" "\<forall>m \<ge> n. caps m = None"
  shows "put_costs n cvs (opt_caps n (map (\<lambda>(v, f). (v, c f)) cvs) caps) t =
    opt_put (map (\<lambda>(v, f). (f, c f)) cvs) t"
  using assms
proof (induction cvs arbitrary: n caps t)
  case (Cons cv cvs)
  obtain v f where cv: "cv = (v, f)" by (cases cv)
  let ?caps = "if c f \<noteq> Fin 0 then caps(n \<mapsto> number_to_string (c f)) else caps"
  let ?all = "opt_caps (n + 1) (map (\<lambda>(v, f). (v, c f)) cvs) ?caps"
  have "?all n = ?caps n" by (rule opt_caps_other) simp
  moreover have "\<forall>m \<ge> n + 1. ?caps m = None" using Cons.prems(2) by auto
  ultimately show ?case
    using Cons.IH [of "n + 1" ?caps] Cons.prems cv normal_cost_reads_back [of "c f"] by simp
qed simp

lemma put_given:
  "pt_cache_read_unit_cost t = None \<Longrightarrow> (if n \<noteq> Fin 0 then put_tier_field ''cache_read_unit_cost'' n t else t) = t\<lparr>pt_cache_read_unit_cost := given n\<rparr>"
  "pt_cache_create_unit_cost t = None \<Longrightarrow> (if n \<noteq> Fin 0 then put_tier_field ''cache_create_unit_cost'' n t else t) = t\<lparr>pt_cache_create_unit_cost := given n\<rparr>"
  "pt_cache_create_1h_unit_cost t = None \<Longrightarrow> (if n \<noteq> Fin 0 then put_tier_field ''cache_create_1h_unit_cost'' n t else t) = t\<lparr>pt_cache_create_1h_unit_cost := given n\<rparr>"
  "pt_image_unit_cost t = None \<Longrightarrow> (if n \<noteq> Fin 0 then put_tier_field ''image_unit_cost'' n t else t) = t\<lparr>pt_image_unit_cost := given n\<rparr>"
  "pt_image_output_unit_cost t = None \<Longrightarrow> (if n \<noteq> Fin 0 then put_tier_field ''image_output_unit_cost'' n t else t) = t\<lparr>pt_image_output_unit_cost := given n\<rparr>"
  "pt_audio_input_unit_cost t = None \<Longrightarrow> (if n \<noteq> Fin 0 then put_tier_field ''audio_input_unit_cost'' n t else t) = t\<lparr>pt_audio_input_unit_cost := given n\<rparr>"
  "pt_audio_output_unit_cost t = None \<Longrightarrow> (if n \<noteq> Fin 0 then put_tier_field ''audio_output_unit_cost'' n t else t) = t\<lparr>pt_audio_output_unit_cost := given n\<rparr>"
  by (cases t, simp add: put_tier_field_def given_def)+

lemma put_all:
  "opt_put (map (\<lambda>(v, f). (f, c f)) BILLING_CACHE_VAR_MAP)
     (no_tier\<lparr>pt_conditions := Some cs, pt_input_unit_cost := Some i, pt_output_unit_cost := Some u, pt_label := Some l\<rparr>) =
   \<lparr>pt_label = Some l, pt_conditions = Some cs, pt_input_unit_cost = Some i, pt_output_unit_cost = Some u, pt_cache_mode = None,
    pt_cache_read_unit_cost = given (c ''cache_read_unit_cost''),
    pt_cache_create_unit_cost = given (c ''cache_create_unit_cost''),
    pt_cache_create_1h_unit_cost = given (c ''cache_create_1h_unit_cost''),
    pt_image_unit_cost = given (c ''image_unit_cost''),
    pt_image_output_unit_cost = given (c ''image_output_unit_cost''),
    pt_audio_input_unit_cost = given (c ''audio_input_unit_cost''),
    pt_audio_output_unit_cost = given (c ''audio_output_unit_cost'')\<rparr>"
  by (simp add: cache_map put_given no_tier_def)

lemma or_zero_given: "normal_cost v \<Longrightarrow> or_zero (given v) = v"
  using or_zero_normal [of v] by (auto simp: given_def or_zero_def opt_number_def truthy_num_def)

lemma opt_number_given: "js_less (Fin 0) (opt_number (given v)) = js_less (Fin 0) v"
  by (auto simp: given_def opt_number_def)

lemma normal_put:
  assumes "normal_tier t"
  shows "normalizeVisualTier (opt_put (map (\<lambda>(v, f). (f, or_zero (tier_field t f))) BILLING_CACHE_VAR_MAP)
        (no_tier\<lparr>pt_conditions := Some (vt_conditions t), pt_input_unit_cost := Some (vt_input_unit_cost t),
          pt_output_unit_cost := Some (vt_output_unit_cost t), pt_label := Some (vt_label t)\<rparr>)) = t"
proof -
  have "normal_costs t" using assms by (simp add: normal_tier_def)
  then show ?thesis
  proof (cases rule: normal_tier_fields)
    case (1 a b c d e f g)
    with assms show ?thesis
      by (cases t) (simp add: put_all normalizeVisualTier_def tier_field_def or_zero_given or_zero_normal
          normal_tier_def getTierCacheMode_def opt_number_given)
  qed
qed

lemma matched_tier_normal:
  assumes "normal_tier t" "\<forall>m > n. caps m = None" "caps n = Some (vt_label t)"
  shows "matched_tier n (vt_conditions t) (body_caps (n + 1) t caps) = t"
proof -
  have n: "normal_costs t" using assms(1) by (simp add: normal_tier_def)
  let ?caps = "caps(n + 1 \<mapsto> number_to_string (vt_input_unit_cost t), n + 2 \<mapsto> number_to_string (vt_output_unit_cost t))"
  have all: "body_caps (n + 1) t caps = opt_caps (n + 3) (tier_costs t) ?caps" by (simp add: body_caps_def numeral_eq_Suc)
  have low: "opt_caps (n + 3) (tier_costs t) ?caps m = ?caps m" if "m \<le> n + 2" for m
    using that by (intro opt_caps_other) simp
  have "list_all (\<lambda>(v, f). normal_cost (or_zero (tier_field t f))) BILLING_CACHE_VAR_MAP"
    using n or_zero_normal by (fastforce simp: normal_costs_iff list_all_iff)
  then have put: "put_costs (n + 3) BILLING_CACHE_VAR_MAP (opt_caps (n + 3) (tier_costs t) ?caps) p =
      opt_put (map (\<lambda>(v, f). (f, or_zero (tier_field t f))) BILLING_CACHE_VAR_MAP) p" for p
    unfolding tier_costs_def using assms(2) by (intro put_costs_given) auto
  have io: "string_to_number (number_to_string (vt_input_unit_cost t)) = vt_input_unit_cost t"
    "string_to_number (number_to_string (vt_output_unit_cost t)) = vt_output_unit_cost t"
    using n normal_cost_reads_back by (simp_all add: normal_costs_iff)
  have groups: "capture (opt_caps (n + 3) (tier_costs t) ?caps) n = vt_label t"
    "capture (opt_caps (n + 3) (tier_costs t) ?caps) (n + 1) = number_to_string (vt_input_unit_cost t)"
    "capture (opt_caps (n + 3) (tier_costs t) ?caps) (n + 2) = number_to_string (vt_output_unit_cost t)"
    using low [of n] low [of "n + 1"] low [of "n + 2"] assms(3) by (simp_all add: capture_def)
  have "matched_tier n (vt_conditions t) (body_caps (n + 1) t caps) =
      normalizeVisualTier (opt_put (map (\<lambda>(v, f). (f, or_zero (tier_field t f))) BILLING_CACHE_VAR_MAP)
        (no_tier\<lparr>pt_conditions := Some (vt_conditions t), pt_input_unit_cost := Some (vt_input_unit_cost t),
          pt_output_unit_cost := Some (vt_output_unit_cost t), pt_label := Some (vt_label t)\<rparr>))"
    unfolding matched_tier_def all put by (simp only: groups io)
  then show ?thesis using normal_put [OF assms(1)] by simp
qed

section \<open>A configuration is read back\<close>

definition normal_config :: "VisualConfig \<Rightarrow> bool" where
  "normal_config cfg \<longleftrightarrow> vc_tiers cfg \<noteq> [] \<and> list_all normal_tier (vc_tiers cfg)
     \<and> (1 < length (vc_tiers cfg) \<longrightarrow> vt_conditions (last (vc_tiers cfg)) = [])"

lemma conditions_of_eq_Nil: "list_all normal_tier_condition cs \<Longrightarrow> conditions_of cs = [] \<longleftrightarrow> cs = []"
proof (cases cs)
  case (Cons c cs')
  moreover assume "list_all normal_tier_condition cs"
  ultimately show ?thesis using condition_text_hd [of c] by (auto simp: conditions_of_Cons)
qed (simp add: conditions_of_def)

lemma normal_tier_text:
  assumes "normal_tier t"
  shows "or_str (vt_label t) l = vt_label t" "buildConditionStr (vt_conditions t) = conditions_of (vt_conditions t)"
    "conditions_of (vt_conditions t) = [] \<longleftrightarrow> vt_conditions t = []"
  using assms conditions_text conditions_of_eq_Nil
  by (auto simp: normal_tier_def normal_label_def or_str_def conditions_of_def)

lemma tier_parts_normal:
  assumes "list_all normal_tier ts" "ts \<noteq> []" "vt_conditions (last ts) = []"
  shows "tier_parts i ts = map (\<lambda>t. tier_part (vt_label t) t) ts"
  using assms(2,1,3)
proof (induction ts arbitrary: i rule: list_nonempty_induct)
  case (single t)
  then show ?case by (simp add: tier_part_def normal_tier_text)
next
  case (cons t ts)
  then show ?case by (simp add: tier_part_def normal_tier_text)
qed

definition zero_tail :: "VisualTier list \<Rightarrow> string" where
  "zero_tail ts = (if length ts = 1 \<and> vt_conditions (hd ts) \<noteq> [] then '' : p * 0 + c * 0'' else [])"

lemma config_text:
  assumes "normal_config cfg"
  shows "generateExprFromVisualConfig (Some cfg) =
    join '' : '' (map (\<lambda>(l, t). tier_part l t) (map (\<lambda>t. (vt_label t, t)) (vc_tiers cfg))) @ zero_tail (vc_tiers cfg)"
proof (cases "vc_tiers cfg" rule: remdups_adj.cases)
  case 1
  then show ?thesis using assms by (simp add: normal_config_def)
next
  case (2 t)
  then have "normal_tier t" using assms by (simp add: normal_config_def)
  with 2 show ?thesis
    by (simp add: generateExprFromVisualConfig_def Let_def normal_tier_text zero_tail_def tier_part_def)
next
  case (3 t t' ts)
  then have "tier_parts 0 (vc_tiers cfg) = map (\<lambda>t. tier_part (vt_label t) t) (vc_tiers cfg)"
    using assms by (intro tier_parts_normal) (auto simp: normal_config_def)
  with 3 show ?thesis
    by (simp only: generateExprFromVisualConfig_def option.case list.case zero_tail_def map_map comp_def prod.case) simp
qed

lemma config_text_hd:
  assumes "normal_config cfg"
  obtains d ds where "generateExprFromVisualConfig (Some cfg) = d # ds" "d \<in> set ''pclt''"
    "d = CHR ''t'' \<longleftrightarrow> vt_conditions (hd (vc_tiers cfg)) = []"
proof -
  obtain t ts where ts: "vc_tiers cfg = t # ts" using assms by (cases "vc_tiers cfg") (auto simp: normal_config_def)
  have "\<exists>d ds. tier_part (vt_label t) t = d # ds \<and> d \<in> set ''pclt'' \<and> (d = CHR ''t'' \<longleftrightarrow> vt_conditions t = [])"
  proof (cases "vt_conditions t")
    case (Cons c cs)
    then have "normal_tier_condition c" using assms ts by (simp add: normal_config_def normal_tier_def)
    from condition_text_hd [OF this] show ?thesis using Cons by (auto simp: tier_part_def conditions_of_Cons)
  qed (simp add: tier_part_def tier_call_def)
  moreover obtain r where "generateExprFromVisualConfig (Some cfg) = tier_part (vt_label t) t @ r"
    unfolding config_text [OF assms] ts by (cases ts) (auto simp: join_concat)
  ultimately show thesis using that ts by auto
qed

lemma version_absent: "d \<noteq> CHR ''v'' \<Longrightarrow> rx_anchored version_pattern (d # ds) = None"
  by (auto simp: rx_anchored_def version_pattern_def match_seq match_text)

lemma normal_tier_fixed: "normal_tier t \<Longrightarrow> normalizeVisualTier (partial_of t) = t"
proof -
  assume t: "normal_tier t"
  then have "normal_costs t" by (simp add: normal_tier_def)
  then show ?thesis
    by (cases rule: normal_tier_fields)
      (cases t, simp add: normalizeVisualTier_def partial_of_def or_zero_normal)
qed

lemma normal_config_fixed:
  assumes "list_all normal_tier ts" "ts \<noteq> []"
  shows "normalizeVisualConfig (Some \<lparr>vc_tiers = ts\<rparr>) = \<lparr>vc_tiers = ts\<rparr>"
  using assms normal_tier_fixed by (simp add: normalizeVisualConfig_def list_all_iff map_idI)

lemma single_match:
  assumes "normal_tier t"
  shows "rx_anchored singleRe (tier_call (vt_label t) t) = Some (body_caps 2 t (no_captures(1 \<mapsto> vt_label t)))"
proof -
  have "rx_match (rx_seq (tier_call_pattern 1)) (None, tier_call (vt_label t) t @ [], no_captures)
      (\<lambda>st. rx_match (rx_seq [RxEnd]) st (\<lambda>(_, _, caps). Some caps)) = Some (body_caps 2 t (no_captures(1 \<mapsto> vt_label t)))"
    by (rule match_call) (use assms in \<open>simp_all add: normal_tier_def rx numeral_eq_Suc\<close>)
  then show ?thesis by (simp add: rx_anchored_def singleRe_def match_append)
qed

lemma body_pattern_over: "rx_over not_quote (rx_seq (rx_spaces # bodyPat 2 @ [rx_text '')'']))"
  by (auto simp: bodyPat_def cache_map opt_cost_pattern_def rx_unfold rx_numeral_def not_quote_def is_ws_def
      dest: numeral_char_plain)

lemma single_shape:
  "rx_anchored singleRe (''tier('' @ dquote @ s) =
     rx_match (RxGroup 1 (RxStar (RxClass not_quote))) (Some CHR 0x22, s, no_captures)
       (\<lambda>st. rx_match (rx_text (dquote @ '','')) st (\<lambda>st. rx_match (rx_seq (rx_spaces # bodyPat 2 @ [rx_text '')''])) st
          (\<lambda>st. rx_match (rx_seq [RxEnd]) st (\<lambda>(_, _, caps). Some caps))))"
proof -
  have s: "singleRe = rx_seq (rx_text (''tier('' @ dquote) # RxGroup 1 (RxStar (RxClass not_quote)) # rx_text (dquote @ '','') #
      (rx_spaces # bodyPat 2 @ [rx_text '')'']) @ [RxEnd])"
    by (simp add: singleRe_def tier_call_pattern_def numeral_2_eq_2)
  show ?thesis
    unfolding rx_anchored_def s by (simp add: match_seq match_append match_text dquote_def after_text_def)
qed

text \<open>A text with a quote behind the first label is not a single tier.\<close>

lemma single_fails:
  assumes "CHR 0x22 \<notin> set l" "CHR 0x22 \<in> set rest"
  shows "rx_anchored singleRe (''tier('' @ dquote @ l @ dquote @ rest) = None"
proof (rule ccontr)
  let ?fin = "\<lambda>st. rx_match (rx_seq [RxEnd]) st (\<lambda>(_, _, caps). Some caps)"
  let ?body = "\<lambda>st. rx_match (rx_seq (rx_spaces # bodyPat 2 @ [rx_text '')''])) st ?fin"
  let ?k = "\<lambda>st. rx_match (rx_text (dquote @ '','')) st ?body"
  assume "rx_anchored singleRe (''tier('' @ dquote @ l @ dquote @ rest) \<noteq> None"
  then obtain m where "rx_match (RxGroup 1 (RxStar (RxClass not_quote))) (Some CHR 0x22, l @ dquote @ rest, no_captures) ?k = Some m"
    unfolding single_shape by blast
  moreover have "rx_over not_quote (RxGroup 1 (RxStar (RxClass not_quote)))" by simp
  ultimately have "\<exists>s1 s2 p c. l @ dquote @ rest = s1 @ s2 \<and> list_all not_quote s1 \<and> ?k (p, s2, c) = Some m"
    by (rule match_consumes [of _ "(Some CHR 0x22, l @ dquote @ rest, no_captures)", unfolded fst_conv snd_conv])
  then obtain s1 s2 p c where 1: "l @ dquote @ rest = s1 @ s2" "list_all not_quote s1" "?k (p, s2, c) = Some m" by blast
  have "prefix (dquote @ '','') s2" using 1(3) unfolding match_text by (simp only: option.distinct split: if_splits)
  then obtain s3 where 2: "s2 = dquote @ '','' @ s3" by (auto simp: prefix_def)
  then have 3: "?body (Some CHR '','', s3, c) = Some m"
    using 1(3) by (simp add: match_text dquote_def after_text_def)
  have "\<exists>t1 t2 p c. s3 = t1 @ t2 \<and> list_all not_quote t1 \<and> ?fin (p, t2, c) = Some m"
    by (rule match_consumes [of _ "(Some CHR '','', s3, c)", unfolded fst_conv snd_conv, OF 3 body_pattern_over])
  then have "list_all not_quote s3" by (auto simp: match_seq match_basic split: if_splits)
  moreover have "rest = '','' @ s3"
  proof -
    have "takeWhile not_quote (xs @ CHR 0x22 # ys) = xs" if "list_all not_quote xs" for xs ys
      using that by (induction xs) (simp_all add: not_quote_def)
    moreover have "list_all not_quote l" using assms(1) by (auto simp: list_all_iff not_quote_def)
    moreover have q: "l @ CHR 0x22 # rest = s1 @ CHR 0x22 # '','' @ s3" using 1(1) 2 by (simp add: dquote_def)
    ultimately have "l = s1" using 1(2) by metis
    then show ?thesis using q by simp
  qed
  ultimately show False using assms(2) by (auto simp: not_quote_def list_all_iff)
qed

lemma call_quote: "CHR 0x22 \<in> set (tier_part l t)"
  by (simp add: tier_part_def tier_call_def dquote_def)

lemma single_absent:
  assumes "normal_config cfg" "length (vc_tiers cfg) \<noteq> 1 \<or> vt_conditions (hd (vc_tiers cfg)) \<noteq> []"
  shows "rx_anchored singleRe (generateExprFromVisualConfig (Some cfg)) = None"
proof (cases "vt_conditions (hd (vc_tiers cfg)) = []")
  case False
  obtain d ds where "generateExprFromVisualConfig (Some cfg) = d # ds" "d \<noteq> CHR ''t''"
    using config_text_hd [OF assms(1)] False by metis
  then show ?thesis
    by (auto simp: rx_anchored_def singleRe_def tier_call_pattern_def match_append match_seq match_text)
next
  case True
  then obtain t t' ts where ts: "vc_tiers cfg = t # t' # ts"
    using assms by (cases "vc_tiers cfg" rule: remdups_adj.cases) (auto simp: normal_config_def)
  obtain r where "generateExprFromVisualConfig (Some cfg) = tier_part (vt_label t) t @ '' : '' @ tier_part (vt_label t') t' @ r"
    unfolding config_text [OF assms(1)] ts by (simp add: join_concat)
  then have "generateExprFromVisualConfig (Some cfg) = ''tier('' @ dquote @ vt_label t @ dquote @
      '', '' @ buildTierBodyExpr t @ '')'' @ '' : '' @ tier_part (vt_label t') t' @ r"
    using True ts by (simp add: tier_part_def tier_call_def)
  moreover have "CHR 0x22 \<notin> set (vt_label t)"
    using assms(1) ts by (simp add: normal_config_def normal_tier_def normal_label_def)
  ultimately show ?thesis using call_quote [of "vt_label t'" t'] by (simp only:) (rule single_fails, auto)
qed

lemma found_tiers:
  assumes "normal_config cfg"
  shows "map (\<lambda>m. matched_tier 2 (parse_tier_conditions (case m 1 of Some s \<Rightarrow> s | None \<Rightarrow> [])) m)
    (rx_all tierRe None (generateExprFromVisualConfig (Some cfg))) = vc_tiers cfg"
proof -
  let ?ts = "vc_tiers cfg"
  have n: "\<forall>t \<in> set ?ts. normal_tier t" "?ts \<noteq> []" using assms by (simp_all add: normal_config_def list_all_iff)
  have "rx_all tierRe None (generateExprFromVisualConfig (Some cfg)) =
      map (\<lambda>(l, t). body_caps 3 t ((front_caps t)(2 \<mapsto> l))) (map (\<lambda>t. (vt_label t, t)) ?ts)"
    unfolding tier_patterns config_text [OF assms]
    by (rule edited.all_parts) (use n edited.no_tier_left in \<open>auto simp: normal_tier_def zero_tail_def\<close>)
  moreover have "matched_tier 2 (parse_tier_conditions (case m 1 of Some s \<Rightarrow> s | None \<Rightarrow> [])) m = t"
    if "normal_tier t" "m = body_caps 3 t ((front_caps t)(2 \<mapsto> vt_label t))" for t m
  proof -
    have "m 1 = front_caps t 1" by (simp add: that(2) body_caps_def opt_caps_other)
    then have "parse_tier_conditions (case m 1 of Some s \<Rightarrow> s | None \<Rightarrow> []) = vt_conditions t"
      using parse_conditions_of [of "vt_conditions t"] that(1)
      by (auto simp: front_caps_def no_captures_def normal_tier_def split: if_splits)
    moreover have "matched_tier 2 (vt_conditions t) (body_caps (2 + 1) t ((front_caps t)(2 \<mapsto> vt_label t))) = t"
      by (rule matched_tier_normal [OF that(1)]) (simp_all add: front_caps_def no_captures_def)
    ultimately show ?thesis by (simp add: that(2))
  qed
  ultimately show ?thesis using n(1) by (simp add: comp_def map_idI)
qed

lemma config_reads_back:
  assumes "normal_config cfg"
  shows "tryParseVisualConfig (Some (generateExprFromVisualConfig (Some cfg))) = Some cfg"
proof -
  let ?e = "generateExprFromVisualConfig (Some cfg)" and ?ts = "vc_tiers cfg"
  obtain d ds where e: "?e = d # ds" "d \<in> set ''pclt''" using config_text_hd [OF assms] by metis
  then have v: "rx_anchored version_pattern ?e = None" by (auto intro: version_absent)
  have n: "list_all normal_tier ?ts" "?ts \<noteq> []" using assms by (simp_all add: normal_config_def)
  show ?thesis
  proof (cases "length ?ts = 1 \<and> vt_conditions (hd ?ts) = []")
    case True
    then obtain t where t: "?ts = [t]" "vt_conditions t = []" by (cases ?ts) auto
    then have t': "normal_tier t" "?e = tier_call (vt_label t) t"
      using n config_text [OF assms] by (simp_all add: tier_part_def zero_tail_def)
    have "rx_anchored singleRe ?e = Some (body_caps 2 t (no_captures(1 \<mapsto> vt_label t)))"
      unfolding t'(2) by (rule single_match [OF t'(1)])
    moreover have "matched_tier 1 (vt_conditions t) (body_caps (1 + 1) t (no_captures(1 \<mapsto> vt_label t))) = t"
      by (rule matched_tier_normal [OF t'(1)]) (simp_all add: no_captures_def)
    ultimately have "rx_anchored singleRe ?e = Some (body_caps 2 t (no_captures(1 \<mapsto> vt_label t)))"
      "matched_tier 1 [] (body_caps 2 t (no_captures(1 \<mapsto> vt_label t))) = t" using t(2) by (simp_all add: numeral_2_eq_2)
    then show ?thesis
      using v e t normal_config_fixed [OF n] by (simp add: tryParseVisualConfig_def truthy_str_def Let_def)
  next
    case False
    then have "rx_anchored singleRe ?e = None" using single_absent [OF assms] by blast
    moreover have "generateExprFromVisualConfig (Some \<lparr>vc_tiers = ?ts\<rparr>) = ?e" by (cases cfg) simp
    ultimately show ?thesis
      using v e(1) found_tiers [OF assms] normal_config_fixed [OF n] n(2)
      by (simp add: tryParseVisualConfig_def truthy_str_def Let_def)
  qed
qed


definition sample_tier :: VisualTier where
  "sample_tier =
     \<lparr>vt_label = ''standard'', vt_conditions = [\<lparr>tc_var = ''len'', tc_op = ''<='', tc_value = ValNum (Fin 200000)\<rparr>],
      vt_input_unit_cost = Fin 3, vt_output_unit_cost = Fin 15, vt_cache_mode = CACHE_MODE_TIMED,
      vt_cache_read_unit_cost = Some (Fin (3 / 4)), vt_cache_create_unit_cost = Some (Fin 0),
      vt_cache_create_1h_unit_cost = Some (Fin 6), vt_image_unit_cost = Some (Fin 0),
      vt_image_output_unit_cost = Some (Fin 0), vt_audio_input_unit_cost = Some (Fin 0),
      vt_audio_output_unit_cost = Some (Fin 0)\<rparr>"

definition sample_config :: VisualConfig where
  "sample_config = \<lparr>vc_tiers = [sample_tier, sample_tier\<lparr>vt_label := ''long context'', vt_conditions := [],
     vt_input_unit_cost := Fin 6, vt_output_unit_cost := Fin 30\<rparr>]\<rparr>"

lemma sample_numbers: "is_double 0" "is_double 3" "is_double 6" "is_double 15" "is_double 30" "is_double 200000" "is_double (3 / 4)"
proof -
  show "is_double 0" "is_double 3" "is_double 6" "is_double 15" "is_double 30" "is_double 200000"
    using is_double_int [of 0] is_double_int [of 3] is_double_int [of 6] is_double_int [of 15] is_double_int [of 30]
      is_double_int [of 200000] by simp_all
  show "is_double (3 / 4)" by code_simp
qed

lemma sample_config_normal: "normal_config sample_config"
  by (simp add: normal_config_def sample_config_def sample_tier_def normal_tier_def normal_label_def normal_costs_def
      cache_map tier_field_def normal_cost_def sample_numbers normal_tier_condition_def or_zero_def opt_number_def truthy_num_def)


end
