(* ===== verification/Pr_Shown.thy ===== *)
theory Pr_Shown
  imports Pr_Tiers_Read
begin

text \<open>
  The tiers shown to customers, \<open>parseTiersFromExpr\<close> of \<open>features/pricing/lib/billing-expr.ts\<close>, are
  those that were edited: every label, condition and unit price.
\<close>

section \<open>The coefficients of a body\<close>

definition pricing_keys :: "string list" where
  "pricing_keys = map bv_key BILLING_PRICING_VARS"

lemma pricing_keys: "pricing_keys = [''p'', ''c'', ''cr'', ''cc'', ''cc1h'', ''img'', ''img_o'', ''ai'', ''ao'']"
  by code_simp

lemma pricing_keys_skip: "sorted_wrt skips pricing_keys"
  by code_simp

definition starred :: "(rx_state \<Rightarrow> 'r option) \<Rightarrow> bool" where
  "starred K \<longleftrightarrow> (\<forall>p c xs caps. \<not> is_ws c \<longrightarrow> c \<noteq> CHR ''*'' \<longrightarrow> K (p, c # xs, caps) = None)"

lemma text_skips:
  assumes "skips u v" "starred K"
  shows "rx_match (rx_text u) (prev, v @ rest, caps) K = None"
proof (cases "prefix u v")
  case True
  then obtain w where w: "v = u @ w" by (auto simp: prefix_def)
  with assms(1) True obtain c cs where "w = c # cs" "\<not> is_ws c" "c \<noteq> CHR ''*''" by (cases w) (auto simp: skips_def)
  then show ?thesis using assms(2) by (simp add: w match_text starred_def)
next
  case False
  then have "\<not> prefix u (v @ rest)" using assms(1) by (auto simp: skips_def prefix_append)
  then show ?thesis by (simp add: match_text)
qed

lemma match_key:
  assumes "\<forall>u \<in> set us. skips u v" "starred K" "K (after_text prev v, rest, caps) = Some y"
  shows "rx_match (rx_alts (map rx_text (us @ v # ws))) (prev, v @ rest, caps) K = Some y"
  using assms(1)
proof (induction us)
  case Nil
  then show ?case using assms(3) by (cases ws) (simp_all add: match_alts match_text coalesce_def)
next
  case (Cons u us)
  obtain r rs where r: "map rx_text (us @ v # ws) = r # rs" by (cases "map rx_text (us @ v # ws)") auto
  have "rx_match (rx_text u) (prev, v @ rest, caps) K = None" using Cons.prems assms(2) by (intro text_skips) simp_all
  with Cons r show ?case by (simp add: match_alts coalesce_def)
qed

lemma match_times:
  assumes "is_double x" "rest = [] \<or> \<not> numeral_char (hd rest)"
    and "k (Some (last (number_to_string (Fin x))), rest, caps(2 \<mapsto> number_to_string (Fin x))) = Some y"
  shows "rx_match (rx_seq [rx_spaces, rx_text ''*'', rx_spaces, rx_numeral 2]) (p, '' * '' @ number_to_string (Fin x) @ rest, caps) k = Some y"
  using match_cost [OF assms(1,2), of k caps 2 y "[]" p] assms(3)
  by (simp add: cost_items_def cost_part_def match_seq match_text after_text_def)

lemma starred_times: "starred (\<lambda>st. rx_match (rx_seq [rx_spaces, rx_text ''*'', rx_spaces, rx_numeral 2]) st k)"
  by (auto simp: starred_def match_seq spaces_none match_text)

lemma var_regex:
  "BILLING_VAR_REGEX = rx_seq (RxWordBoundary # RxGroup 1 (rx_alts (map rx_text pricing_keys)) #
     [rx_spaces, rx_text ''*'', rx_spaces, rx_numeral 2])"
  by (simp add: BILLING_VAR_REGEX_def pricing_keys_def comp_def)

definition cost_caps :: "string \<times> rat \<Rightarrow> nat \<Rightarrow> string option" where
  "cost_caps vx = no_captures(1 \<mapsto> fst vx, 2 \<mapsto> number_to_string (Fin (snd vx)))"

lemma match_boundary:
  "rx_match RxWordBoundary (prev, s, caps) k = (if at_word prev \<noteq> at_word (first_char s) then k (prev, s, caps) else None)"
  by (simp add: rx_match.simps)

lemma search_key:
  assumes "v \<in> set pricing_keys" "is_double x" "\<not> at_word prev" "rest = [] \<or> \<not> numeral_char (hd rest)"
  shows "rx_search BILLING_VAR_REGEX prev (cost_part v (Fin x) @ rest) =
    Some (Some (last (number_to_string (Fin x))), rest, cost_caps (v, x))"
proof -
  let ?n = "number_to_string (Fin x)" and ?t = "'' * '' @ number_to_string (Fin x) @ rest"
  obtain us ws where k: "pricing_keys = us @ v # ws" using assms(1) by (meson split_list)
  have us: "\<forall>u \<in> set us. skips u v" using pricing_keys_skip unfolding k by (simp add: sorted_wrt_append)
  let ?y = "(Some (last ?n), rest, cost_caps (v, x))"
  let ?K = "\<lambda>(p, s', c'). rx_match (rx_seq [rx_spaces, rx_text ''*'', rx_spaces, rx_numeral 2])
      (p, s', c'(1 \<mapsto> take (length (v @ ?t) - length s') (v @ ?t))) Some"
  have "starred ?K" using starred_times [of Some] by (simp add: starred_def)
  moreover have "?K (after_text prev v, ?t, no_captures) = Some ?y"
    using match_times [OF assms(2,4), of Some "no_captures(1 \<mapsto> v)" ?y] by (simp add: cost_caps_def)
  ultimately have "rx_match (rx_alts (map rx_text (us @ v # ws))) (prev, v @ ?t, no_captures) ?K = Some ?y"
    by (rule match_key [OF us])
  moreover have "at_word (first_char (v @ ?t))"
    using assms(1) by (auto simp: pricing_keys first_char_def at_word_def is_word_char_def is_lower_def)
  ultimately have "rx_match BILLING_VAR_REGEX (prev, v @ ?t, no_captures) Some = Some ?y"
    using assms(3) unfolding var_regex by (simp add: match_seq match_boundary match_group k)
  then show ?thesis by (subst rx_search.simps) (simp add: cost_part_def)
qed

lemma search_plus: "rx_search BILLING_VAR_REGEX p ('' + '' @ s) = rx_search BILLING_VAR_REGEX (Some CHR '' '') s"
proof -
  have "rx_search BILLING_VAR_REGEX p (d # xs) = rx_search BILLING_VAR_REGEX (Some d) xs" if "d \<in> set '' +''" for p d xs
  proof -
    have "rx_match (rx_alts (map rx_text pricing_keys)) (p, d # xs, caps) K = None" for caps and K :: "rx_state \<Rightarrow> rx_state option"
      using that by (auto simp: pricing_keys match_alts match_text)
    then have "rx_match BILLING_VAR_REGEX (p, d # xs, no_captures) Some = None"
      by (simp add: var_regex match_seq match_boundary match_group)
    then show ?thesis by (subst rx_search.simps) simp
  qed
  then show ?thesis by simp
qed

lemma search_key_empty: "rx_all BILLING_VAR_REGEX p [] = []"
proof -
  have "rx_match (rx_alts (map rx_text pricing_keys)) (p, [], caps) K = None" for caps and K :: "rx_state \<Rightarrow> rx_state option"
    by (simp add: pricing_keys match_alts match_text)
  then have "rx_search BILLING_VAR_REGEX p [] = None"
    by (subst rx_search.simps) (simp add: var_regex match_seq match_boundary match_group)
  then show ?thesis by (subst rx_all.simps) simp
qed

lemma all_costs:
  assumes "\<forall>(v, x) \<in> set vxs. v \<in> set pricing_keys \<and> is_double x" "vxs \<noteq> []"
  shows "rx_all BILLING_VAR_REGEX None (join '' + '' (map (\<lambda>(v, x). cost_part v (Fin x)) vxs)) = map cost_caps vxs"
proof -
  have "rx_all BILLING_VAR_REGEX None (join '' + '' (map (\<lambda>(v, x). cost_part v (Fin x)) vxs) @ []) = map cost_caps vxs"
  proof (rule all_items [where start = "\<lambda>p. \<not> at_word p" and follows = "\<lambda>r. r = [] \<or> \<not> numeral_char (hd r)" and sp = "Some CHR '' ''"])
    show "\<exists>p. rx_search BILLING_VAR_REGEX prev ((case vx of (v, x) \<Rightarrow> cost_part v (Fin x)) @ rest) = Some (p, rest, cost_caps vx)"
      if "vx \<in> set vxs" "\<not> at_word prev" "rest = [] \<or> \<not> numeral_char (hd rest)" for vx rest prev
    proof -
      obtain v x where vx: "vx = (v, x)" by (cases vx)
      then have "v \<in> set pricing_keys" "is_double x" using assms(1) that(1) by auto
      from search_key [OF this that(2,3)] show ?thesis by (simp add: vx)
    qed
    show "(case vx of (v, x) \<Rightarrow> cost_part v (Fin x)) \<noteq> []" for vx by (cases vx) (simp add: cost_part_def)
    show "rx_search BILLING_VAR_REGEX p ('' + '' @ s) = rx_search BILLING_VAR_REGEX (Some CHR '' '') s" for p s
      by (rule search_plus)
    show "\<not> at_word (Some CHR '' '')" "\<not> at_word None"
      by (simp_all add: at_word_def is_word_char_def is_digit_def is_lower_def is_upper_def)
    show "'' + '' @ s = [] \<or> \<not> numeral_char (hd ('' + '' @ s))" for s
      by (simp add: numeral_char_def is_digit_def)
    show "rx_all BILLING_VAR_REGEX p [] = []" for p by (rule search_key_empty)
  qed (use assms(2) in simp_all)
  then show ?thesis by simp
qed

section \<open>The prices of a tier\<close>

definition body_costs :: "VisualTier \<Rightarrow> (string \<times> jsnum) list" where
  "body_costs t = (''p'', or_zero (Some (vt_input_unit_cost t))) # (''c'', or_zero (Some (vt_output_unit_cost t))) #
     filter (\<lambda>(v, n). n \<noteq> Fin 0) (tier_costs t)"

lemma body_join: "buildTierBodyExpr t = join '' + '' (map (\<lambda>(v, n). cost_part v n) (body_costs t))"
proof -
  have "concat (map (\<lambda>(exprVar, field). let v = or_zero (tier_field t field) in if v \<noteq> Fin 0 then [cost_part exprVar v] else []) cvs) =
      map (\<lambda>(v, n). cost_part v n) (filter (\<lambda>(v, n). n \<noteq> Fin 0) (map (\<lambda>(v, f). (v, or_zero (tier_field t f))) cvs))" for cvs
    by (induction cvs) (auto simp: Let_def)
  then show ?thesis by (simp add: buildTierBodyExpr_def body_costs_def tier_costs_def Let_def)
qed

lemma body_costs_normal:
  assumes "normal_costs t"
  shows "\<forall>(v, n) \<in> set (body_costs t). v \<in> set pricing_keys \<and> normal_cost n"
proof -
  have p: "''p'' \<in> set pricing_keys" "''c'' \<in> set pricing_keys" by (simp_all add: pricing_keys)
  have "set (map fst BILLING_CACHE_VAR_MAP) \<subseteq> set pricing_keys" by code_simp
  moreover have "fst ` set (tier_costs t) = set (map fst BILLING_CACHE_VAR_MAP)"
    using tier_costs_vars [of t] by (metis list.set_map)
  moreover have "\<forall>(v, n) \<in> set (tier_costs t). normal_cost n"
    using tier_costs_normal [OF assms] by (auto simp: list_all_iff normal_cost_def)
  ultimately have "v \<in> set pricing_keys \<and> normal_cost n" if "(v, n) \<in> set (tier_costs t)" for v n
    using that by (metis (mono_tags, lifting) case_prodD fst_conv image_eqI subsetD)
  then show ?thesis
    using assms p by (auto simp: body_costs_def normal_costs_iff or_zero_normal)
qed

definition fin_of :: "jsnum \<Rightarrow> rat" where
  "fin_of n = (case n of Fin x \<Rightarrow> x | _ \<Rightarrow> 0)"

lemma fin_of: "normal_cost n \<Longrightarrow> Fin (fin_of n) = n \<and> is_double (fin_of n)"
  by (cases n) (simp_all add: normal_cost_def fin_of_def)

lemma coefficients_read:
  assumes "\<forall>(v, n) \<in> set vns. v \<in> set pricing_keys \<and> normal_cost n" "vns \<noteq> []"
  shows "map (\<lambda>m. (capture m 1, string_to_number (capture m 2)))
    (rx_all BILLING_VAR_REGEX None (join '' + '' (map (\<lambda>(v, n). cost_part v n) vns))) = vns"
proof -
  let ?vxs = "map (\<lambda>(v, n). (v, fin_of n)) vns"
  have "map (\<lambda>(v, n). cost_part v n) vns = map (\<lambda>(v, x). cost_part v (Fin x)) ?vxs"
    using assms(1) fin_of by (fastforce simp: comp_def)
  moreover have "rx_all BILLING_VAR_REGEX None (join '' + '' (map (\<lambda>(v, x). cost_part v (Fin x)) ?vxs)) = map cost_caps ?vxs"
    by (rule all_costs) (use assms fin_of in fastforce)+
  moreover have "(capture (cost_caps (v, fin_of n)) 1, string_to_number (capture (cost_caps (v, fin_of n)) 2)) = (v, n)"
    if "(v, n) \<in> set vns" for v n
    using assms(1) that fin_of [of n] number_reads_back [of "fin_of n"] by (auto simp: cost_caps_def capture_def)
  ultimately show ?thesis by (simp only: map_map comp_def) (rule map_idI, auto)
qed

lemma body_coefficients:
  assumes "normal_costs t"
  shows "map (\<lambda>m. (capture m 1, string_to_number (capture m 2))) (rx_all BILLING_VAR_REGEX None (buildTierBodyExpr t)) = body_costs t"
  unfolding body_join by (rule coefficients_read [OF body_costs_normal [OF assms]]) (simp add: body_costs_def)

definition shown_prices :: "VisualTier \<Rightarrow> (string \<times> jsnum) list" where
  "shown_prices t =
     [(''inputPrice'', vt_input_unit_cost t), (''outputPrice'', vt_output_unit_cost t),
      (''cacheReadPrice'', or_zero (vt_cache_read_unit_cost t)),
      (''cacheCreatePrice'', or_zero (vt_cache_create_unit_cost t)),
      (''cacheCreate1hPrice'', or_zero (vt_cache_create_1h_unit_cost t)),
      (''imagePrice'', or_zero (vt_image_unit_cost t)), (''imageOutputPrice'', or_zero (vt_image_output_unit_cost t)),
      (''audioInputPrice'', or_zero (vt_audio_input_unit_cost t)),
      (''audioOutputPrice'', or_zero (vt_audio_output_unit_cost t))]"

lemma map_of_nonzero:
  "distinct (map fst xs) \<Longrightarrow> map_of (filter (\<lambda>(v, n). n \<noteq> Fin 0) xs) v = Option.bind (map_of xs v) given"
proof (induction xs)
  case (Cons x xs)
  have "map_of xs (fst x) = None" using Cons.prems by (simp add: map_of_eq_None_iff)
  with Cons show ?case by (cases x) (auto simp: given_def)
qed simp

lemma tier_costs_list:
  "tier_costs t =
     [(''cr'', or_zero (vt_cache_read_unit_cost t)), (''cc'', or_zero (vt_cache_create_unit_cost t)),
      (''cc1h'', or_zero (vt_cache_create_1h_unit_cost t)), (''img'', or_zero (vt_image_unit_cost t)),
      (''img_o'', or_zero (vt_image_output_unit_cost t)), (''ai'', or_zero (vt_audio_input_unit_cost t)),
      (''ao'', or_zero (vt_audio_output_unit_cost t))]"
  by (simp add: tier_costs_def cache_map tier_field_def)

lemma key_fields:
  "BILLING_VAR_KEY_TO_FIELD =
     [(''p'', ''inputPrice''), (''c'', ''outputPrice''), (''cr'', ''cacheReadPrice''), (''cc'', ''cacheCreatePrice''),
      (''cc1h'', ''cacheCreate1hPrice''), (''img'', ''imagePrice''), (''img_o'', ''imageOutputPrice''),
      (''ai'', ''audioInputPrice''), (''ao'', ''audioOutputPrice'')]"
  by code_simp

lemma shown_body:
  assumes "normal_costs t"
  shows "parseTierBody (buildTierBodyExpr t) = shown_prices t"
proof -
  have n: "normal_cost (or_zero (vt_cache_read_unit_cost t))" "normal_cost (or_zero (vt_cache_create_unit_cost t))"
    "normal_cost (or_zero (vt_cache_create_1h_unit_cost t))" "normal_cost (or_zero (vt_image_unit_cost t))"
    "normal_cost (or_zero (vt_image_output_unit_cost t))" "normal_cost (or_zero (vt_audio_input_unit_cost t))"
    "normal_cost (or_zero (vt_audio_output_unit_cost t))"
    using tier_costs_normal [OF assms] by (auto simp: tier_costs_list normal_cost_def)
  have io: "normal_cost (vt_input_unit_cost t)" "normal_cost (vt_output_unit_cost t)"
    using assms by (simp_all add: normal_costs_iff)
  have d: "distinct (map fst (tier_costs t))" by (simp add: tier_costs_list)
  have m: "map_of (body_costs t) v =
      (if v = ''p'' then Some (vt_input_unit_cost t) else if v = ''c'' then Some (vt_output_unit_cost t)
       else Option.bind (map_of (tier_costs t) v) given)" for v
    using map_of_nonzero [OF d] io by (simp add: body_costs_def or_zero_normal)
  show ?thesis
    unfolding parseTierBody_def Let_def body_coefficients [OF assms] m key_fields shown_prices_def
    using n io by (simp add: tier_costs_list or_zero_given or_zero_normal)
qed

section \<open>The tiers of an expression\<close>

definition shown_tier :: "VisualTier \<Rightarrow> ParsedTier" where
  "shown_tier t = \<lparr>pa_label = vt_label t, pa_conditions = vt_conditions t, pa_prices = shown_prices t\<rparr>"

lemma shown_tiers_of:
  assumes "normal_config cfg"
  shows "parseTiersFromExpr (generateExprFromVisualConfig (Some cfg)) = map shown_tier (vc_tiers cfg)"
proof -
  let ?e = "generateExprFromVisualConfig (Some cfg)" and ?ts = "vc_tiers cfg"
  have n: "\<forall>t \<in> set ?ts. normal_tier t" "?ts \<noteq> []" using assms by (simp_all add: normal_config_def list_all_iff)
  obtain d ds where e: "?e = d # ds" "d \<in> set ''pclt''" using config_text_hd [OF assms] by metis
  then have v: "stripExprVersion ?e = (Fin 1, ?e)" using version_absent [of d ds] by (auto simp: stripExprVersion_def)
  have "rx_all shown_tier_pattern None ?e =
      map (\<lambda>(l, t). (front_caps t)(2 \<mapsto> l, 3 \<mapsto> buildTierBodyExpr t)) (map (\<lambda>t. (vt_label t, t)) ?ts)"
    unfolding tier_patterns config_text [OF assms]
    by (rule shown.all_parts) (use n shown.no_tier_left in \<open>auto simp: normal_tier_def zero_tail_def\<close>)
  moreover have "\<lparr>pa_label = capture m 2, pa_conditions = parse_tier_conditions (case m 1 of Some s \<Rightarrow> s | None \<Rightarrow> []),
      pa_prices = parseTierBody (capture m 3)\<rparr> = shown_tier t"
    if "normal_tier t" "m = (front_caps t)(2 \<mapsto> vt_label t, 3 \<mapsto> buildTierBodyExpr t)" for t m
    using parse_conditions_of [of "vt_conditions t"] that shown_body [of t]
    by (auto simp: shown_tier_def front_caps_def no_captures_def normal_tier_def capture_def split: if_splits)
  ultimately show ?thesis using n(1) v e(1) by (simp add: parseTiersFromExpr_def comp_def)
qed



end
