(* ===== verification/Pr_Dynamic.thy ===== *)
theory Pr_Dynamic
  imports Pr_Shown Wl_Amount
begin

text \<open>
  Dynamic prices of a model, \<open>features/pricing/lib/dynamic-price.ts\<close>: which tiers, rules and unit
  prices the price pages show for the billing expression of a model. The text of an amount is made
  by the formatter of the platform; an entry holds the amount that is handed to it.
\<close>

section \<open>Models and options\<close>

record PricingModel =
  pm_enable_groups :: "string list"
  pm_group_ratio :: "(string \<times> jsnum) list option"
  pm_billing_mode :: "string option"
  pm_billing_expr :: "string option"

datatype TokenUnit = UnitM | UnitK

record DynamicPriceOptions =
  do_tokenUnit :: TokenUnit
  do_showRechargePrice :: "bool option"
  do_priceRate :: "jsnum option"
  do_usdExchangeRate :: "jsnum option"
  do_groupRatioMultiplier :: "jsnum option"

record DynamicPriceEntry =
  de_key :: string
  de_field :: string
  de_label :: string
  de_shortLabel :: string
  de_value :: jsnum
  de_price :: jsnum

record DynamicPricingSummary =
  ds_tiers :: "ParsedTier list"
  ds_tier :: "ParsedTier option"
  ds_tierCount :: nat
  ds_hasRequestRules :: bool
  ds_isSpecialExpression :: bool
  ds_rawExpression :: string
  ds_entries :: "DynamicPriceEntry list"
  ds_primaryEntries :: "DynamicPriceEntry list"
  ds_secondaryEntries :: "DynamicPriceEntry list"

definition PRIMARY_DYNAMIC_FIELDS :: "string list" where
  "PRIMARY_DYNAMIC_FIELDS = [''inputPrice'', ''outputPrice'']"

definition TOKEN_UNIT_DIVISORS :: "TokenUnit \<Rightarrow> jsnum" where
  "TOKEN_UNIT_DIVISORS u = (case u of UnitM \<Rightarrow> Fin 1 | UnitK \<Rightarrow> Fin 1000)"

section \<open>Operations\<close>

definition isDynamicPricingModel :: "PricingModel \<Rightarrow> bool" where
  "isDynamicPricingModel model \<longleftrightarrow>
     pm_billing_mode model = Some ''tiered_expr'' \<and> truthy_str (pm_billing_expr model)"

fun min_ratio :: "(string \<times> jsnum) list \<Rightarrow> jsnum \<Rightarrow> string list \<Rightarrow> jsnum" where
  "min_ratio ratios minRatio [] = minRatio"
| "min_ratio ratios minRatio (grp # groups) =
     min_ratio ratios (case map_of ratios grp of
         Some ratio \<Rightarrow> if js_less ratio minRatio then ratio else minRatio
       | None \<Rightarrow> minRatio) groups"

definition getDynamicDisplayGroupRatio :: "PricingModel \<Rightarrow> jsnum" where
  "getDynamicDisplayGroupRatio model =
     (let groups = pm_enable_groups model;
          ratios = (case pm_group_ratio model of Some r \<Rightarrow> r | None \<Rightarrow> [])
      in if groups = [] then Fin 1
         else let minRatio = min_ratio ratios PosInf groups
              in if minRatio = PosInf then Fin 1 else minRatio)"

definition applyRechargeRate :: "jsnum \<Rightarrow> bool \<Rightarrow> jsnum \<Rightarrow> jsnum \<Rightarrow> jsnum" where
  "applyRechargeRate price showWithRecharge priceRate usdExchangeRate =
     (if \<not> showWithRecharge then price else js_div (js_mul price priceRate) usdExchangeRate)"

definition or_one :: "jsnum option \<Rightarrow> jsnum" where
  "or_one x = (case x of Some n \<Rightarrow> n | None \<Rightarrow> Fin 1)"

text \<open>The amount that \<open>formatDynamicUnitPrice\<close> formats.\<close>

definition dynamic_unit_price :: "jsnum \<Rightarrow> DynamicPriceOptions \<Rightarrow> jsnum" where
  "dynamic_unit_price valuePerMillionTokens options =
     (let groupRatio = or_one (do_groupRatioMultiplier options);
          priceRate = or_one (do_priceRate options);
          usdExchangeRate = or_one (do_usdExchangeRate options);
          priceUSD = js_div (js_mul valuePerMillionTokens groupRatio) (TOKEN_UNIT_DIVISORS (do_tokenUnit options))
      in applyRechargeRate priceUSD (do_showRechargePrice options = Some True) priceRate usdExchangeRate)"

definition model_expr :: "PricingModel \<Rightarrow> string" where
  "model_expr model = or_opt (pm_billing_expr model) []"

definition getDynamicPricingTiers :: "PricingModel \<Rightarrow> js_error + ParsedTier list" where
  "getDynamicPricingTiers model =
     (if \<not> isDynamicPricingModel model then Inr []
      else case splitBillingExprAndRequestRules (model_expr model) of
        Inl e \<Rightarrow> Inl e
      | Inr (billingExpr, _) \<Rightarrow> Inr (parseTiersFromExpr billingExpr))"

definition hasDynamicRequestRules :: "PricingModel \<Rightarrow> js_error + bool" where
  "hasDynamicRequestRules model =
     (if \<not> isDynamicPricingModel model then Inr False
      else case splitBillingExprAndRequestRules (model_expr model) of
        Inl e \<Rightarrow> Inl e
      | Inr (_, requestRuleExpr) \<Rightarrow>
          (case tryParseRequestRuleExpr requestRuleExpr of
             Inl e \<Rightarrow> Inl e
           | Inr None \<Rightarrow> Inr False
           | Inr (Some groups) \<Rightarrow> Inr (groups \<noteq> [])))"

definition price_entry :: "DynamicPriceOptions \<Rightarrow> ParsedTier \<Rightarrow> BillingVar \<Rightarrow> DynamicPriceEntry list" where
  "price_entry options tier variable =
     (case bv_field variable of
        None \<Rightarrow> []
      | Some field \<Rightarrow>
          (let n = opt_number (map_of (pa_prices tier) field)
           in if \<not> is_finite n \<or> js_leq n (Fin 0) then []
              else [\<lparr>de_key = bv_key variable, de_field = field, de_label = bv_label variable,
                     de_shortLabel = bv_shortLabel variable, de_value = n, de_price = dynamic_unit_price n options\<rparr>]))"

text \<open>The sort is stable: it moves the primary entries in front.\<close>

definition is_primary :: "DynamicPriceEntry \<Rightarrow> bool" where
  "is_primary e \<longleftrightarrow> de_field e \<in> set PRIMARY_DYNAMIC_FIELDS"

definition getDynamicPriceEntries :: "ParsedTier option \<Rightarrow> DynamicPriceOptions \<Rightarrow> DynamicPriceEntry list" where
  "getDynamicPriceEntries tier options =
     (case tier of
        None \<Rightarrow> []
      | Some t \<Rightarrow> sort_key (\<lambda>e. if is_primary e then 0 else 1 :: nat)
          (concat (map (price_entry options t) BILLING_PRICING_VARS)))"

definition getDynamicPricingSummary :: "PricingModel \<Rightarrow> DynamicPriceOptions \<Rightarrow> js_error + DynamicPricingSummary option" where
  "getDynamicPricingSummary model options =
     (if \<not> isDynamicPricingModel model then Inr None
      else case getDynamicPricingTiers model of
        Inl e \<Rightarrow> Inl e
      | Inr tiers \<Rightarrow>
         (let tier = (case tiers of [] \<Rightarrow> None | t # _ \<Rightarrow> Some t);
              entries = getDynamicPriceEntries tier options;
              rawExpression = model_expr model
          in case hasDynamicRequestRules model of
               Inl e \<Rightarrow> Inl e
             | Inr hasRules \<Rightarrow>
                 Inr (Some \<lparr>ds_tiers = tiers, ds_tier = tier, ds_tierCount = length tiers, ds_hasRequestRules = hasRules,
                   ds_isSpecialExpression = (trim rawExpression \<noteq> [] \<and> tiers = []), ds_rawExpression = rawExpression,
                   ds_entries = entries, ds_primaryEntries = filter is_primary entries,
                   ds_secondaryEntries = filter (\<lambda>e. \<not> is_primary e) entries\<rparr>)))"

section \<open>The order of the entries\<close>

lemma sort_primary:
  "sort_key (\<lambda>e. if P e then 0 else 1 :: nat) xs = filter P xs @ filter (\<lambda>e. \<not> P e) xs"
proof (induction xs)
  case (Cons x xs)
  let ?f = "\<lambda>e. if P e then 0 else 1 :: nat"
  have first: "insort_key ?f x ys = x # ys" if "P x" for ys using that by (cases ys) simp_all
  have last: "insort_key ?f x (ps @ qs) = ps @ x # qs" if "\<not> P x" "list_all P ps" "list_all (\<lambda>e. \<not> P e) qs" for ps qs
    using that by (induction ps; cases qs) simp_all
  show ?case
    using Cons.IH first last [of "filter P xs" "filter (\<lambda>e. \<not> P e) xs"] by (simp add: list_all_iff)
qed simp

lemma entries_in_order:
  "getDynamicPriceEntries tier options =
     filter is_primary (getDynamicPriceEntries tier options) @ filter (\<lambda>e. \<not> is_primary e) (getDynamicPriceEntries tier options)"
  by (cases tier) (simp_all add: getDynamicPriceEntries_def sort_primary)

lemma price_entryD:
  assumes "e \<in> set (price_entry options t v)"
  shows "is_finite (de_value e)" "\<not> js_leq (de_value e) (Fin 0)"
    "de_value e = opt_number (map_of (pa_prices t) (de_field e))" "de_price e = dynamic_unit_price (de_value e) options"
  using assms by (auto simp: price_entry_def Let_def split: option.splits if_splits)

lemma entries_positive:
  assumes "e \<in> set (getDynamicPriceEntries (Some t) options)"
  shows "\<exists>x. de_value e = Fin x \<and> 0 < x" "map_of (pa_prices t) (de_field e) = Some (de_value e)"
    "de_price e = dynamic_unit_price (de_value e) options"
proof -
  obtain v where e: "e \<in> set (price_entry options t v)"
    using assms by (auto simp: getDynamicPriceEntries_def)
  note d = price_entryD [OF e]
  show "\<exists>x. de_value e = Fin x \<and> 0 < x"
    using d(1,2) by (cases "de_value e") (auto simp: is_finite_def js_leq_def js_num_eq_def)
  show "map_of (pa_prices t) (de_field e) = Some (de_value e)"
    using d(1,3) by (cases "map_of (pa_prices t) (de_field e)") (simp_all add: opt_number_def is_finite_def)
  show "de_price e = dynamic_unit_price (de_value e) options" by (rule d(4))
qed

section \<open>A generated expression has matching parentheses\<close>

definition plain_label :: "string \<Rightarrow> bool" where
  "plain_label l \<longleftrightarrow> CHR ''('' \<notin> set l \<and> CHR '')'' \<notin> set l"

lemma plain_balanced: "plain_label l \<Longrightarrow> balanced l"
  by (rule balanced_flat) (auto simp: plain_label_def list_all_iff)

lemma tier_call_balanced:
  assumes "plain_label l" "normal_costs t"
  shows "balanced (tier_call l t)"
proof -
  have "balanced (dquote @ l @ dquote @ '', '' @ buildTierBodyExpr t)"
    using plain_balanced [OF assms(1)] flat_balanced [OF body_flat [OF assms(2)]]
    by (intro balanced_append) (simp_all add: dquote_def)
  from balanced_wrap [OF this, of "[]"] show ?thesis
    by (simp add: tier_call_def)
qed

lemma condition_balanced:
  assumes "normal_tier_condition c"
  shows "balanced (tier_condition_text c)"
proof -
  obtain x where x: "tc_value c = ValNum (Fin x)" "is_double x" using normal_conditionE [OF assms] by metis
  have "balanced (number_to_string (Fin x))"
    using number_chars(1) [OF x(2)] flat_chars(2) by (intro flat_balanced) (auto simp: list_all_iff)
  moreover have "balanced (tc_var c)" "balanced (tc_op c)"
    using assms by (auto simp: normal_tier_condition_def)
  ultimately show ?thesis
    unfolding tier_condition_text_def x(1) value_text_def by (intro balanced_append) simp_all
qed

lemma part_balanced:
  assumes "normal_tier t" "plain_label (vt_label t)"
  shows "balanced (tier_part (vt_label t) t)"
proof -
  have "balanced (conditions_of (vt_conditions t))"
    unfolding conditions_of_def using assms(1) condition_balanced
    by (intro join_balanced) (auto simp: list_all_iff normal_tier_def)
  then show ?thesis
    unfolding tier_part_def using assms tier_call_balanced by (auto simp: normal_tier_def intro!: balanced_append)
qed

definition plain_config :: "VisualConfig \<Rightarrow> bool" where
  "plain_config cfg \<longleftrightarrow> normal_config cfg \<and> list_all (\<lambda>t. plain_label (vt_label t)) (vc_tiers cfg)"

lemma config_balanced:
  assumes "plain_config cfg"
  shows "balanced (generateExprFromVisualConfig (Some cfg))"
proof -
  have n: "normal_config cfg" using assms by (simp add: plain_config_def)
  have "list_all balanced (map (\<lambda>(l, t). tier_part l t) (map (\<lambda>t. (vt_label t, t)) (vc_tiers cfg)))"
    using assms part_balanced by (auto simp: plain_config_def normal_config_def list_all_iff)
  then show ?thesis
    unfolding config_text [OF n] by (intro balanced_append join_balanced) (simp_all add: zero_tail_def)
qed

lemma config_last:
  assumes "normal_config cfg"
  shows "\<exists>s c. generateExprFromVisualConfig (Some cfg) = s @ [c] \<and> c \<in> set '')0''"
proof -
  have part: "\<exists>s. tier_part l t = s @ '')''" for l t by (simp add: tier_part_def tier_call_def)
  obtain ts t where ts: "vc_tiers cfg = ts @ [t]"
    using assms by (cases "vc_tiers cfg" rule: rev_cases) (auto simp: normal_config_def)
  have "\<exists>r. join '' : '' (map (\<lambda>(l, t). tier_part l t) (map (\<lambda>t. (vt_label t, t)) (ts @ [t]))) = r @ tier_part (vt_label t) t" for ts
  proof (induction ts)
    case (Cons u us)
    then show ?case by (auto simp: join_Cons)
  qed simp
  with part obtain s where "join '' : '' (map (\<lambda>(l, t). tier_part l t) (map (\<lambda>t. (vt_label t, t)) (vc_tiers cfg))) = s @ '')''"
    unfolding ts by (metis append.assoc)
  then show ?thesis unfolding config_text [OF assms] by (auto simp: zero_tail_def)
qed

lemma config_edges:
  assumes "normal_config cfg"
  shows "generateExprFromVisualConfig (Some cfg) \<noteq> []"
    "trim (generateExprFromVisualConfig (Some cfg)) = generateExprFromVisualConfig (Some cfg)"
    "\<not> suffix '' : 1'' (generateExprFromVisualConfig (Some cfg))"
    "unwrapOuterParens (generateExprFromVisualConfig (Some cfg)) = generateExprFromVisualConfig (Some cfg)"
proof -
  let ?e = "generateExprFromVisualConfig (Some cfg)"
  obtain d ds where d: "?e = d # ds" "d \<in> set ''pclt''" using config_text_hd [OF assms] by metis
  obtain s c where c: "?e = s @ [c]" "c \<in> set '')0''" using config_last [OF assms] by blast
  have ws: "\<not> is_ws d" "\<not> is_ws c" "d \<noteq> CHR ''(''" using d(2) c(2) by (auto simp: is_ws_def)
  show "?e \<noteq> []" using d by simp
  have "hd ?e = d" "last ?e = c" using d(1) c(1) by (metis list.sel(1), metis last_snoc)
  then show t: "trim ?e = ?e" using ws by (intro trim_fixed) simp
  have "c = CHR ''1''" if "suffix '' : 1'' ?e"
    using that \<open>last ?e = c\<close> by (auto simp: suffix_def)
  then show "\<not> suffix '' : 1'' ?e" using c(2) by auto
  have "\<not> hasFullOuterParens ?e" using d(1) ws(3) by (simp add: hasFullOuterParens_def)
  then show "unwrapOuterParens ?e = ?e" unfolding unwrapOuterParens_def t by (subst unwrap_parens.simps) simp
qed

section \<open>From the editor to the customer and back\<close>

definition published_model :: "VisualConfig \<Rightarrow> RequestRuleGroup list \<Rightarrow> PricingModel" where
  "published_model cfg gs =
     \<lparr>pm_enable_groups = [], pm_group_ratio = None, pm_billing_mode = Some ''tiered_expr'',
      pm_billing_expr = Some (combineBillingExpr (generateExprFromVisualConfig (Some cfg)) (buildRequestRuleExpr gs))\<rparr>"

lemma published_split:
  assumes "plain_config cfg" "list_all normal_group gs" "gs \<noteq> []"
  shows "splitBillingExprAndRequestRules (model_expr (published_model cfg gs)) =
    Inr (generateExprFromVisualConfig (Some cfg), buildRequestRuleExpr gs)"
    "isDynamicPricingModel (published_model cfg gs)"
proof -
  have n: "normal_config cfg" using assms(1) by (simp add: plain_config_def)
  note e = config_edges [OF n]
  show "splitBillingExprAndRequestRules (model_expr (published_model cfg gs)) =
    Inr (generateExprFromVisualConfig (Some cfg), buildRequestRuleExpr gs)"
    using split_combined [OF assms(2,3) e(1,2) config_balanced [OF assms(1)] e(3)] e(4)
    by (simp add: model_expr_def published_model_def or_opt_def or_str_def split: if_splits)
  show "isDynamicPricingModel (published_model cfg gs)"
    using e(1,2) by (simp add: isDynamicPricingModel_def published_model_def truthy_str_def combineBillingExpr_def Let_def)
qed

lemma published_tiers:
  assumes "plain_config cfg" "list_all normal_group gs" "gs \<noteq> []"
  shows "getDynamicPricingTiers (published_model cfg gs) = Inr (map shown_tier (vc_tiers cfg))"
    "hasDynamicRequestRules (published_model cfg gs) = Inr True"
  using published_split [OF assms] shown_tiers_of [of cfg] rules_read_back [OF assms(2)] assms(1,3)
  by (simp_all add: getDynamicPricingTiers_def hasDynamicRequestRules_def plain_config_def)


lemma sample_config_plain: "plain_config sample_config"
  using sample_config_normal
  by (simp add: plain_config_def sample_config_def sample_tier_def plain_label_def)



definition sample_options :: DynamicPriceOptions where
  "sample_options = \<lparr>do_tokenUnit = UnitK, do_showRechargePrice = None, do_priceRate = None,
     do_usdExchangeRate = None, do_groupRatioMultiplier = None\<rparr>"


section \<open>The displayed group ratio\<close>

definition ratio_like :: "jsnum \<Rightarrow> bool" where
  "ratio_like n \<longleftrightarrow> n \<noteq> NaN \<and> n \<noteq> NegInf"

lemma js_leq_total: "ratio_like a \<Longrightarrow> ratio_like b \<Longrightarrow> js_less a b \<or> js_leq b a"
  by (cases a; cases b) (auto simp: js_leq_def js_num_eq_def ratio_like_def)

lemma js_leq_refl: "ratio_like a \<Longrightarrow> js_leq a a"
  by (simp add: js_leq_def js_num_eq_def ratio_like_def)

lemma min_ratio_bound:
  assumes "\<forall>g r. map_of ratios g = Some r \<longrightarrow> ratio_like r" "ratio_like m"
  shows "js_leq (min_ratio ratios m groups) m
    \<and> (\<forall>g \<in> set groups. \<forall>r. map_of ratios g = Some r \<longrightarrow> js_leq (min_ratio ratios m groups) r)"
  using assms(2)
proof (induction groups arbitrary: m)
  case Nil
  then show ?case by (simp add: js_leq_refl)
next
  case (Cons g groups)
  define m' where "m' = (case map_of ratios g of Some ratio \<Rightarrow> if js_less ratio m then ratio else m | None \<Rightarrow> m)"
  have r: "ratio_like m'" using assms(1) Cons.prems by (simp add: m'_def split: option.split)
  have le: "js_leq m' m" using js_leq_refl [OF Cons.prems] by (auto simp: m'_def js_leq_def split: option.split)
  have own: "js_leq m' r" if "map_of ratios g = Some r" for r
    using that assms(1) Cons.prems js_leq_total [of r m] js_leq_refl [of r] by (auto simp: m'_def)
  have "min_ratio ratios m (g # groups) = min_ratio ratios m' groups" by (simp add: m'_def)
  moreover note IH = Cons.IH [OF r]
  ultimately show ?case using js_leq_trans [OF conjunct1 [OF IH]] le own IH by (simp del: min_ratio.simps)
qed

lemma display_ratio_least:
  assumes "\<forall>g r. map_of (case pm_group_ratio model of Some r \<Rightarrow> r | None \<Rightarrow> []) g = Some r \<longrightarrow> ratio_like r"
    and "g \<in> set (pm_enable_groups model)"
    and "map_of (case pm_group_ratio model of Some r \<Rightarrow> r | None \<Rightarrow> []) g = Some (Fin x)"
  shows "js_leq (getDynamicDisplayGroupRatio model) (Fin x)"
proof -
  let ?m = "min_ratio (case pm_group_ratio model of Some r \<Rightarrow> r | None \<Rightarrow> []) PosInf (pm_enable_groups model)"
  have "ratio_like PosInf" by (simp add: ratio_like_def)
  then have "js_leq ?m (Fin x)" using min_ratio_bound [OF assms(1)] assms(2,3) by blast
  moreover from this have "?m \<noteq> PosInf" by (auto simp: js_leq_def js_num_eq_def)
  moreover have "pm_enable_groups model \<noteq> []" using assms(2) by auto
  ultimately show ?thesis by (simp add: getDynamicDisplayGroupRatio_def Let_def)
qed

end
