(* ===== verification/Spec2Isabelle.thy ===== *)
theory Spec2Isabelle
  imports Pg_Session Wl_Wallet Pr_Dynamic
begin

text \<open>
  \<^bold>\<open>A verification of three features of the XY API console\<close> (\<open>src/web/default/src\<close>):
  the playground, in which a user chats with a model, the wallet, in which a user pays for
  credit, and the prices, which an administrator writes as expressions and customers read. They
  are front ends of a gateway server; the server is outside this development and appears as the
  replies it may give.

  \<^bold>\<open>Language.\<close> \<open>Js_Prelude\<close>, \<open>Js_Text\<close>, \<open>Js_Number\<close>, \<open>Js_Rounding\<close>, \<open>Js_Value\<close>,
  \<open>Js_Json\<close> and \<open>Js_Regexp\<close> hold what the source uses of the language and its standard library. A string is a
  list of Latin-1 code units; a number is a rational with binary64 rounding, an infinity or not a
  number (the sign of zero is not kept); a value of unknown type is a tree (\<open>jsval\<close>);
  \<open>JSON.parse\<close> undoes \<open>JSON.stringify\<close>. An optional field is an option, a thrown value is the left
  side of a sum. The JSON parser is given the length of its text as fuel, which is enough because
  each call reads a character. A regular expression is a term of the constructions the source
  uses; its matcher backtracks in the order of the language standard, and always ends.

  \<^bold>\<open>Callbacks and time.\<close> A hook is a record of its states and refs. An asynchronous callback is
  split at its \<open>await\<close>: the part before it (\<open>begin...\<close>) records the request, the part after it
  (\<open>end...\<close>) takes the reply. Step relations let requests, replies, timers and the user interleave
  freely. Clocks, generated identifiers and translations are arguments.

  \<^bold>\<open>Playground\<close> (\<open>features/playground\<close>).
  \<^item> \<open>Pg_Message\<close>: messages and their versions, \<open>lib/message/message-utils.ts\<close>.
  \<^item> \<open>Pg_Reasoning\<close>: the parser of think tags, which inverts tagging and is characterised on
    every text.
  \<^item> \<open>Pg_Streaming\<close>: chunks, timing, completion, errors and the repair of messages on load
    (\<open>message-streaming-utils.ts\<close>, \<open>message-timing-utils.ts\<close>, \<open>message-update-utils.ts\<close>). The
    locale \<open>message_update\<close> states what every update of the last reply keeps.
  \<^item> \<open>Pg_Conversation\<close>: sending, regenerating, editing and deleting.
  \<^item> \<open>Pg_Payload\<close>: the request, the stream events, view state and input controls.
  \<^item> \<open>Pg_Chat\<close>: \<open>use-chat-handler.ts\<close> and \<open>use-stream-request.ts\<close> as a step relation; batching
    keeps the text, stopping and finishing are final, errors stick.
  \<^item> \<open>Pg_Codec\<close>, \<open>Pg_Storage\<close>: schemas and persistence (\<open>lib/storage\<close>), with round trips and
    bounds. The schema library is a parameter with its documented law; \<open>localStorage\<close> is a map
    that may refuse a write, behind the locale \<open>kv_store\<close>.
  \<^item> \<open>Pg_Session\<close>: the page's hooks, their wiring to the chat handler, and the proof that a
    conversation survives leaving and reloading the page.

  \<^bold>\<open>Wallet\<close> (\<open>features/wallet\<close>).
  \<^item> \<open>Wl_Method\<close>: routes, public names and the choice of routes for a browser (\<open>lib/payment.ts\<close>);
    the locale \<open>text_normalizer\<close> states that a normaliser yields its class and is stable.
  \<^item> \<open>Wl_Safety\<close>: where the page may be sent, QR contents, in-app parameters and error texts. The
    URL parser is a parameter, without hypotheses.
  \<^item> \<open>Wl_Amount\<close>: limits, presets, the status of an order and formatting.
  \<^item> \<open>Wl_Api\<close>: what \<open>api.ts\<close> makes of quotes, orders and billing records.
  \<^item> \<open>Wl_Topup\<close>: \<open>use-topup-info.ts\<close>, whose result has the declared form for every body.
  \<^item> \<open>Wl_Quote\<close>: \<open>use-payment.ts\<close>; the locale \<open>latest_request\<close> shows that only the latest request
    counts, and the quote shown always answers the last question.
  \<^item> \<open>Wl_Order\<close>: \<open>use-payment-order.ts\<close>; the order shown is the one followed, and polling ends.
  \<^item> \<open>Wl_Checkout\<close>: \<open>payment-checkout-page.tsx\<close> and \<open>payment-result-alert.tsx\<close>; what the page
    offers is safe and offered only while the order can be paid.
  \<^item> \<open>Wl_Page\<close>: products, route options, redemption, referral and billing history, the last a
    second interpretation of \<open>latest_request\<close>.
  \<^item> \<open>Wl_Wallet\<close>: the handlers of \<open>index.tsx\<close> and every run of the page; the dialog confirms
    exactly what the form shows.

  \<^bold>\<open>Prices\<close> (\<open>features/pricing/lib\<close>).
  \<^item> \<open>Pr_Rules\<close>: request rules of \<open>billing-expr.ts\<close>, the conditions and multipliers of a request:
    building and parsing their expression, combining it with a price and splitting the two.
  \<^item> \<open>Pr_Rules_Ok\<close>, \<open>Pr_Rules_Split\<close>: how the patterns and the split at connectives read the text of
    rules; rules in normal form are read back, a combined expression is split into what it was
    made of, and the rules that are not read back.
  \<^item> \<open>Pr_Tiers\<close>: billing variables and the tier parser of \<open>billing-expr.ts\<close>, and the visual tier
    editor of \<open>tier-expr.ts\<close>.
  \<^item> \<open>Pr_Tiers_Ok\<close>, \<open>Pr_Tiers_Read\<close>: numbers, coefficients, calls and conditions as the patterns read
    them; the locale \<open>tier_reader\<close> states what a pattern of a tier call promises and is
    interpreted for both patterns of the source; the editor reads back what it wrote.
  \<^item> \<open>Pr_Shown\<close>: the tiers that customers see are those that were edited.
  \<^item> \<open>Pr_Dynamic\<close>: \<open>dynamic-price.ts\<close>; a published model shows the edited tiers and rules, and its
    summary lists real prices in order.
  The normal forms ask for what the editors produce: names without quotes, parentheses and
  connectives, numbers that are doubles, and a last tier without conditions.

  This theory holds what spans the wallet's components.

  \<^bold>\<open>Platform.\<close> A request that is aborted rejects as cancelled; the order hook and the billing
  history rely on this. The confirmation dialog is modal. React applies updates in order and runs
  an effect after a change of its dependencies.

  \<^bold>\<open>Not modelled.\<close> Markup and styling; the transport under the API functions; translation and
  locale-dependent formatting (parameters); characters above 255; the cost preview of the tier
  editor, which runs the expression as JavaScript; the other features of the console, the classic console, the desktop shell and the gateway server.
\<close>

section \<open>From the server's information to a quote\<close>

lemma quote_amount_whole:
  assumes "whole 1 10000 a"
  shows "quote_amount_ok a"
proof -
  obtain b where b: "a = Fin (of_int b)" "1 \<le> b" "b \<le> 10000" using wholeE [OF assms] by blast
  then have "(of_int b :: rat) \<ge> of_int 1" "(of_int b :: rat) \<le> of_int 10000" by (simp_all only: of_int_le_iff)
  then show ?thesis using b
    by (simp add: quote_amount_ok_def MAX_TOPUP_AMOUNT_def is_safe_integer_def is_int_rat_def MAX_SAFE_INTEGER_def)
qed


definition example_offer :: jsval where
  "example_offer = JObj
     [(''payment_routes'', JArr [JObj [(''route_id'', JStr ''r1''), (''type'', JStr ''alipay'')]]),
      (''amount_options'', JArr [JNum (Fin 5)])]"


end
